(* ===== verification/Prelude.thy ===== *)
theory Prelude
  imports Main
begin

section \<open>Prelude: results, collections of facts, list lemmas\<close>

text \<open>
  What every component shares: Rust's \<^verbatim>\<open>Result\<close> as the sum \<open>'e + 'a\<close> (\<open>Inl\<close> the error), the
  combinators the source uses on it (\<^verbatim>\<open>?\<close>, \<^verbatim>\<open>collect::<Result<Vec<_>>>()\<close>, \<^verbatim>\<open>unwrap_or\<close>), and the
  named collections of facts the component theories extend.
\<close>

named_theorems result_simps "unfolding rules of the Result combinators"
named_theorems io_simps "unfolding rules of the effect combinators"
named_theorems hoare "rules of the triples over effectful programs"
named_theorems staged_intros "rules that order the calls of a program by stages"

subsection \<open>Results\<close>

fun rbind :: "'e + 'a \<Rightarrow> ('a \<Rightarrow> 'e + 'b) \<Rightarrow> 'e + 'b" where
  "rbind (Inl e) f = Inl e"
| "rbind (Inr x) f = f x"

fun ok :: "'e + 'a \<Rightarrow> 'a option" where
  "ok (Inl e) = None"
| "ok (Inr x) = Some x"

fun unwrap_or :: "'a \<Rightarrow> 'e + 'a \<Rightarrow> 'a" where
  "unwrap_or d (Inl e) = d"
| "unwrap_or d (Inr x) = x"

definition ok_or :: "'e \<Rightarrow> 'a option \<Rightarrow> 'e + 'a" where
  "ok_or e x = (case x of None \<Rightarrow> Inl e | Some v \<Rightarrow> Inr v)"

definition opt_or :: "'a \<Rightarrow> 'a option \<Rightarrow> 'a" where
  "opt_or d x = (case x of None \<Rightarrow> d | Some v \<Rightarrow> v)"

text \<open>\<^verbatim>\<open>iter().map(f).collect::<Result<Vec<_>>>()\<close>: the first error ends the iteration.\<close>

fun collect_results :: "('a \<Rightarrow> 'e + 'b) \<Rightarrow> 'a list \<Rightarrow> 'e + 'b list" where
  "collect_results f [] = Inr []"
| "collect_results f (x # xs) =
     rbind (f x) (\<lambda>y. rbind (collect_results f xs) (\<lambda>ys. Inr (y # ys)))"

text \<open>A loop of checks: \<^verbatim>\<open>for x in xs { check(x)?; }\<close>.\<close>

fun check_all :: "('a \<Rightarrow> 'e + unit) \<Rightarrow> 'a list \<Rightarrow> 'e + unit" where
  "check_all f [] = Inr ()"
| "check_all f (x # xs) = rbind (f x) (\<lambda>_. check_all f xs)"

lemma rbind_Inr [result_simps]:
  "rbind r f = Inr y \<longleftrightarrow> (\<exists>x. r = Inr x \<and> f x = Inr y)"
  by (cases r) auto

lemma rbind_Inl [result_simps]:
  "rbind r f = Inl e \<longleftrightarrow> r = Inl e \<or> (\<exists>x. r = Inr x \<and> f x = Inl e)"
  by (cases r) auto

lemma rbind_assoc: "rbind (rbind r f) g = rbind r (\<lambda>x. rbind (f x) g)"
  by (cases r) auto

lemma ok_Some [simp]: "ok r = Some x \<longleftrightarrow> r = Inr x"
  by (cases r) auto

lemma ok_None [simp]: "ok r = None \<longleftrightarrow> (\<exists>e. r = Inl e)"
  by (cases r) auto

lemma opt_or_simps [simp]: "opt_or d None = d" "opt_or d (Some v) = v"
  by (simp_all add: opt_or_def)

lemma ok_or_simps [simp]: "ok_or e None = Inl e" "ok_or e (Some v) = Inr v"
  by (simp_all add: ok_or_def)

lemma check_all_Inr: "check_all f xs = Inr u \<longleftrightarrow> (\<forall>x\<in>set xs. f x = Inr ())"
  by (induction xs) (auto simp: result_simps)

lemma check_all_Inl:
  "check_all f xs = Inl e \<longleftrightarrow>
     (\<exists>pre x post. xs = pre @ x # post \<and> (\<forall>y\<in>set pre. f y = Inr ()) \<and> f x = Inl e)"
proof (induction xs)
  case Nil
  then show ?case by simp
next
  case (Cons a xs)
  show ?case
  proof (cases "f a")
    case (Inl e')
    then show ?thesis
      by (auto simp: Cons_eq_append_conv intro: exI [of _ "[]"])
  next
    case (Inr u)
    have "(\<exists>pre x post. a # xs = pre @ x # post \<and> (\<forall>y\<in>set pre. f y = Inr ()) \<and> f x = Inl e) \<longleftrightarrow>
          (\<exists>pre x post. xs = pre @ x # post \<and> (\<forall>y\<in>set pre. f y = Inr ()) \<and> f x = Inl e)"
      (is "?L \<longleftrightarrow> ?R")
    proof
      assume ?L
      with Inr show ?R by (fastforce simp: Cons_eq_append_conv)
    next
      assume ?R
      then obtain pre x post where
        "xs = pre @ x # post" "\<forall>y\<in>set pre. f y = Inr ()" "f x = Inl e" by blast
      with Inr show ?L by (intro exI [of _ "a # pre"] exI [of _ x] exI [of _ post]) auto
    qed
    with Inr Cons.IH show ?thesis by simp
  qed
qed

lemma collect_results_Inr:
  "collect_results f xs = Inr ys \<longleftrightarrow> map f xs = map Inr ys"
  by (induction xs arbitrary: ys) (auto simp: result_simps map_eq_Cons_conv)

lemma collect_results_total:
  "(\<And>x. x \<in> set xs \<Longrightarrow> f x = Inr (g x)) \<Longrightarrow> collect_results f xs = Inr (map g xs)"
  by (simp add: collect_results_Inr)

lemma collect_results_length: "collect_results f xs = Inr ys \<Longrightarrow> length ys = length xs"
  by (auto simp: collect_results_Inr dest: arg_cong [where f = length])

subsection \<open>Lists\<close>

text \<open>\<open>position\<close> is Rust's \<^verbatim>\<open>Iterator::position\<close>.\<close>

fun position :: "('a \<Rightarrow> bool) \<Rightarrow> 'a list \<Rightarrow> nat option" where
  "position p [] = None"
| "position p (x # xs) = (if p x then Some 0 else map_option Suc (position p xs))"

lemma position_None: "position p xs = None \<longleftrightarrow> (\<forall>x\<in>set xs. \<not> p x)"
  by (induction xs) auto

lemma position_Some_less: "position p xs = Some i \<Longrightarrow> i < length xs \<and> p (xs ! i)"
  by (induction xs arbitrary: i) (auto split: if_splits)

text \<open>\<open>find_map\<close> is Rust's \<^verbatim>\<open>Iterator::find_map\<close>: the first \<open>Some\<close>.\<close>

fun find_map :: "('a \<Rightarrow> 'b option) \<Rightarrow> 'a list \<Rightarrow> 'b option" where
  "find_map f [] = None"
| "find_map f (x # xs) = (case f x of None \<Rightarrow> find_map f xs | Some y \<Rightarrow> Some y)"

lemma find_map_None: "find_map f xs = None \<longleftrightarrow> (\<forall>x\<in>set xs. f x = None)"
  by (induction xs) (auto split: option.splits)

lemma insort_key_set_Cons: "set (insort_key f x xs) = insert x (set xs)"
  by (induction xs) auto

lemma last_in_set_append: "ys \<noteq> [] \<Longrightarrow> last (xs @ ys) \<in> set ys"
  by simp

end
