(* ===== verification/Rust_Strings.thy ===== *)
theory Rust_Strings
  imports Prelude "HOL-Library.Word"
begin

section \<open>Rust's strings and number formatting\<close>

text \<open>
  A Rust \<^verbatim>\<open>String\<close> is its sequence of UTF-8 bytes, a \<^typ>\<open>string\<close> here (a \<^typ>\<open>char\<close> is one byte). The
  operations of \<^verbatim>\<open>str\<close> the source calls, each under its own name where HOL allows it. All separators
  the source searches for are ASCII, so working on bytes agrees with working on code points.
  \<^verbatim>\<open>split_whitespace\<close> and \<^verbatim>\<open>trim\<close> are modelled on the ASCII white space (their inputs are kernel
  files, the command line and configuration values).
\<close>

subsection \<open>Characters\<close>

definition char_code :: "char \<Rightarrow> nat" where
  "char_code c = of_char c"

abbreviation colon :: char where "colon \<equiv> CHR 0x3A"
abbreviation slash :: char where "slash \<equiv> CHR 0x2F"
abbreviation dot :: char where "dot \<equiv> CHR 0x2E"
abbreviation comma :: char where "comma \<equiv> CHR 0x2C"
abbreviation backslash :: char where "backslash \<equiv> CHR 0x5C"
abbreviation newline :: char where "newline \<equiv> CHR 0x0A"
abbreviation blank :: char where "blank \<equiv> CHR 0x20"
abbreviation nul :: char where "nul \<equiv> CHR 0x00"

definition is_digit :: "char \<Rightarrow> bool" where
  "is_digit c \<longleftrightarrow> 48 \<le> char_code c \<and> char_code c \<le> 57"

definition is_alpha :: "char \<Rightarrow> bool" where
  "is_alpha c \<longleftrightarrow> (65 \<le> char_code c \<and> char_code c \<le> 90) \<or> (97 \<le> char_code c \<and> char_code c \<le> 122)"

definition is_alphanumeric :: "char \<Rightarrow> bool" where
  "is_alphanumeric c \<longleftrightarrow> is_alpha c \<or> is_digit c"

definition is_ws :: "char \<Rightarrow> bool" where
  "is_ws c \<longleftrightarrow> c = blank \<or> (9 \<le> char_code c \<and> char_code c \<le> 13)"

definition upper_char :: "char \<Rightarrow> char" where
  "upper_char c = (if 97 \<le> char_code c \<and> char_code c \<le> 122 then char_of (char_code c - 32) else c)"

definition digit_char :: "nat \<Rightarrow> char" where
  "digit_char d = char_of (48 + d)"

definition digit_value :: "char \<Rightarrow> nat" where
  "digit_value c = char_code c - 48"

lemma char_code_of [simp]: "n < 256 \<Longrightarrow> char_code (char_of n) = n"
  by (simp add: char_code_def)

lemma digit_char_value [simp]: "d < 10 \<Longrightarrow> digit_value (digit_char d) = d"
  by (simp add: digit_value_def digit_char_def)

lemma digit_char_is_digit [simp]: "d < 10 \<Longrightarrow> is_digit (digit_char d)"
  by (simp add: is_digit_def digit_char_def)

subsection \<open>Splitting and joining\<close>

text \<open>\<^verbatim>\<open>str::split(c)\<close>: one piece more than there are separators, so never empty.\<close>

fun split_on :: "char \<Rightarrow> string \<Rightarrow> string list" where
  "split_on c [] = [[]]"
| "split_on c (x # xs) =
     (if x = c then [] # split_on c xs
      else (case split_on c xs of [] \<Rightarrow> [[x]] | p # ps \<Rightarrow> (x # p) # ps))"

text \<open>\<^verbatim>\<open>[String]::join(sep)\<close>.\<close>

fun join_with :: "string \<Rightarrow> string list \<Rightarrow> string" where
  "join_with sep [] = []"
| "join_with sep [p] = p"
| "join_with sep (p # q # ps) = p @ sep @ join_with sep (q # ps)"

lemma split_on_not_Nil [simp]: "split_on c s \<noteq> []"
  by (cases s) (auto split: list.splits)

lemma split_on_pieces: "p \<in> set (split_on c s) \<Longrightarrow> c \<notin> set p"
  by (induction s arbitrary: p) (auto split: list.splits if_splits)

lemma split_on_id: "c \<notin> set s \<Longrightarrow> split_on c s = [s]"
  by (induction s) auto

lemma split_on_append_sep: "split_on c (xs @ c # ys) = split_on c xs @ split_on c ys"
proof (induction xs)
  case Nil
  then show ?case by simp
next
  case (Cons x xs)
  then show ?case by (cases "split_on c xs") auto
qed

lemma split_on_snoc_sep [simp]: "split_on c (xs @ [c]) = split_on c xs @ [[]]"
  using split_on_append_sep [of c xs "[]"] by simp

lemma join_with_Cons: "ps \<noteq> [] \<Longrightarrow> join_with sep (p # ps) = p @ sep @ join_with sep ps"
  by (cases ps) auto

lemma join_with_append:
  "ps \<noteq> [] \<Longrightarrow> qs \<noteq> [] \<Longrightarrow> join_with sep (ps @ qs) = join_with sep ps @ sep @ join_with sep qs"
proof (induction ps rule: join_with.induct [of _ sep])
  case (3 sep p q ps)
  then show ?case by (simp add: join_with_Cons)
qed (auto simp: join_with_Cons)

lemma join_with_Cons_char: "join_with sep ((x # p) # ps) = x # join_with sep (p # ps)"
  by (cases ps) auto

lemma join_split [simp]: "join_with [c] (split_on c s) = s"
proof (induction s)
  case Nil
  then show ?case by simp
next
  case (Cons x s)
  then show ?case
    by (cases "split_on c s") (auto simp: join_with_Cons join_with_Cons_char)
qed

lemma split_join:
  "ps \<noteq> [] \<Longrightarrow> (\<And>p. p \<in> set ps \<Longrightarrow> c \<notin> set p) \<Longrightarrow> split_on c (join_with [c] ps) = ps"
proof (induction ps)
  case Nil
  then show ?case by simp
next
  case (Cons p ps)
  show ?case
  proof (cases "ps = []")
    case True
    with Cons.prems show ?thesis by (simp add: split_on_id)
  next
    case False
    with Cons have "split_on c (p @ c # join_with [c] ps) = [p] @ ps"
      by (subst split_on_append_sep) (simp add: split_on_id)
    with False show ?thesis by (simp add: join_with_Cons)
  qed
qed

text \<open>\<^verbatim>\<open>str::split_once(c)\<close>: at the first separator.\<close>

fun split_once :: "char \<Rightarrow> string \<Rightarrow> (string \<times> string) option" where
  "split_once c [] = None"
| "split_once c (x # xs) =
     (if x = c then Some ([], xs) else map_option (\<lambda>(a, b). (x # a, b)) (split_once c xs))"

lemma split_once_None: "split_once c s = None \<longleftrightarrow> c \<notin> set s"
  by (induction s) auto

lemma split_once_SomeD: "split_once c s = Some (a, b) \<Longrightarrow> s = a @ c # b \<and> c \<notin> set a"
  by (induction s arbitrary: a) (auto split: if_splits)

lemma split_once_SomeI: "c \<notin> set a \<Longrightarrow> split_once c (a @ c # b) = Some (a, b)"
  by (induction a) auto

subsection \<open>White space and lines\<close>

fun split_by :: "(char \<Rightarrow> bool) \<Rightarrow> string \<Rightarrow> string list" where
  "split_by p [] = [[]]"
| "split_by p (x # xs) =
     (if p x then [] # split_by p xs
      else (case split_by p xs of [] \<Rightarrow> [[x]] | q # qs \<Rightarrow> (x # q) # qs))"

definition split_whitespace :: "string \<Rightarrow> string list" where
  "split_whitespace s = filter (\<lambda>w. w \<noteq> []) (split_by is_ws s)"

definition trim :: "string \<Rightarrow> string" where
  "trim s = rev (dropWhile is_ws (rev (dropWhile is_ws s)))"

text \<open>\<^verbatim>\<open>str::lines\<close>: a final line ending opens no further line, and a carriage return before the
  line feed is dropped.\<close>

definition strip_cr :: "string \<Rightarrow> string" where
  "strip_cr l = (if l \<noteq> [] \<and> last l = CHR 0x0D then butlast l else l)"

definition text_lines :: "string \<Rightarrow> string list" where
  "text_lines s =
     (let ps = split_on newline s
      in map strip_cr (if last ps = [] then butlast ps else ps))"

subsection \<open>Prefixes, suffixes, replacement\<close>

fun strip_prefix :: "string \<Rightarrow> string \<Rightarrow> string option" where
  "strip_prefix [] s = Some s"
| "strip_prefix (p # ps) [] = None"
| "strip_prefix (p # ps) (x # xs) = (if p = x then strip_prefix ps xs else None)"

definition strip_suffix :: "string \<Rightarrow> string \<Rightarrow> string option" where
  "strip_suffix p s = map_option rev (strip_prefix (rev p) (rev s))"

lemma strip_prefix_Some [simp]: "strip_prefix p s = Some t \<longleftrightarrow> s = p @ t"
  by (induction p s rule: strip_prefix.induct) auto

lemma strip_prefix_append [simp]: "strip_prefix p (p @ t) = Some t"
  by simp

lemma strip_suffix_Some: "strip_suffix p s = Some t \<longleftrightarrow> s = t @ p"
proof
  assume "strip_suffix p s = Some t"
  then obtain z where "rev s = rev p @ z" and "t = rev z"
    by (auto simp: strip_suffix_def)
  then have "rev (rev s) = t @ p" by simp
  then show "s = t @ p" by simp
next
  assume "s = t @ p"
  then show "strip_suffix p s = Some t" by (simp add: strip_suffix_def del: strip_prefix_Some)
qed

text \<open>\<^verbatim>\<open>str::replace(c, r)\<close> for a one-byte pattern.\<close>

definition replace_char :: "char \<Rightarrow> string \<Rightarrow> string \<Rightarrow> string" where
  "replace_char c r s = concat (map (\<lambda>x. if x = c then r else [x]) s)"

lemma replace_char_simps [simp]:
  "replace_char c r [] = []"
  "replace_char c r (x # s) = (if x = c then r else [x]) @ replace_char c r s"
  "replace_char c r (s @ t) = replace_char c r s @ replace_char c r t"
  by (simp_all add: replace_char_def)

definition to_upper :: "string \<Rightarrow> string" where
  "to_upper s = map upper_char s"

subsection \<open>Decimal numbers\<close>

text \<open>\<^verbatim>\<open>to_string\<close> on integers, and \<^verbatim>\<open>FromStr\<close>: an optional sign (\<^verbatim>\<open>+\<close> also on unsigned types), at
  least one digit, and a value in range.\<close>

fun show_nat :: "nat \<Rightarrow> string" where
  "show_nat n = (if n < 10 then [digit_char n] else show_nat (n div 10) @ [digit_char (n mod 10)])"

declare show_nat.simps [simp del]

definition show_int :: "int \<Rightarrow> string" where
  "show_int i = (if i < 0 then CHR 0x2D # show_nat (nat (- i)) else show_nat (nat i))"

definition digits_value :: "string \<Rightarrow> nat" where
  "digits_value s = foldl (\<lambda>n c. 10 * n + digit_value c) 0 s"

definition parse_digits :: "string \<Rightarrow> nat option" where
  "parse_digits s = (if s \<noteq> [] \<and> list_all is_digit s then Some (digits_value s) else None)"

definition parse_unsigned :: "nat \<Rightarrow> string \<Rightarrow> nat option" where
  "parse_unsigned w s =
     (case parse_digits (case s of c # t \<Rightarrow> if c = CHR 0x2B then t else s | [] \<Rightarrow> []) of
        None \<Rightarrow> None
      | Some n \<Rightarrow> if n < 2 ^ w then Some n else None)"

definition parse_signed :: "nat \<Rightarrow> string \<Rightarrow> int option" where
  "parse_signed w s =
     (case s of
        [] \<Rightarrow> None
      | c # t \<Rightarrow>
          (let neg = (c = CHR 0x2D);
               body = (if neg \<or> c = CHR 0x2B then t else s)
           in case parse_digits body of
                None \<Rightarrow> None
              | Some n \<Rightarrow>
                  (let i = (if neg then - int n else int n)
                   in if - (2 ^ (w - 1)) \<le> i \<and> i < 2 ^ (w - 1) then Some i else None)))"

definition parse_u64 :: "string \<Rightarrow> 64 word option" where
  "parse_u64 s = map_option of_nat (parse_unsigned 64 s)"

definition parse_u32 :: "string \<Rightarrow> 32 word option" where
  "parse_u32 s = map_option of_nat (parse_unsigned 32 s)"

definition parse_i32 :: "string \<Rightarrow> int option" where
  "parse_i32 s = parse_signed 32 s"

definition show_u64 :: "64 word \<Rightarrow> string" where
  "show_u64 n = show_nat (unat n)"

definition show_u32 :: "32 word \<Rightarrow> string" where
  "show_u32 n = show_nat (unat n)"

lemma show_nat_not_Nil [simp]: "show_nat n \<noteq> []"
  by (subst show_nat.simps) simp

lemma show_nat_digits: "list_all is_digit (show_nat n)"
proof (induction n rule: show_nat.induct)
  case (1 n)
  then show ?case by (subst show_nat.simps) (auto simp: list_all_iff)
qed

lemma show_nat_chars: "c \<in> set (show_nat n) \<Longrightarrow> is_digit c"
  using show_nat_digits [of n] by (auto simp: list_all_iff)

lemma digits_value_snoc [simp]: "digits_value (s @ [c]) = 10 * digits_value s + digit_value c"
  by (simp add: digits_value_def)

lemma digits_value_show [simp]: "digits_value (show_nat n) = n"
proof (induction n rule: show_nat.induct)
  case (1 n)
  then show ?case
    by (subst show_nat.simps) (auto simp: digits_value_def)
qed

lemma parse_digits_show [simp]: "parse_digits (show_nat n) = Some n"
  by (simp add: parse_digits_def show_nat_digits)

lemma show_nat_hd: "is_digit (hd (show_nat n))"
  using show_nat_chars [of "hd (show_nat n)" n] by simp

lemma not_digit_signs: "\<not> is_digit (CHR 0x2B)" "\<not> is_digit (CHR 0x2D)"
  by (simp_all add: is_digit_def char_code_def)

lemma show_nat_no_sign:
  "show_nat n = c # t \<Longrightarrow> c \<noteq> CHR 0x2B \<and> c \<noteq> CHR 0x2D"
  using show_nat_hd [of n] not_digit_signs by auto

lemma parse_unsigned_show: "n < 2 ^ w \<Longrightarrow> parse_unsigned w (show_nat n) = Some n"
  using show_nat_no_sign [of n] parse_digits_show [of n]
  by (cases "show_nat n") (auto simp: parse_unsigned_def)

lemma parse_u64_show: "parse_u64 (show_u64 n) = Some n"
  using parse_unsigned_show [of "unat n" 64] unsigned_less [where 'a = nat, of n]
  by (simp add: parse_u64_def show_u64_def)

lemma parse_u32_show: "parse_u32 (show_u32 n) = Some n"
  using parse_unsigned_show [of "unat n" 32] unsigned_less [where 'a = nat, of n]
  by (simp add: parse_u32_def show_u32_def)

lemma parse_signed_show:
  assumes "- (2 ^ (w - 1)) \<le> i" "i < 2 ^ (w - 1)"
  shows "parse_signed w (show_int i) = Some i"
proof (cases "i < 0")
  case True
  then show ?thesis using assms by (simp add: parse_signed_def show_int_def)
next
  case False
  obtain c t where ct: "show_nat (nat i) = c # t"
    by (cases "show_nat (nat i)") auto
  with show_nat_no_sign [OF ct] False assms parse_digits_show [of "nat i"]
  show ?thesis by (simp add: parse_signed_def show_int_def)
qed

lemma parse_i32_show: "- (2 ^ 31) \<le> i \<Longrightarrow> i < 2 ^ 31 \<Longrightarrow> parse_i32 (show_int i) = Some i"
  using parse_signed_show [of 32 i] by (simp add: parse_i32_def)

lemma parse_unsigned_bound: "parse_unsigned w s = Some n \<Longrightarrow> n < 2 ^ w"
  by (auto simp: parse_unsigned_def split: option.splits if_splits)

lemma show_nat_inj: "show_nat m = show_nat n \<Longrightarrow> m = n"
  by (metis digits_value_show)

text \<open>\<^verbatim>\<open>{:0w}\<close> pads with zeros on the left.\<close>

definition pad_left :: "nat \<Rightarrow> string \<Rightarrow> string" where
  "pad_left w s = replicate (w - length s) (CHR 0x30) @ s"

definition show_padded :: "nat \<Rightarrow> int \<Rightarrow> string" where
  "show_padded w i =
     (if i < 0 then CHR 0x2D # pad_left (w - 1) (show_nat (nat (- i)))
      else pad_left w (show_nat (nat i)))"

end
