(* ===== verification/Rust_Path.thy ===== *)
theory Rust_Path
  imports Rust_Strings "HOL-Library.Sublist"
begin

section \<open>Rust's paths\<close>

text \<open>
  \<^verbatim>\<open>std::path\<close> on Unix, as far as the source uses it. A path is its byte string; comparison,
  \<^verbatim>\<open>starts_with\<close>, \<^verbatim>\<open>strip_prefix\<close> and \<^verbatim>\<open>parent\<close> work on its components, \<^verbatim>\<open>join\<close>, \<^verbatim>\<open>push\<close> and the
  mount option strings on the bytes. Repeated separators and interior \<^verbatim>\<open>.\<close> are no components; a
  leading \<^verbatim>\<open>.\<close> of a relative path is one.
\<close>

type_synonym path = string

datatype component = RootDir | CurDir | ParentDir | Normal string

definition has_root :: "path \<Rightarrow> bool" where
  "has_root p \<longleftrightarrow> p \<noteq> [] \<and> hd p = slash"

abbreviation is_absolute :: "path \<Rightarrow> bool" where
  "is_absolute \<equiv> has_root"

definition path_segs :: "path \<Rightarrow> string list" where
  "path_segs p = split_on slash (if has_root p then tl p else p)"

definition seg_comp :: "string \<Rightarrow> component list" where
  "seg_comp s =
     (if s = [] \<or> s = [dot] then [] else if s = [dot, dot] then [ParentDir] else [Normal s])"

definition comps_of :: "string list \<Rightarrow> component list" where
  "comps_of ss = concat (map seg_comp ss)"

definition components :: "path \<Rightarrow> component list" where
  "components p =
     (if has_root p then RootDir # comps_of (path_segs p)
      else (case path_segs p of
              [] \<Rightarrow> []
            | s # ss \<Rightarrow> (if s = [dot] then [CurDir] else seg_comp s) @ comps_of ss))"

definition path_eq :: "path \<Rightarrow> path \<Rightarrow> bool" where
  "path_eq p q \<longleftrightarrow> components p = components q"

definition starts_with :: "path \<Rightarrow> path \<Rightarrow> bool" where
  "starts_with p base \<longleftrightarrow> take (length (components base)) (components p) = components base"

definition join_path :: "path \<Rightarrow> path \<Rightarrow> path" where
  "join_path base p =
     (if has_root p then p
      else if base \<noteq> [] \<and> last base \<noteq> slash then base @ slash # p
      else base @ p)"

definition component_str :: "component \<Rightarrow> string" where
  "component_str c =
     (case c of RootDir \<Rightarrow> [slash] | CurDir \<Rightarrow> [dot] | ParentDir \<Rightarrow> [dot, dot] | Normal s \<Rightarrow> s)"

text \<open>\<^verbatim>\<open>components().collect::<PathBuf>()\<close>.\<close>

definition from_components :: "component list \<Rightarrow> path" where
  "from_components cs = foldl (\<lambda>p c. join_path p (component_str c)) [] cs"

text \<open>The segments, read from the back, after the ones that are no components. \<open>rel\<close>: the first
  segment of the path is the start of a relative path, where \<^verbatim>\<open>.\<close> is a component.\<close>

fun trim_rev :: "bool \<Rightarrow> string list \<Rightarrow> string list" where
  "trim_rev rel [] = []"
| "trim_rev rel (s # ss) =
     (if s = [] \<or> (s = [dot] \<and> \<not> (rel \<and> ss = [])) then trim_rev rel ss else s # ss)"

definition parent :: "path \<Rightarrow> path option" where
  "parent p =
     (let rel = \<not> has_root p
      in case trim_rev rel (rev (path_segs p)) of
           [] \<Rightarrow> None
         | s # ss \<Rightarrow>
             Some ((if rel then [] else [slash]) @ join_with [slash] (rev (trim_rev rel ss))))"

text \<open>The segments after the first \<open>n\<close> components and the separators that follow them.\<close>

fun skip_segs :: "bool \<Rightarrow> nat \<Rightarrow> string list \<Rightarrow> string list" where
  "skip_segs lead n [] = []"
| "skip_segs lead n (s # ss) =
     (if s = [] \<or> (s = [dot] \<and> \<not> lead) then skip_segs False n ss
      else if n = 0 then s # ss
      else skip_segs False (n - 1) ss)"

definition strip_path_prefix :: "path \<Rightarrow> path \<Rightarrow> path option" where
  "strip_path_prefix p base =
     (if \<not> starts_with p base then None
      else if components base = [] then
        Some ((if has_root p then [slash] else []) @
              join_with [slash] (rev (trim_rev (\<not> has_root p) (rev (path_segs p)))))
      else
        Some (join_with [slash] (rev (trim_rev False (rev
          (skip_segs (\<not> has_root p)
             (length (components base) - (if has_root p then 1 else 0)) (path_segs p)))))))"

subsection \<open>Components of a joined path\<close>

text \<open>A plain file name: one \<open>Normal\<close> component.\<close>

definition plain_name :: "string \<Rightarrow> bool" where
  "plain_name s \<longleftrightarrow> s \<noteq> [] \<and> s \<noteq> [dot] \<and> s \<noteq> [dot, dot] \<and> slash \<notin> set s"

lemma comps_of_simps [simp]:
  "comps_of [] = []"
  "comps_of (s # ss) = seg_comp s @ comps_of ss"
  "comps_of (ss @ ts) = comps_of ss @ comps_of ts"
  by (simp_all add: comps_of_def)

lemma seg_comp_Nil [simp]: "seg_comp [] = []" and seg_comp_dot [simp]: "seg_comp [dot] = []"
  by (simp_all add: seg_comp_def)

lemma seg_comp_plain: "plain_name s \<Longrightarrow> seg_comp s = [Normal s]"
  by (simp add: seg_comp_def plain_name_def)

lemma has_root_append: "p \<noteq> [] \<Longrightarrow> has_root (p @ q) = has_root p"
  by (simp add: has_root_def)

lemma path_segs_sep: "p \<noteq> [] \<Longrightarrow> path_segs (p @ slash # q) = path_segs p @ split_on slash q"
  using split_on_append_sep [of slash p q] split_on_append_sep [of slash "tl p" q]
  by (simp add: path_segs_def has_root_def)

lemma path_segs_dir: "p \<noteq> [] \<Longrightarrow> last p = slash \<Longrightarrow>
    \<exists>ss. path_segs p = ss @ [[]] \<and> path_segs (p @ q) = ss @ split_on slash q \<and> (\<not> has_root p \<longrightarrow> ss \<noteq> [])"
proof -
  assume "p \<noteq> []" and "last p = slash"
  then obtain b where b: "p = b @ [slash]" by (metis append_butlast_last_id)
  show ?thesis
  proof (cases b)
    case Nil
    with b show ?thesis by (simp add: path_segs_def has_root_def)
  next
    case (Cons x xs)
    show ?thesis
    proof (cases "x = slash")
      case True
      with b Cons show ?thesis
        by (intro exI [of _ "split_on slash xs"])
           (simp add: path_segs_def has_root_def split_on_append_sep)
    next
      case False
      have "split_on slash (b @ slash # q) = split_on slash b @ split_on slash q"
        by (rule split_on_append_sep)
      moreover have "split_on slash p = split_on slash b @ [[]]"
        unfolding b by (rule split_on_snoc_sep)
      moreover have "p @ q = b @ slash # q" using b by simp
      moreover have "\<not> has_root p" "\<not> has_root (p @ q)"
        using b Cons False by (simp_all add: has_root_def)
      ultimately show ?thesis
        by (intro exI [of _ "split_on slash b"]) (simp add: path_segs_def)
    qed
  qed
qed

lemma components_segs:
  "path_segs p = ss @ ts \<Longrightarrow> ss \<noteq> [] \<or> has_root p \<Longrightarrow>
   path_segs q = ss @ us \<Longrightarrow> has_root q = has_root p \<Longrightarrow> comps_of ts = [] \<Longrightarrow>
   components q = components p @ comps_of us"
  by (cases ss) (auto simp: components_def)

lemma components_join:
  assumes "base \<noteq> []" and "\<not> has_root p"
  shows "components (join_path base p) = components base @ comps_of (split_on slash p)"
proof (cases "last base = slash")
  case True
  then obtain ss where ss: "path_segs base = ss @ [[]]" "path_segs (base @ p) = ss @ split_on slash p"
    and ne: "ss \<noteq> [] \<or> has_root base"
    using path_segs_dir [OF assms(1), of p] by blast
  show ?thesis
    using True assms components_segs [OF ss(1) ne ss(2)]
    by (simp add: join_path_def has_root_append)
next
  case False
  have eq: "path_segs (base @ slash # p) = path_segs base @ split_on slash p"
    using assms by (simp add: path_segs_sep)
  have ne: "path_segs base \<noteq> [] \<or> has_root base" by (simp add: path_segs_def)
  show ?thesis
    using False assms components_segs [OF _ ne eq, of "[]"]
    by (simp add: join_path_def has_root_append)
qed

lemma plain_name_relative: "plain_name n \<Longrightarrow> \<not> has_root n"
  by (cases n) (auto simp: plain_name_def has_root_def)

lemma components_join_plain:
  assumes "base \<noteq> []" "plain_name n"
  shows "components (join_path base n) = components base @ [Normal n]"
proof -
  have "split_on slash n = [n]"
    using assms(2) by (simp add: plain_name_def split_on_id)
  then show ?thesis
    using assms components_join [OF assms(1) plain_name_relative [OF assms(2)]]
    by (simp add: seg_comp_plain)
qed

lemma join_path_not_Nil: "base \<noteq> [] \<Longrightarrow> join_path base p \<noteq> []"
  by (auto simp: join_path_def has_root_def)

lemma has_root_join: "has_root base \<Longrightarrow> has_root (join_path base p)"
  by (auto simp: join_path_def has_root_def)

lemma starts_with_iff: "starts_with p base \<longleftrightarrow> (\<exists>cs. components p = components base @ cs)"
proof
  assume "starts_with p base"
  then have "components p = components base @ drop (length (components base)) (components p)"
    by (metis append_take_drop_id starts_with_def)
  then show "\<exists>cs. components p = components base @ cs" by blast
qed (auto simp: starts_with_def)

lemma starts_with_refl [simp]: "starts_with p p"
  by (auto simp: starts_with_iff)

lemma starts_with_join: "base \<noteq> [] \<Longrightarrow> \<not> has_root p \<Longrightarrow> starts_with (join_path base p) base"
  by (auto simp: starts_with_iff components_join)

lemma starts_with_trans: "starts_with p q \<Longrightarrow> starts_with q r \<Longrightarrow> starts_with p r"
  by (auto simp: starts_with_iff)

subsection \<open>Parents\<close>

lemma comps_of_trim: "comps_of (rev (trim_rev False ss)) = comps_of (rev ss)"
  by (induction ss) (auto simp: seg_comp_def)

lemma trim_rev_head: "trim_rev False ss = s # ts \<Longrightarrow> seg_comp s \<noteq> []"
  by (induction ss) (auto simp: seg_comp_def split: if_splits)

lemma seg_comp_length: "seg_comp s \<noteq> [] \<Longrightarrow> \<exists>c. seg_comp s = [c]"
  by (auto simp: seg_comp_def split: if_splits)

lemma trim_rev_subset: "set (trim_rev rel ss) \<subseteq> set ss"
  by (induction ss) auto

lemma path_segs_no_slash: "s \<in> set (path_segs p) \<Longrightarrow> slash \<notin> set s"
  by (auto simp: path_segs_def dest: split_on_pieces split: if_splits)

lemma path_segs_rooted:
  assumes "\<And>s. s \<in> set ss \<Longrightarrow> slash \<notin> set s"
  shows "components (slash # join_with [slash] ss) = RootDir # comps_of ss"
proof (cases "ss = []")
  case True
  then show ?thesis by (simp add: components_def has_root_def path_segs_def)
next
  case False
  then show ?thesis
    using split_join [OF False assms] by (simp add: components_def has_root_def path_segs_def)
qed

lemma components_parent:
  assumes "has_root p" "parent p = Some q"
  shows "components q = butlast (components p)"
proof -
  obtain s ss where tr: "trim_rev False (rev (path_segs p)) = s # ss"
    and q: "q = slash # join_with [slash] (rev (trim_rev False ss))"
    using assms by (auto simp: parent_def Let_def split: list.splits)
  have sub: "set (s # ss) \<subseteq> set (path_segs p)"
    using trim_rev_subset [of False "rev (path_segs p)"] tr by simp
  have "x \<in> set (rev (trim_rev False ss)) \<Longrightarrow> slash \<notin> set x" for x
    using sub trim_rev_subset [of False ss] path_segs_no_slash [of x p] by auto
  then have "components q = RootDir # comps_of (rev ss)"
    using path_segs_rooted [of "rev (trim_rev False ss)"] by (simp add: q comps_of_trim)
  moreover have "comps_of (path_segs p) = comps_of (rev ss) @ seg_comp s"
    using comps_of_trim [of "rev (path_segs p)"] tr by simp
  moreover obtain c where "seg_comp s = [c]"
    using trim_rev_head [OF tr] seg_comp_length by blast
  ultimately show ?thesis
    using assms(1) by (simp add: components_def butlast_append)
qed

lemma parent_None_rooted: "has_root p \<Longrightarrow> parent p = None \<longleftrightarrow> components p = [RootDir]"
proof -
  assume r: "has_root p"
  have "trim_rev False ss = [] \<longleftrightarrow> comps_of (rev ss) = []" for ss
    by (induction ss) (auto simp: seg_comp_def)
  from this [of "rev (path_segs p)"] r show ?thesis
    by (auto simp: parent_def Let_def components_def split: list.splits)
qed

lemma parent_has_root: "has_root p \<Longrightarrow> parent p = Some q \<Longrightarrow> has_root q"
  by (auto simp: parent_def Let_def has_root_def split: list.splits)

subsection \<open>Prefixes and rejoining\<close>

lemma comps_of_skip: "comps_of (skip_segs False n ss) = drop n (comps_of ss)"
proof (induction "False" n ss rule: skip_segs.induct)
  case (2 n s ss)
  then show ?case
    by (cases n) (auto simp: seg_comp_def)
qed simp

lemma skip_segs_head:
  "skip_segs False n ss = s # ts \<Longrightarrow> s \<noteq> [] \<and> s \<noteq> [dot]"
  by (induction "False" n ss rule: skip_segs.induct) (auto split: if_splits)

lemma skip_segs_subset: "set (skip_segs lead n ss) \<subseteq> set ss"
  by (induction lead n ss rule: skip_segs.induct) auto

lemma strip_path_prefix_rejoin:
  assumes root: "has_root base" and p: "has_root p"
    and strip: "strip_path_prefix p base = Some r" and ne: "r \<noteq> []"
  shows "components (join_path base r) = components p"
proof -
  let ?n = "length (components base) - 1"
  let ?ss = "skip_segs False ?n (path_segs p)"
  let ?ts = "rev (trim_rev False (rev ?ss))"
  have sw: "starts_with p base" and r: "r = join_with [slash] ?ts"
    using strip p root by (auto simp: strip_path_prefix_def components_def split: if_splits)
  have noslash: "x \<in> set ?ts \<Longrightarrow> slash \<notin> set x" for x
    using trim_rev_subset [of False "rev ?ss"] skip_segs_subset [of False ?n "path_segs p"]
      path_segs_no_slash [of x p] by auto
  have ts: "?ts \<noteq> []" using ne r by auto
  then have split: "split_on slash r = ?ts"
    unfolding r using noslash by (rule split_join)
  have comps: "comps_of ?ts = drop ?n (comps_of (path_segs p))"
    by (simp add: comps_of_trim comps_of_skip)
  have rel: "\<not> has_root r"
  proof
    assume "has_root r"
    then obtain r' where "r = slash # r'" by (cases r) (auto simp: has_root_def)
    then have hd: "hd ?ts = []" using split [symmetric] by simp
    obtain s ss' where ss: "?ss = s # ss'"
      using ts by (cases ?ss) auto
    have "s \<noteq> []" "s \<noteq> [dot]" using skip_segs_head [OF ss] by auto
    then have "\<exists>u. trim_rev False (rev (s # ss')) = u @ [s]"
    proof -
      assume s: "s \<noteq> []" "s \<noteq> [dot]"
      have "\<exists>u. trim_rev False (us @ [s]) = u @ [s]" for us
        by (induction us) (use s in auto)
      then show ?thesis by simp
    qed
    then have "hd ?ts = s" using ss by auto
    with hd \<open>s \<noteq> []\<close> show False by simp
  qed
  have bne: "base \<noteq> []" using root by (auto simp: has_root_def)
  obtain cs where cs: "components p = components base @ cs"
    using sw by (auto simp: starts_with_iff)
  have "comps_of (path_segs p) = tl (components p)"
    using p by (simp add: components_def)
  moreover have "tl (components p) = tl (components base) @ cs"
    using cs root by (simp add: components_def)
  moreover have "length (tl (components base)) = ?n" by simp
  ultimately have "drop ?n (comps_of (path_segs p)) = cs" by simp
  with comps cs split show ?thesis
    by (simp add: components_join [OF bne rel])
qed

subsection \<open>Collecting components\<close>

text \<open>The components an absolute path can have.\<close>

fun plain_comp :: "component \<Rightarrow> bool" where
  "plain_comp ParentDir = True"
| "plain_comp (Normal s) = plain_name s"
| "plain_comp RootDir = False"
| "plain_comp CurDir = False"

lemma seg_comp_plain_comp: "slash \<notin> set s \<Longrightarrow> c \<in> set (seg_comp s) \<Longrightarrow> plain_comp c"
  by (auto simp: seg_comp_def plain_name_def split: if_splits)

lemma comps_of_plain: "(\<And>s. s \<in> set ss \<Longrightarrow> slash \<notin> set s) \<Longrightarrow> c \<in> set (comps_of ss) \<Longrightarrow> plain_comp c"
  by (induction ss) (auto dest: seg_comp_plain_comp)

lemma components_rooted:
  "has_root p \<Longrightarrow> \<exists>cs. components p = RootDir # cs \<and> (\<forall>c\<in>set cs. plain_comp c)"
  using comps_of_plain [of "path_segs p"] path_segs_no_slash
  by (auto simp: components_def)

lemma no_root_comps: "RootDir \<notin> set (comps_of ss)"
  by (induction ss) (auto simp: seg_comp_def)

lemma components_rooted_iff: "has_root p \<longleftrightarrow> (\<exists>cs. components p = RootDir # cs)"
proof
  assume "\<exists>cs. components p = RootDir # cs"
  then have root: "RootDir \<in> set (components p)" by auto
  show "has_root p"
  proof (rule ccontr)
    assume "\<not> has_root p"
    with root no_root_comps show False
      by (auto simp: components_def seg_comp_def split: list.splits if_splits)
  qed
qed (auto simp: components_def)

lemma components_join_comp:
  "base \<noteq> [] \<Longrightarrow> plain_comp c \<Longrightarrow> components (join_path base (component_str c)) = components base @ [c]"
proof (cases c)
  case ParentDir
  assume "base \<noteq> []"
  moreover have "\<not> has_root [dot, dot]" by (simp add: has_root_def)
  ultimately have "components (join_path base [dot, dot]) = components base @ [ParentDir]"
    by (simp add: components_join seg_comp_def)
  with ParentDir show ?thesis by (simp add: component_str_def)
qed (auto simp: component_str_def components_join_plain)

lemma from_components_rooted:
  assumes "\<forall>c\<in>set cs. plain_comp c"
  shows "has_root (from_components (RootDir # cs)) \<and> components (from_components (RootDir # cs)) = RootDir # cs"
  using assms
proof (induction cs rule: rev_induct)
  case Nil
  then show ?case
    by (simp add: from_components_def component_str_def join_path_def has_root_def
        components_def path_segs_def)
next
  case (snoc c cs)
  let ?b = "from_components (RootDir # cs)"
  have b: "has_root ?b" "components ?b = RootDir # cs" using snoc by auto
  have ne: "?b \<noteq> []" using b(1) by (auto simp: has_root_def)
  have "from_components (RootDir # cs @ [c]) = join_path ?b (component_str c)"
    by (simp add: from_components_def)
  moreover have "plain_comp c" using snoc.prems by simp
  ultimately show ?case
    using components_join_comp [OF ne] has_root_join [OF b(1)] b(2) by simp
qed

end
