(* ===== verification/Oci_Spec.thy ===== *)
theory Oci_Spec
  imports Rust_Path
begin

section \<open>The configuration the runtime reads\<close>

text \<open>
  The types of the \<^verbatim>\<open>oci_spec\<close> crate, which is not part of the repository: for each, the fields the
  source reads through its getters, with Rust's \<^verbatim>\<open>Option\<close> kept. Numbers the source only prints or
  compares are \<^typ>\<open>int\<close> (signed) or a word of their width. A \<^verbatim>\<open>HashMap\<close> or \<^verbatim>\<open>HashSet\<close> is the list of
  its entries in the order one iteration visits them; theorems hold for every order.
\<close>

type_synonym u64 = "64 word"
type_synonym u32 = "32 word"
type_synonym u16 = "16 word"
type_synonym u8 = "8 word"

datatype ns_type =
  Ns_Mount | Ns_Pid | Ns_Network | Ns_Ipc | Ns_Uts | Ns_User | Ns_Cgroup | Ns_Time

record linux_namespace =
  ns_typ :: ns_type
  ns_path :: "path option"

record mount_spec =
  mnt_destination :: path
  mnt_typ :: "string option"
  mnt_source :: "path option"
  mnt_options :: "string list option"

record id_mapping =
  map_container :: u32
  map_host :: u32
  map_size :: u32

record time_offset =
  off_secs :: "int option"
  off_nanosecs :: "u32 option"

datatype device_type = Dev_A | Dev_B | Dev_C | Dev_U | Dev_P

record linux_device =
  dev_path :: path
  dev_typ :: device_type
  dev_major :: int
  dev_minor :: int
  dev_mode :: "u32 option"
  dev_uid :: "u32 option"
  dev_gid :: "u32 option"

subsection \<open>The process\<close>

datatype rlimit_type =
  RlimitCpu | RlimitFsize | RlimitData | RlimitStack | RlimitCore | RlimitRss | RlimitNproc
| RlimitNofile | RlimitMemlock | RlimitAs | RlimitLocks | RlimitSigpending | RlimitMsgqueue
| RlimitNice | RlimitRtprio | RlimitRttime

record posix_rlimit =
  rl_typ :: rlimit_type
  rl_soft :: u64
  rl_hard :: u64

record user_spec =
  usr_uid :: u32
  usr_gid :: u32
  usr_umask :: "u32 option"
  usr_groups :: "u32 list option"

text \<open>A capability is the name it serialises to (\<^verbatim>\<open>CAP_KILL\<close>).\<close>

type_synonym capability = string

record linux_capabilities =
  cap_bounding :: "capability list option"
  cap_effective :: "capability list option"
  cap_inheritable :: "capability list option"
  cap_permitted :: "capability list option"
  cap_ambient :: "capability list option"

record process_spec =
  proc_terminal :: "bool option"
  proc_user :: user_spec
  proc_args :: "string list option"
  proc_env :: "string list option"
  proc_cwd :: path
  proc_caps :: "linux_capabilities option"
  proc_rlimits :: "posix_rlimit list option"
  proc_oom :: "int option"
  proc_nnp :: "bool option"

subsection \<open>Hooks\<close>

record hook =
  hook_path :: path
  hook_args :: "string list option"
  hook_env :: "string list option"
  hook_timeout :: "int option"

record hooks =
  hooks_prestart :: "hook list option"
  hooks_create_runtime :: "hook list option"
  hooks_create_container :: "hook list option"
  hooks_start_container :: "hook list option"
  hooks_poststart :: "hook list option"
  hooks_poststop :: "hook list option"

subsection \<open>Resources\<close>

record memory_res =
  mem_limit :: "int option"
  mem_reservation :: "int option"
  mem_swap :: "int option"

record cpu_res =
  cpu_shares :: "u64 option"
  cpu_quota :: "int option"
  cpu_period :: "u64 option"
  cpu_cpus :: "string option"
  cpu_mems :: "string option"

record throttle_device =
  thr_major :: int
  thr_minor :: int
  thr_rate :: u64

record block_io =
  bio_weight :: "u16 option"
  bio_read_bps :: "throttle_device list option"
  bio_write_bps :: "throttle_device list option"
  bio_read_iops :: "throttle_device list option"
  bio_write_iops :: "throttle_device list option"

record resources =
  res_memory :: "memory_res option"
  res_cpu :: "cpu_res option"
  res_pids :: "int option"
  res_block_io :: "block_io option"
  res_unified :: "(string \<times> string) list option"

subsection \<open>Seccomp\<close>

datatype seccomp_action =
  ScmpActKill | ScmpActKillThread | ScmpActKillProcess | ScmpActTrap | ScmpActErrno
| ScmpActTrace | ScmpActAllow | ScmpActLog | ScmpActNotify

datatype seccomp_operator =
  ScmpCmpNe | ScmpCmpLt | ScmpCmpLe | ScmpCmpEq | ScmpCmpGe | ScmpCmpGt | ScmpCmpMaskedEq

datatype seccomp_flag = Flag_Log | Flag_Tsync | Flag_SpecAllow | Flag_WaitKillableRecv

datatype arch =
  ArchNative | ArchX86 | ArchX86_64 | ArchX32 | ArchArm | ArchAarch64 | ArchMips | ArchMips64
| ArchMips64n32 | ArchMipsel | ArchMipsel64 | ArchMipsel64n32 | ArchPpc | ArchPpc64 | ArchPpc64le
| ArchS390 | ArchS390x | ArchParisc | ArchParisc64 | ArchRiscv64 | ArchOther string

record seccomp_arg =
  arg_index :: u64
  arg_value :: u64
  arg_value_two :: "u64 option"
  arg_op :: seccomp_operator

record seccomp_syscall =
  sys_names :: "string list"
  sys_action :: seccomp_action
  sys_errno :: "u32 option"
  sys_args :: "seccomp_arg list option"

record linux_seccomp =
  sec_default :: seccomp_action
  sec_default_errno :: "u32 option"
  sec_archs :: "arch list option"
  sec_flags :: "seccomp_flag list option"
  sec_syscalls :: "seccomp_syscall list option"

subsection \<open>The specification\<close>

record root_spec =
  root_path :: path
  root_readonly :: "bool option"

record linux_spec =
  lin_namespaces :: "linux_namespace list option"
  lin_devices :: "linux_device list option"
  lin_resources :: "resources option"
  lin_cgroups_path :: "path option"
  lin_masked_paths :: "string list option"
  lin_readonly_paths :: "string list option"
  lin_seccomp :: "linux_seccomp option"
  lin_uid_mappings :: "id_mapping list option"
  lin_gid_mappings :: "id_mapping list option"
  lin_time_offsets :: "(string \<times> time_offset) list option"
  lin_sysctl :: "(string \<times> string) list option"
  lin_propagation :: "string option"

text \<open>Of the foreign platform sections only their presence is read.\<close>

record spec =
  spec_version :: string
  spec_root :: "root_spec option"
  spec_mounts :: "mount_spec list option"
  spec_process :: "process_spec option"
  spec_hostname :: "string option"
  spec_domainname :: "string option"
  spec_hooks :: "hooks option"
  spec_annotations :: "(string \<times> string) list option"
  spec_linux :: "linux_spec option"
  spec_solaris :: bool
  spec_windows :: bool
  spec_vm :: bool
  spec_zos :: bool

end
