(* ===== verification/Runtime_Types.thy ===== *)
theory Runtime_Types
  imports Oci_Spec
begin

section \<open>The runtime's own data and its errors\<close>

text \<open>
  The data types of \<^verbatim>\<open>state.rs\<close>, \<^verbatim>\<open>sync.rs\<close>, \<^verbatim>\<open>telemetry.rs\<close> and \<^verbatim>\<open>error.rs\<close> that several components
  share, and the calls the runtime makes to the operating system. An error keeps what its message
  is built from as data instead of the formatted English text: the context of an \<^verbatim>\<open>Io\<close> or \<^verbatim>\<open>Nix\<close> error
  is the call that failed, and the text of an \<^verbatim>\<open>Invalid\<close> or \<^verbatim>\<open>Overlay\<close> error a constructor with its
  interpolated arguments.
\<close>

subsection \<open>State and messages\<close>

datatype status = Creating | Created | Running | Stopped | Paused

definition status_name :: "status \<Rightarrow> string" where
  "status_name s =
     (case s of Creating \<Rightarrow> ''creating'' | Created \<Rightarrow> ''created'' | Running \<Rightarrow> ''running''
      | Stopped \<Rightarrow> ''stopped'' | Paused \<Rightarrow> ''paused'')"

type_synonym pid = int

type_synonym annotations = "(string \<times> string) list"

record persisted =
  per_oci_version :: string
  per_id :: string
  per_pid :: pid
  per_start_time :: u64
  per_bundle :: path
  per_rootfs :: path
  per_cgroup :: path
  per_created :: string
  per_rootless :: bool
  per_annotations :: annotations

record oci_state =
  oci_version :: string
  oci_id :: string
  oci_status :: status
  oci_pid :: "pid option"
  oci_bundle :: path
  oci_annotations :: "annotations option"

record phase =
  ph_name :: string
  ph_start :: u64
  ph_end :: u64

record recorder =
  rec_phases :: "phase list"
  rec_open :: "(string \<times> u64) option"
  rec_wall_origin :: "128 word"

datatype message =
  RequestUserMapping
| UserMappingDone
| InitPid pid "phase list"
| CgroupApplied pid
| InitReady "phase list"
| Failed string

text \<open>The event that \<^verbatim>\<open>commands/events.rs\<close> prints.\<close>

record stats =
  sta_usage :: u64
  sta_peak :: u64
  sta_limit_events :: u64
  sta_oom_kill :: u64
  sta_usage_usec :: u64
  sta_nr_periods :: u64
  sta_nr_throttled :: u64
  sta_throttled_usec :: u64
  sta_pids :: u64

record stat_event =
  evt_kind :: string
  evt_id :: string
  evt_data :: "stats option"

subsection \<open>Calls to the operating system\<close>

datatype errno = EPERM | ENOENT | ECHILD | EBUSY | EEXIST | EOVERFLOW | Errno nat

datatype file_kind = Kind_File | Kind_Dir | Kind_Link | Kind_Fifo | Kind_Other

type_synonym fd = int
type_synonym signal = int
type_synonym clone_flags = "32 word"
type_synonym ms_flags = "64 word"

datatype node_kind = Node_Chr | Node_Blk | Node_Fifo

datatype fs_call =
  Stat path | Lstat path | Device_Of path | Statfs path
| Read_File path | Write_File path string | Create_File path
| Create_Dir path | Create_Dir_All path
| Remove_File path | Remove_Dir path | Remove_Dir_All path
| Rename path path | Read_Dir path | Canonicalize path | Read_Link path
| Symlink path path | Set_Mode path u32

datatype mount_call =
  Mount "path option" path "string option" ms_flags "string option"
| Umount_Detach path
| Pivot_Root path path
| Mknod path node_kind u32 u64 u64
| Chown path "u32 option" "u32 option"

datatype fd_call =
  Open_Path path | Open_Read path | Open_Write path | Open_Dir path
| Fd_Read fd nat | Fd_Write fd string | Fchdir fd | Mkfifo path u32
| Socket_Stream | Connect fd path | Openpty | Ptsname fd | Send_Fd fd fd string
| Setsid | Claim_Tty fd | Dup_Onto fd nat | Open_Create path | Open_Append path | Unix_Addr path

datatype proc_call =
  Fork | Waitpid pid | Waitpid_Any | Kill pid signal
| Execve path "string list" "string list" | Chdir path
| Unshare clone_flags | Setns fd clone_flags | Sleep_Ms nat
| Sig_Block "signal list" | Sig_Setmask "signal list" | Sig_Wait "signal list"
| Geteuid | Child_Subreaper
| Spawn path "string list" "(string \<times> string) list"
| Child_Stdin string | Child_Wait | Child_Try_Wait | Child_Kill | Run_Command path "string list"

datatype cred_call =
  Setuid u32 | Setgid u32 | Setgroups "u32 list" | Setresuid u32 | Setresgid u32
| Keep_Caps bool | No_New_Privs
| Cap_Read_Bounding | Cap_Read_Effective | Cap_Drop_Bounding capability
| Cap_Set_Effective "capability list" | Cap_Set_Permitted "capability list"
| Cap_Set_Inheritable "capability list"
| Cap_Clear_Ambient | Cap_Raise_Ambient capability
| Setrlimit rlimit_type u64 u64 | Umask u32 | Sethostname string | Setdomainname string

text \<open>The vocabulary of \<^verbatim>\<open>libseccomp\<close>, whose calls build and load the system-call filter.\<close>

datatype scmp_action =
  Scmp_KillThread | Scmp_KillProcess | Scmp_Trap | Scmp_Errno int | Scmp_Trace u16 | Scmp_Allow | Scmp_Log

datatype scmp_arch =
  Scmp_Native | Scmp_X86 | Scmp_X8664 | Scmp_X32 | Scmp_Arm | Scmp_Aarch64 | Scmp_Mips | Scmp_Mips64
| Scmp_Mips64N32 | Scmp_Mipsel | Scmp_Mipsel64 | Scmp_Mipsel64N32 | Scmp_Ppc | Scmp_Ppc64 | Scmp_Ppc64Le
| Scmp_S390 | Scmp_S390X | Scmp_Parisc | Scmp_Parisc64 | Scmp_Riscv64

datatype scmp_op =
  NotEqual | Less | LessOrEqual | Equal | GreaterEqual | Greater | MaskedEqual u64

record scmp_compare =
  cmp_arg :: u32
  cmp_op :: scmp_op
  cmp_datum :: u64

datatype scmp_attr = CtlNnp | CtlLog | CtlTsync | CtlSsb | CtlWaitkill

datatype seccomp_call =
  Scmp_New scmp_action | Scmp_Add_Arch scmp_arch | Scmp_Set_Attr scmp_attr nat
| Scmp_Add_Rule scmp_action int "scmp_compare list" | Scmp_Load

datatype sync_call = Socketpair | Sock_Send string | Sock_Recv nat

datatype misc_call =
  Monotonic_Us | Wall_Clock_Ns | Print string | Env_Var string | Gethostname | Random_Hex nat
| Tcp_Connect string | Tcp_Send string | Tcp_Read_All | Read_Stdin

datatype call =
  Fs fs_call | Mnt mount_call | Fd fd_call | Proc proc_call | Cred cred_call
| Sync_Call sync_call | Scmp seccomp_call | Misc misc_call

subsection \<open>Errors\<close>

text \<open>\<open>Call_Failed\<close> stands for the \<^verbatim>\<open>Invalid\<close> errors whose text is a failed call with its cause (of the \<^verbatim>\<open>caps\<close> and
  \<^verbatim>\<open>libseccomp\<close> crates, \<^verbatim>\<open>prctl\<close>, \<^verbatim>\<open>ioctl\<close>). The last constructor of \<open>error\<close> is not the source's: it is the result of a loop of the model that used
  up its fuel, where the source would go on.\<close>

text \<open>The reasons an \<^verbatim>\<open>Error::Invalid\<close> is built with, one constructor per \<^verbatim>\<open>format!\<close> of the source.\<close>

datatype config_reason =
  Root_Path_Empty
| Hostname_Without_Uts
| Domainname_Without_Uts
| Bad_Propagation string
| Path_Not_Absolute string path
| Bad_Version string
| Unsupported_Major string nat
| Duplicate_Namespace ns_type
| Empty_Program
| Cwd_Not_Absolute path
| Spec_Env_Not_Key_Value string
| Duplicate_Rlimit rlimit_type
| Soft_Above_Hard rlimit_type u64 u64
| Destination_Not_Absolute path
| Namespace_Path_Missing ns_type path

datatype runtime_reason =
  No_Console_Socket
| Console_Without_Terminal
| Already_Started path
| Cannot_Parse path
| Freeze_Timeout path bool
| Host_Lacks_Device path path
| Empty_Sysctl_Key
| Sysctl_Escapes string
| Needs_Both_Maps
| Helper_Missing string
| Helper_Failed path
| Hook_Stdin_Missing
| Hook_Timed_Out int
| Hook_Exited
| Unknown_Capability string
| Effective_Not_Permitted
| Ambient_Not_Allowed string
| Unknown_Architecture arch
| Arg_Index_Range u64
| Call_Failed call errno

datatype command_reason =
  Exec_No_Console_Socket
| Exec_Console_Without_Terminal
| Too_Many_Threads int
| Env_Not_Key_Value string
| Bad_User string
| Bad_Signal_Number int
| Unknown_Signal string
| No_Limits
| Bad_Interval string
| Zero_Interval
| Unknown_Ps_Format string
| Ps_Exited
| No_Endpoint_Host string
| Collector_Answered string

datatype reason = Config config_reason | Runtime runtime_reason | Command command_reason

datatype overlay_reason =
  Needs_Mount_Namespace
| Mountpoint_Not_Empty path
| Lowerdir_Not_Set
| Lowerdir_Lists_Nothing
| Comma_In_Path string
| Lower_Not_Dir path
| Too_Few_Lower nat
| Upper_Without_Work
| Work_Without_Upper
| Different_Devices path int path int
| Work_Inside_Upper path path
| Upper_Inside_Work path path
| Lower_Overlaps_Upper path path
| Option_Too_Long nat "path option"

datatype hook_phase =
  Prestart | CreateRuntime | CreateContainer | StartContainer | Poststart | Poststop

text \<open>\<open>AlreadyExists\<close> carries whether its text has the note that the container is stopped but not
  deleted; \<open>Hook_Failed\<close> is the \<^verbatim>\<open>Invalid\<close> error that wraps the failure of one hook. The last two are
  the model's own: a panic, which ends the process, and a loop cut short.\<close>

datatype error =
  NotFound string
| AlreadyExists string bool
| InvalidId string
| BadState string string string
| MissingConfig path
| SpecField string
| Invalid reason
| Hook_Failed hook_phase nat path error
| Overlay overlay_reason
| RootfsMissing path
| ExecutableNotFound string
| NulByte string
| InitFailed string
| Sync_Expected string message
| Sync_Byte nat
| SyncClosed
| OutOfScope string
| Unimplemented string
| NoCgroupV2
| Io call errno
| Nix call errno
| Json
| Syscall errno
| Spec_Builder
| Panicked
| Out_Of_Fuel

end
