(* ===== verification/Effects.thy ===== *)
theory Effects
  imports Runtime_Types
begin

section \<open>Effectful programs\<close>

text \<open>
  The operating system is a parameter: for each type of reply one function from the call and the
  world to the reply and the next world. A program of the runtime is a function on the process
  state: the world, the calls made so far and the process's telemetry recorder (the \<^verbatim>\<open>&mut Recorder\<close>
  the source passes along). It returns the \<^verbatim>\<open>Result\<close> of the Rust function. Theorems about every
  program run hold for every behaviour of the system, every failure of a call included.
\<close>

datatype wait_status = Exited pid int | Signaled pid signal | Still_Alive | Other_Status

record 'w os =
  os_unit :: "call \<Rightarrow> 'w \<Rightarrow> (errno + unit) \<times> 'w"
  os_kind :: "call \<Rightarrow> 'w \<Rightarrow> (errno + file_kind) \<times> 'w"
  os_text :: "call \<Rightarrow> 'w \<Rightarrow> (errno + string) \<times> 'w"
  os_num :: "call \<Rightarrow> 'w \<Rightarrow> (errno + int) \<times> 'w"
  os_names :: "call \<Rightarrow> 'w \<Rightarrow> (errno + (errno + string option) list) \<times> 'w"
  os_wait :: "call \<Rightarrow> 'w \<Rightarrow> (errno + wait_status) \<times> 'w"
  os_pair :: "call \<Rightarrow> 'w \<Rightarrow> (errno + fd \<times> fd) \<times> 'w"
  os_caps :: "call \<Rightarrow> 'w \<Rightarrow> (errno + capability list) \<times> 'w"

text \<open>An event is a call with the error it gave, if any.\<close>

type_synonym event = "call \<times> errno option"

record 'w st =
  st_world :: 'w
  st_trace :: "event list"
  st_clock :: recorder

type_synonym ('w, 'a) io = "'w st \<Rightarrow> (error + 'a) \<times> 'w st"

subsection \<open>Combinators\<close>

definition ret :: "'a \<Rightarrow> ('w, 'a) io" where
  "ret x s = (Inr x, s)"

definition throw :: "error \<Rightarrow> ('w, 'a) io" where
  "throw e s = (Inl e, s)"

text \<open>Sequencing with \<^verbatim>\<open>?\<close>: an error ends the function.\<close>

definition bind :: "('w, 'a) io \<Rightarrow> ('a \<Rightarrow> ('w, 'b) io) \<Rightarrow> ('w, 'b) io" where
  "bind m f s = (case m s of (Inl e, s') \<Rightarrow> (Inl e, s') | (Inr x, s') \<Rightarrow> f x s')"

abbreviation andthen :: "('w, 'a) io \<Rightarrow> ('w, 'b) io \<Rightarrow> ('w, 'b) io" where
  "andthen m n \<equiv> bind m (\<lambda>_. n)"

definition lift :: "error + 'a \<Rightarrow> ('w, 'a) io" where
  "lift r s = (r, s)"

text \<open>The \<^verbatim>\<open>Result\<close> itself as a value: for \<^verbatim>\<open>match\<close>, \<^verbatim>\<open>.ok()\<close> and \<^verbatim>\<open>unwrap_or\<close> on it.\<close>

definition attempt :: "('w, 'a) io \<Rightarrow> ('w, error + 'a) io" where
  "attempt m s = (case m s of (r, s') \<Rightarrow> (Inr r, s'))"

text \<open>\<^verbatim>\<open>let _ = m;\<close>\<close>

definition ignore :: "('w, 'a) io \<Rightarrow> ('w, unit) io" where
  "ignore m = bind (attempt m) (\<lambda>_. ret ())"

definition do_when :: "bool \<Rightarrow> ('w, unit) io \<Rightarrow> ('w, unit) io" where
  "do_when b m = (if b then m else ret ())"

fun for_each :: "('a \<Rightarrow> ('w, unit) io) \<Rightarrow> 'a list \<Rightarrow> ('w, unit) io" where
  "for_each f [] = ret ()"
| "for_each f (x # xs) = bind (f x) (\<lambda>_. for_each f xs)"

definition gets_clock :: "(recorder \<Rightarrow> 'a) \<Rightarrow> ('w, 'a) io" where
  "gets_clock f s = (Inr (f (st_clock s)), s)"

definition set_clock :: "(recorder \<Rightarrow> recorder) \<Rightarrow> ('w, unit) io" where
  "set_clock f s = (Inr (), s\<lparr>st_clock := f (st_clock s)\<rparr>)"

text \<open>One call: the reply as it comes, and as a \<^verbatim>\<open>Result\<close> with its error wrapped by \<open>wrap\<close>
  (\<open>Io\<close> and \<open>Nix\<close> for \<^verbatim>\<open>.ctx(...)\<close>, \<open>Syscall\<close> for a bare \<^verbatim>\<open>?\<close>).\<close>

fun error_of :: "'e + 'a \<Rightarrow> 'e option" where
  "error_of (Inl e) = Some e"
| "error_of (Inr x) = None"

definition perform :: "(call \<Rightarrow> 'w \<Rightarrow> (errno + 'a) \<times> 'w) \<Rightarrow> call \<Rightarrow> ('w, errno + 'a) io" where
  "perform f c s =
     (case f c (st_world s) of
        (r, w) \<Rightarrow> (Inr r, s\<lparr>st_world := w, st_trace := st_trace s @ [(c, error_of r)]\<rparr>))"

definition checked :: "(call \<Rightarrow> errno \<Rightarrow> error) \<Rightarrow> (call \<Rightarrow> 'w \<Rightarrow> (errno + 'a) \<times> 'w) \<Rightarrow> call \<Rightarrow> ('w, 'a) io" where
  "checked wrap f c =
     bind (perform f c) (\<lambda>r. case r of Inl e \<Rightarrow> throw (wrap c e) | Inr x \<Rightarrow> ret x)"

abbreviation io_unit where "io_unit os f \<equiv> checked Io (os_unit os) (Fs f)"
abbreviation io_text where "io_text os f \<equiv> checked Io (os_text os) (Fs f)"
abbreviation nix_mount where "nix_mount os m \<equiv> checked Nix (os_unit os) (Mnt m)"
abbreviation raw_syscall where "raw_syscall c e \<equiv> Syscall e"

subsection \<open>File system queries of std::path\<close>

text \<open>\<^verbatim>\<open>is_file\<close>, \<^verbatim>\<open>is_dir\<close> and \<^verbatim>\<open>exists\<close> follow links (stat) and are false on any error.\<close>

definition is_file :: "'w os \<Rightarrow> path \<Rightarrow> ('w, bool) io" where
  "is_file os p = bind (perform (os_kind os) (Fs (Stat p))) (\<lambda>r. ret (r = Inr Kind_File))"

definition is_dir :: "'w os \<Rightarrow> path \<Rightarrow> ('w, bool) io" where
  "is_dir os p = bind (perform (os_kind os) (Fs (Stat p))) (\<lambda>r. ret (r = Inr Kind_Dir))"

definition path_exists :: "'w os \<Rightarrow> path \<Rightarrow> ('w, bool) io" where
  "path_exists os p = bind (perform (os_kind os) (Fs (Stat p))) (\<lambda>r. ret (ok r \<noteq> None))"

text \<open>\<^verbatim>\<open>symlink_metadata().is_ok()\<close>.\<close>

definition lexists :: "'w os \<Rightarrow> path \<Rightarrow> ('w, bool) io" where
  "lexists os p = bind (perform (os_kind os) (Fs (Lstat p))) (\<lambda>r. ret (ok r \<noteq> None))"

lemmas io_defs [io_simps] =
  ret_def throw_def bind_def lift_def attempt_def ignore_def do_when_def
  gets_clock_def set_clock_def perform_def checked_def
  is_file_def is_dir_def path_exists_def lexists_def

lemma bind_ret [simp]: "bind (ret x) f = f x"
  by (rule ext) (simp add: bind_def ret_def)

lemma bind_throw [simp]: "bind (throw e) f = throw e"
  by (rule ext) (simp add: bind_def throw_def)

lemma bind_assoc: "bind (bind m f) g = bind m (\<lambda>x. bind (f x) g)"
  by (rule ext) (auto simp: bind_def split: prod.splits sum.splits)

lemma bind_ret_right [simp]: "bind m ret = m"
  by (rule ext) (auto simp: bind_def ret_def split: prod.splits sum.splits)

lemma bind_unit [simp]: "bind m (\<lambda>_. ret ()) = (m :: ('w, unit) io)"
  by (rule ext) (auto simp: bind_def ret_def split: prod.splits sum.splits)

lemma for_each_append: "for_each f (xs @ ys) = bind (for_each f xs) (\<lambda>_. for_each f ys)"
  by (induction xs) (simp_all add: bind_assoc)

lemma for_each_map: "for_each f (map g xs) = for_each (f \<circ> g) xs"
  by (induction xs) simp_all

lemma lift_simps [simp]: "lift (Inr x) = ret x" "lift (Inl e) = throw e"
  by (rule ext, simp add: lift_def ret_def throw_def)+

lemma checked_run:
  assumes "checked wrap f c s = (r, s')"
  obtains q w where "f c (st_world s) = (q, w)" "st_world s' = w"
    "r = (case q of Inl e \<Rightarrow> Inl (wrap c e) | Inr x \<Rightarrow> Inr x)"
  using assms
  by (cases "f c (st_world s)")
     (auto simp: checked_def bind_def perform_def ret_def throw_def split: sum.splits)

lemma bind_Inr: "bind m f s = (Inr y, s') \<longleftrightarrow> (\<exists>x s1. m s = (Inr x, s1) \<and> f x s1 = (Inr y, s'))"
  by (auto simp: bind_def split: prod.splits sum.splits)

lemma ret_Inr: "ret x s = (Inr y, s') \<longleftrightarrow> y = x \<and> s' = s"
  by (auto simp: ret_def)

lemma checked_event:
  assumes "checked wrap f c s = (r, s')"
  obtains e where "st_trace s' = st_trace s @ [(c, e)]"
    "(e = None) = (\<exists>x. r = Inr x)" "e \<noteq> None \<Longrightarrow> r = Inl (wrap c (the e))"
  using assms
  by (cases "f c (st_world s)")
     (auto simp: checked_def bind_def perform_def ret_def throw_def split: sum.splits)

lemma bind_run:
  "bind m f s = (r, s') \<longleftrightarrow>
     (\<exists>e. m s = (Inl e, s') \<and> r = Inl e) \<or> (\<exists>x s1. m s = (Inr x, s1) \<and> f x s1 = (r, s'))"
  by (auto simp: bind_def split: prod.splits sum.splits)

lemma throw_run: "throw e s = (r, s') \<longleftrightarrow> r = Inl e \<and> s' = s"
  by (auto simp: throw_def)

lemma ret_run: "ret x s = (r, s') \<longleftrightarrow> r = Inr x \<and> s' = s"
  by (auto simp: ret_def)

lemma attempt_run: "attempt m s = (r, s') \<longleftrightarrow> (\<exists>q. m s = (q, s') \<and> r = Inr q)"
  by (auto simp: attempt_def split: prod.splits)

lemma lift_run: "lift q s = (r, s') \<longleftrightarrow> r = q \<and> s' = s"
  by (auto simp: lift_def)

subsection \<open>What a run adds to the trace\<close>

text \<open>\<open>emits m R\<close>: every run of \<open>m\<close>, from any state and under any system, appends to the trace a
  list of events that \<open>R\<close> relates to the result.\<close>

definition emits :: "('w, 'a) io \<Rightarrow> (error + 'a \<Rightarrow> event list \<Rightarrow> bool) \<Rightarrow> bool" where
  "emits m R \<longleftrightarrow> (\<forall>s r s'. m s = (r, s') \<longrightarrow> (\<exists>tr. st_trace s' = st_trace s @ tr \<and> R r tr))"

lemma emitsD: "emits m R \<Longrightarrow> m s = (r, s') \<Longrightarrow> \<exists>tr. st_trace s' = st_trace s @ tr \<and> R r tr"
  by (auto simp: emits_def)

lemma emits_weaken: "emits m R \<Longrightarrow> (\<And>r tr. R r tr \<Longrightarrow> S r tr) \<Longrightarrow> emits m S"
  by (fastforce simp: emits_def)

lemma emits_ret: "R (Inr x) [] \<Longrightarrow> emits (ret x) R"
  by (simp add: emits_def ret_def)

lemma emits_throw: "R (Inl e) [] \<Longrightarrow> emits (throw e) R"
  by (simp add: emits_def throw_def)

lemma emits_lift: "R r [] \<Longrightarrow> emits (lift r) R"
  by (simp add: emits_def lift_def)

lemma emits_bind:
  assumes "emits m R" and "\<And>x. emits (f x) (S x)"
    and "\<And>e tr. R (Inl e) tr \<Longrightarrow> T (Inl e) tr"
    and "\<And>x r t1 t2. R (Inr x) t1 \<Longrightarrow> S x r t2 \<Longrightarrow> T r (t1 @ t2)"
  shows "emits (bind m f) T"
  unfolding emits_def
proof (intro allI impI)
  fix s r s'
  assume run: "bind m f s = (r, s')"
  obtain r1 s1 where m: "m s = (r1, s1)" by fastforce
  obtain t1 where t1: "st_trace s1 = st_trace s @ t1" "R r1 t1"
    using emitsD [OF assms(1) m] by blast
  show "\<exists>tr. st_trace s' = st_trace s @ tr \<and> T r tr"
  proof (cases r1)
    case (Inl e)
    with run m t1 assms(3) show ?thesis by (auto simp: bind_def)
  next
    case (Inr x)
    with run m have "f x s1 = (r, s')" by (simp add: bind_def)
    from emitsD [OF assms(2) this] obtain t2
      where "st_trace s' = st_trace s1 @ t2" "S x r t2" by blast
    with t1 Inr assms(4) show ?thesis by auto
  qed
qed

lemma emits_perform: "(\<And>r. R (Inr r) [(c, error_of r)]) \<Longrightarrow> emits (perform f c) R"
  by (auto simp: emits_def perform_def split: prod.splits)

lemma emits_checked:
  assumes "\<And>x. R (Inr x) [(c, None)]" "\<And>e. R (Inl (wrap c e)) [(c, Some e)]"
  shows "emits (checked wrap f c) R"
  using assms
  by (auto simp: emits_def checked_def bind_def perform_def throw_def ret_def split: prod.splits sum.splits)

lemma emits_attempt: "emits m (\<lambda>r tr. R (Inr r) tr) \<Longrightarrow> emits (attempt m) R"
  by (auto simp: emits_def attempt_def split: prod.splits)

lemma emits_clock: "(\<And>r. R (Inr r) []) \<Longrightarrow> emits (gets_clock f) R"
  by (simp add: emits_def gets_clock_def)

lemma emits_set_clock: "R (Inr ()) [] \<Longrightarrow> emits (set_clock g) R"
  by (simp add: emits_def set_clock_def)

lemma emits_trace: "emits m R \<Longrightarrow> \<exists>tr. st_trace (snd (m s)) = st_trace s @ tr \<and> R (fst (m s)) tr"
  by (cases "m s") (auto dest: emitsD)

subsection \<open>Frames: every call of a program satisfies a predicate\<close>

definition only :: "(call \<Rightarrow> bool) \<Rightarrow> ('w, 'a) io \<Rightarrow> bool" where
  "only P m \<longleftrightarrow> emits m (\<lambda>r tr. list_all (\<lambda>ev. P (fst ev)) tr)"

lemma only_weaken: "only P m \<Longrightarrow> (\<And>c. P c \<Longrightarrow> Q c) \<Longrightarrow> only Q m"
  unfolding only_def by (erule emits_weaken) (auto simp: list_all_iff)

lemma only_ret [hoare]: "only P (ret x)" and only_throw [hoare]: "only P (throw e)"
  and only_lift [hoare]: "only P (lift r)"
  by (auto simp: only_def intro: emits_ret emits_throw emits_lift)

lemma only_clock [hoare]: "only P (gets_clock f)" and only_set_clock [hoare]: "only P (set_clock g)"
  by (auto simp: only_def intro: emits_clock emits_set_clock)

lemma only_bind [hoare]: "only P m \<Longrightarrow> (\<And>x. only P (f x)) \<Longrightarrow> only P (bind m f)"
  unfolding only_def by (erule emits_bind, assumption) auto

lemma only_perform [hoare]: "P c \<Longrightarrow> only P (perform f c)"
  by (simp add: only_def emits_perform)

lemma only_checked [hoare]: "P c \<Longrightarrow> only P (checked wrap f c)"
  unfolding checked_def by (intro only_bind only_perform) (auto intro: hoare split: sum.split)

lemma only_attempt [hoare]: "only P m \<Longrightarrow> only P (attempt m)"
  by (simp add: only_def emits_attempt)

lemma only_ignore [hoare]: "only P m \<Longrightarrow> only P (ignore m)"
  unfolding ignore_def by (intro only_bind only_attempt only_ret)

lemma only_do_when [hoare]: "(b \<Longrightarrow> only P m) \<Longrightarrow> only P (do_when b m)"
  by (simp add: do_when_def only_ret)

lemma only_for_each [hoare]: "(\<And>x. x \<in> set xs \<Longrightarrow> only P (f x)) \<Longrightarrow> only P (for_each f xs)"
  by (induction xs) (auto intro: only_bind only_ret)

lemma only_if [hoare]: "(b \<Longrightarrow> only P m) \<Longrightarrow> (\<not> b \<Longrightarrow> only P n) \<Longrightarrow> only P (if b then m else n)"
  by simp

lemma only_option [hoare]:
  "(x = None \<Longrightarrow> only P m) \<Longrightarrow> (\<And>y. x = Some y \<Longrightarrow> only P (f y)) \<Longrightarrow>
   only P (case x of None \<Rightarrow> m | Some y \<Rightarrow> f y)"
  by (cases x) auto

lemma only_sum [hoare]:
  "(\<And>e. x = Inl e \<Longrightarrow> only P (f e)) \<Longrightarrow> (\<And>y. x = Inr y \<Longrightarrow> only P (g y)) \<Longrightarrow>
   only P (case x of Inl e \<Rightarrow> f e | Inr y \<Rightarrow> g y)"
  by (cases x) auto

lemma only_stat [hoare]:
  "P (Fs (Stat p)) \<Longrightarrow> only P (is_file os p)"
  "P (Fs (Stat p)) \<Longrightarrow> only P (is_dir os p)"
  "P (Fs (Stat p)) \<Longrightarrow> only P (path_exists os p)"
  "P (Fs (Lstat p)) \<Longrightarrow> only P (lexists os p)"
  unfolding is_file_def is_dir_def path_exists_def lexists_def
  by (intro only_bind only_perform only_ret; simp)+

lemma onlyD: "only P m \<Longrightarrow> m s = (r, s') \<Longrightarrow> \<exists>tr. st_trace s' = st_trace s @ tr \<and> list_all (\<lambda>ev. P (fst ev)) tr"
  unfolding only_def by (rule emitsD)

lemma only_trace: "only P m \<Longrightarrow> \<exists>tr. st_trace (snd (m s)) = st_trace s @ tr \<and> list_all (\<lambda>ev. P (fst ev)) tr"
  unfolding only_def by (rule emits_trace)

text \<open>The paths a call may change: what the containment theorems of the components bound.\<close>

fun fs_touched :: "fs_call \<Rightarrow> path list" where
  "fs_touched (Write_File p v) = [p]"
| "fs_touched (Create_File p) = [p]"
| "fs_touched (Create_Dir p) = [p]"
| "fs_touched (Create_Dir_All p) = [p]"
| "fs_touched (Remove_File p) = [p]"
| "fs_touched (Remove_Dir p) = [p]"
| "fs_touched (Remove_Dir_All p) = [p]"
| "fs_touched (Rename p q) = [p, q]"
| "fs_touched (Symlink t l) = [l]"
| "fs_touched (Set_Mode p m) = [p]"
| "fs_touched _ = []"

fun mount_touched :: "mount_call \<Rightarrow> path list" where
  "mount_touched (Mount src target typ flags opts) = [target]"
| "mount_touched (Umount_Detach p) = [p]"
| "mount_touched (Pivot_Root p q) = [p, q]"
| "mount_touched (Mknod p k m a b) = [p]"
| "mount_touched (Chown p u g) = [p]"

fun touched :: "call \<Rightarrow> path list" where
  "touched (Fs c) = fs_touched c"
| "touched (Mnt c) = mount_touched c"
| "touched (Fd (Mkfifo p m)) = [p]"
| "touched (Fd (Open_Write p)) = [p]"
| "touched (Fd (Open_Create p)) = [p]"
| "touched (Fd (Open_Append p)) = [p]"
| "touched _ = []"

definition below :: "path \<Rightarrow> call \<Rightarrow> bool" where
  "below base c \<longleftrightarrow> list_all (\<lambda>p. starts_with p base) (touched c)"

subsection \<open>Stages: the order of a program's calls\<close>

text \<open>
  A classification gives some calls a stage number. A list of calls is \<open>in_stages lo hi\<close> when the
  stages of its classified calls are sorted and lie between the bounds; a program is \<open>staged\<close> when
  every run, failed ones included, emits such a list. Programs in sequence need stages in sequence.
\<close>

definition in_stages :: "(call \<Rightarrow> nat option) \<Rightarrow> nat \<Rightarrow> nat \<Rightarrow> event list \<Rightarrow> bool" where
  "in_stages rk lo hi tr \<longleftrightarrow>
     (let ns = List.map_filter (rk \<circ> fst) tr in sorted ns \<and> list_all (\<lambda>n. lo \<le> n \<and> n \<le> hi) ns)"

definition staged :: "(call \<Rightarrow> nat option) \<Rightarrow> nat \<Rightarrow> nat \<Rightarrow> ('w, 'a) io \<Rightarrow> bool" where
  "staged rk lo hi m \<longleftrightarrow> emits m (\<lambda>r tr. in_stages rk lo hi tr)"

lemma in_stages_Nil [simp]: "in_stages rk lo hi []"
  by (simp add: in_stages_def List.map_filter_def)

lemma in_stages_single: "in_stages rk lo hi [(c, e)] \<longleftrightarrow> (\<forall>n. rk c = Some n \<longrightarrow> lo \<le> n \<and> n \<le> hi)"
  by (auto simp: in_stages_def List.map_filter_def)

lemma in_stages_append:
  "in_stages rk a b t1 \<Longrightarrow> in_stages rk b c t2 \<Longrightarrow> a \<le> b \<Longrightarrow> b \<le> c \<Longrightarrow> in_stages rk a c (t1 @ t2)"
  by (fastforce simp: in_stages_def List.map_filter_def sorted_append list_all_iff)

lemma in_stages_weaken:
  "in_stages rk lo hi tr \<Longrightarrow> lo' \<le> lo \<Longrightarrow> hi \<le> hi' \<Longrightarrow> in_stages rk lo' hi' tr"
  by (auto simp: in_stages_def Let_def list_all_iff intro: order_trans)

lemma in_stages_before:
  assumes "in_stages rk lo hi (t1 @ (c, e) # t2)" "rk c = Some n" "(d, e') \<in> set t2" "rk d = Some m"
  shows "n \<le> m"
  using assms
  by (force simp: in_stages_def List.map_filter_def sorted_append Let_def)

lemma staged_weaken: "staged rk lo hi m \<Longrightarrow> lo' \<le> lo \<Longrightarrow> hi \<le> hi' \<Longrightarrow> staged rk lo' hi' m"
  unfolding staged_def by (erule emits_weaken) (rule in_stages_weaken)

lemma staged_ret [staged_intros]: "staged rk lo hi (ret x)"
  and staged_throw [staged_intros]: "staged rk lo hi (throw e)"
  and staged_lift [staged_intros]: "staged rk lo hi (lift r)"
  and staged_clock [staged_intros]: "staged rk lo hi (gets_clock f)"
  and staged_set_clock [staged_intros]: "staged rk lo hi (set_clock g)"
  by (auto simp: staged_def intro: emits_ret emits_throw emits_lift emits_clock emits_set_clock)

lemma staged_bind:
  assumes "staged rk a b m" "\<And>x. staged rk b c (f x)" "a \<le> b" "b \<le> c"
  shows "staged rk a c (bind m f)"
  unfolding staged_def
proof (rule emits_bind)
  show "emits m (\<lambda>r. in_stages rk a b)" using assms(1) by (simp add: staged_def)
  show "emits (f x) (\<lambda>r. in_stages rk b c)" for x using assms(2) by (simp add: staged_def)
qed (use assms(3,4) in \<open>auto intro: in_stages_append in_stages_weaken\<close>)

lemma staged_perform: "(\<And>n. rk c = Some n \<Longrightarrow> lo \<le> n \<and> n \<le> hi) \<Longrightarrow> staged rk lo hi (perform f c)"
  unfolding staged_def by (rule emits_perform) (simp add: in_stages_single)

lemma staged_checked:
  "(\<And>n. rk c = Some n \<Longrightarrow> lo \<le> n \<and> n \<le> hi) \<Longrightarrow> lo \<le> hi \<Longrightarrow> staged rk lo hi (checked wrap f c)"
  unfolding checked_def
  by (rule staged_bind [where b = hi])
     (auto intro: staged_perform staged_intros split: sum.split)

lemma staged_attempt: "staged rk lo hi m \<Longrightarrow> staged rk lo hi (attempt m)"
  unfolding staged_def by (rule emits_attempt)

text \<open>Inside one stage the order is free, so the rules need no bounds in between.\<close>

lemma staged_of_only: "only (\<lambda>c. rk c = None) m \<Longrightarrow> staged rk lo hi m"
  unfolding only_def staged_def
  by (erule emits_weaken) (auto simp: in_stages_def List.map_filter_def list_all_iff Let_def filter_empty_conv)

lemma staged_of_only_stage: "only (\<lambda>c. rk c = None \<or> rk c = Some n) m \<Longrightarrow> staged rk n n m"
  unfolding only_def staged_def
proof (erule emits_weaken)
  fix tr :: "event list" assume all: "list_all (\<lambda>ev. rk (fst ev) = None \<or> rk (fst ev) = Some n) tr"
  then have "List.map_filter (rk \<circ> fst) tr = replicate (length (List.map_filter (rk \<circ> fst) tr)) n"
    by (induction tr) (auto simp: List.map_filter_def)
  then show "in_stages rk n n tr"
    unfolding in_stages_def Let_def
    by (metis (no_types, lifting) Ball_set in_set_replicate order_refl sorted_replicate)
qed

lemma staged_trace: "staged rk lo hi m \<Longrightarrow>
    \<exists>tr. st_trace (snd (m s)) = st_trace s @ tr \<and> in_stages rk lo hi tr"
  unfolding staged_def by (rule emits_trace)

subsection \<open>What a successful run has done\<close>

text \<open>\<open>does m ev\<close>: a run of \<open>m\<close> that gives \<open>Ok\<close> has the event \<open>ev\<close> in its trace. With \<open>staged\<close> this
  says that the steps of a successful run all happened, in the order of the stages.\<close>

definition does :: "('w, 'a) io \<Rightarrow> event \<Rightarrow> bool" where
  "does m ev \<longleftrightarrow> emits m (\<lambda>r tr. (\<exists>x. r = Inr x) \<longrightarrow> ev \<in> set tr)"

lemma emits_True: "emits m R \<Longrightarrow> emits m (\<lambda>r tr. True)"
  by (erule emits_weaken) simp

lemma does_bind1: "does m ev \<Longrightarrow> (\<And>x. only (\<lambda>c. True) (f x)) \<Longrightarrow> does (bind m f) ev"
  unfolding does_def only_def
  by (erule emits_bind, assumption) auto

lemma does_bind2: "only (\<lambda>c. True) m \<Longrightarrow> (\<And>x. does (f x) ev) \<Longrightarrow> does (bind m f) ev"
  unfolding does_def only_def
  by (erule emits_bind, assumption) auto

lemma does_checked: "does (checked wrap f c) (c, None)"
  unfolding does_def by (rule emits_checked) auto

lemma does_throw: "does (throw e) ev"
  unfolding does_def by (rule emits_throw) simp

lemma does_perform:
  assumes "\<And>x. only (\<lambda>c. True) (g x)" "\<And>e. does (f e) (c, None)"
  shows "does (bind (perform h c) (\<lambda>r. case r of Inl e \<Rightarrow> f e | Inr x \<Rightarrow> g x)) (c, None)"
  unfolding does_def
proof (rule emits_bind [where R = "\<lambda>r tr. \<exists>x. r = Inr x \<and> tr = [(c, error_of x)]"
      and S = "\<lambda>x r tr. (\<exists>y. r = Inr y) \<longrightarrow> (c, None) \<in> set tr \<or> error_of x = None"])
  show "emits (perform h c) (\<lambda>r tr. \<exists>x. r = Inr x \<and> tr = [(c, error_of x)])"
    by (rule emits_perform) simp
  show "emits (case x of Inl e \<Rightarrow> f e | Inr x \<Rightarrow> g x)
     (\<lambda>r tr. (\<exists>y. r = Inr y) \<longrightarrow> (c, None) \<in> set tr \<or> error_of x = None)" for x
    using assms unfolding does_def only_def
    by (cases x) (auto elim: emits_weaken intro: emits_weaken [OF assms(1) [unfolded only_def]])
qed auto

lemma does_trace: "does m ev \<Longrightarrow> m s = (Inr x, s') \<Longrightarrow>
    \<exists>tr. st_trace s' = st_trace s @ tr \<and> ev \<in> set tr"
  unfolding does_def by (drule (1) emitsD) blast

subsection \<open>Triples\<close>

text \<open>Partial specifications over the process state: from \<open>P\<close>, a successful run ends in \<open>Q\<close> with its
  value, a failed one in \<open>E\<close> with its error. Programs are total, so a triple speaks of every run.\<close>

definition triple :: "('w st \<Rightarrow> bool) \<Rightarrow> ('w, 'a) io \<Rightarrow> ('a \<Rightarrow> 'w st \<Rightarrow> bool) \<Rightarrow> (error \<Rightarrow> 'w st \<Rightarrow> bool) \<Rightarrow> bool" where
  "triple P m Q E \<longleftrightarrow>
     (\<forall>s. P s \<longrightarrow> (case m s of (Inr x, s') \<Rightarrow> Q x s' | (Inl e, s') \<Rightarrow> E e s'))"

lemma triple_ret: "(\<And>s. P s \<Longrightarrow> Q x s) \<Longrightarrow> triple P (ret x) Q E"
  by (simp add: triple_def ret_def)

lemma triple_throw: "(\<And>s. P s \<Longrightarrow> E e s) \<Longrightarrow> triple P (throw e) Q E"
  by (simp add: triple_def throw_def)

lemma triple_bind:
  assumes "triple P m R E" "\<And>x. triple (R x) (f x) Q E"
  shows "triple P (bind m f) Q E"
  using assms by (fastforce simp: triple_def bind_def split: prod.splits sum.splits)

lemma triple_weaken:
  "triple P m Q E \<Longrightarrow> (\<And>s. P' s \<Longrightarrow> P s) \<Longrightarrow> (\<And>x s. Q x s \<Longrightarrow> Q' x s) \<Longrightarrow>
   (\<And>e s. E e s \<Longrightarrow> E' e s) \<Longrightarrow> triple P' m Q' E'"
  by (fastforce simp: triple_def split: prod.splits sum.splits)

subsection \<open>A system for examples\<close>

text \<open>Every call succeeds, with the same reply to every call of one type.\<close>

definition fixed_os :: "file_kind \<Rightarrow> string \<Rightarrow> int \<Rightarrow> unit os" where
  "fixed_os k t n =
     \<lparr>os_unit = \<lambda>c w. (Inr (), w), os_kind = \<lambda>c w. (Inr k, w), os_text = \<lambda>c w. (Inr t, w),
      os_num = \<lambda>c w. (Inr n, w), os_names = \<lambda>c w. (Inr [], w), os_wait = \<lambda>c w. (Inr Still_Alive, w),
      os_pair = \<lambda>c w. (Inr (n, n + 1), w), os_caps = \<lambda>c w. (Inr [], w)\<rparr>"

definition start_state :: "unit st" where
  "start_state = \<lparr>st_world = (), st_trace = [], st_clock = \<lparr>rec_phases = [], rec_open = None, rec_wall_origin = 0\<rparr>\<rparr>"

lemma run_eq: "fst (m s) = r \<Longrightarrow> m s = (r, snd (m s))"
  by (cases "m s") simp

end
