(* ===== verification/Codec.thy ===== *)
theory Codec
  imports Effects
begin

section \<open>Serialisation, a parameter\<close>

text \<open>
  \<^verbatim>\<open>serde_json\<close>, the \<^verbatim>\<open>serde\<close> derives and the \<^verbatim>\<open>Display\<close> texts of errors are not part of the repository (or
  only format messages). They are functions the programs take as an argument: the encoders give None
  where \<^verbatim>\<open>to_string\<close> fails, the decoders where \<^verbatim>\<open>from_str\<close> does. What the code relies on, that a value it
  wrote reads back, is a hypothesis on the value at hand where a theorem needs it.
\<close>

text \<open>\<^verbatim>\<open>serde_json::Value\<close>, for the documents the source writes literally.\<close>

datatype json = J_Null | J_Bool bool | J_String string | J_List "json list" | J_Object "(string \<times> json) list"

record codec =
  enc_state :: "persisted \<Rightarrow> string option"
  dec_state :: "string \<Rightarrow> persisted option"
  enc_oci :: "oci_state \<Rightarrow> string option"
  enc_msg :: "message \<Rightarrow> string option"
  dec_msg :: "string \<Rightarrow> message option"
  dec_spec :: "string \<Rightarrow> spec option"
  dec_process :: "string \<Rightarrow> process_spec option"
  dec_resources :: "string \<Rightarrow> resources option"
  enc_states :: "oci_state list \<Rightarrow> string option"
  enc_pids :: "pid list \<Rightarrow> string option"
  enc_event :: "stat_event \<Rightarrow> string option"
  enc_spec :: "spec \<Rightarrow> string option"
  enc_json :: "json \<Rightarrow> string option"
  display :: "error \<Rightarrow> string"

definition json :: "'a option \<Rightarrow> ('w, 'a) io" where
  "json x = (case x of None \<Rightarrow> throw Json | Some v \<Rightarrow> ret v)"

lemma only_json [hoare]: "only P (json x)"
  by (simp add: json_def only_ret only_throw split: option.split)

lemma json_Inr: "json x s = (Inr v, s') \<longleftrightarrow> x = Some v \<and> s' = s"
  by (auto simp: json_def ret_def throw_def split: option.split)

end
