(* ===== verification/Host.thy ===== *)
theory Host
  imports Codec
begin

section \<open>What the runtime takes from outside\<close>

text \<open>
  The parameters of the whole runtime in one record: serialisation, the capabilities of the kernel (the
  \<^verbatim>\<open>caps\<close> crate), the system calls \<^verbatim>\<open>libseccomp\<close> knows, the signal table of \<^verbatim>\<open>nix\<close>, the default
  specification of \<^verbatim>\<open>oci_spec\<close>, and the fuel of the loops that wait.
\<close>

record host =
  h_codec :: codec
  h_caps :: "capability \<Rightarrow> bool"
  h_syscalls :: "string \<Rightarrow> int option"
  h_signals :: "(string \<times> signal) list"
  h_default_spec :: spec
  h_fuel :: nat

end
