(* ===== verification/Namespace.thy ===== *)
theory Namespace
  imports Effects
begin

section \<open>Namespaces (namespace.rs)\<close>

text \<open>
  \<^verbatim>\<open>layout\<close> splits the configured namespaces into clone flags for the new ones and an ordered list of
  those to join. Flags are 32-bit words, as the kernel sees them.
\<close>

unbundle bit_operations_syntax

definition CLONE_NEWTIME :: clone_flags where "CLONE_NEWTIME = 0x80"
definition CLONE_NEWNS :: clone_flags where "CLONE_NEWNS = 0x20000"
definition CLONE_NEWCGROUP :: clone_flags where "CLONE_NEWCGROUP = 0x2000000"
definition CLONE_NEWUTS :: clone_flags where "CLONE_NEWUTS = 0x4000000"
definition CLONE_NEWIPC :: clone_flags where "CLONE_NEWIPC = 0x8000000"
definition CLONE_NEWUSER :: clone_flags where "CLONE_NEWUSER = 0x10000000"
definition CLONE_NEWPID :: clone_flags where "CLONE_NEWPID = 0x20000000"
definition CLONE_NEWNET :: clone_flags where "CLONE_NEWNET = 0x40000000"

definition JOIN_ORDER :: "ns_type list" where
  "JOIN_ORDER = [Ns_User, Ns_Ipc, Ns_Uts, Ns_Network, Ns_Pid, Ns_Cgroup, Ns_Mount]"

record ns_layout =
  nsl_create :: clone_flags
  nsl_join :: "(ns_type \<times> path) list"

definition kind_flag :: "ns_type \<Rightarrow> clone_flags" where
  "kind_flag kind =
     (case kind of
        Ns_Mount \<Rightarrow> CLONE_NEWNS | Ns_Pid \<Rightarrow> CLONE_NEWPID | Ns_Network \<Rightarrow> CLONE_NEWNET
      | Ns_Ipc \<Rightarrow> CLONE_NEWIPC | Ns_Uts \<Rightarrow> CLONE_NEWUTS | Ns_User \<Rightarrow> CLONE_NEWUSER
      | Ns_Cgroup \<Rightarrow> CLONE_NEWCGROUP | Ns_Time \<Rightarrow> CLONE_NEWTIME)"

definition flag_for :: "ns_type \<Rightarrow> error + clone_flags" where
  "flag_for kind = Inr (kind_flag kind)"

text \<open>\<^verbatim>\<open>usize::MAX\<close> for a kind that is not in the order.\<close>

definition join_rank :: "ns_type \<Rightarrow> nat" where
  "join_rank kind = (case position (\<lambda>c. c = kind) JOIN_ORDER of Some i \<Rightarrow> i | None \<Rightarrow> 2 ^ 64 - 1)"

fun scan_namespaces :: "'w os \<Rightarrow> linux_namespace list \<Rightarrow> clone_flags \<Rightarrow> (ns_type \<times> path) list \<Rightarrow>
    ('w, ns_layout) io" where
  "scan_namespaces os [] create join =
     ret \<lparr>nsl_create = create, nsl_join = sort_key (\<lambda>(kind, _). join_rank kind) join\<rparr>"
| "scan_namespaces os (ns # nss) create join =
     bind (lift (flag_for (ns_typ ns))) (\<lambda>flag.
       case ns_path ns of
         Some path \<Rightarrow>
           if path \<noteq> [] then
             bind (path_exists os path) (\<lambda>there.
               if \<not> there then throw (Invalid (Config (Namespace_Path_Missing (ns_typ ns) path)))
               else scan_namespaces os nss create (join @ [(ns_typ ns, path)]))
           else scan_namespaces os nss (create OR flag) join
       | None \<Rightarrow> scan_namespaces os nss (create OR flag) join)"

definition ns_layout_of :: "'w os \<Rightarrow> linux_namespace list \<Rightarrow> ('w, ns_layout) io" where
  "ns_layout_of os nss = scan_namespaces os nss 0 []"

definition clone_flags_of :: "'w os \<Rightarrow> linux_namespace list \<Rightarrow> ('w, clone_flags) io" where
  "clone_flags_of os nss = bind (ns_layout_of os nss) (\<lambda>l. ret (nsl_create l))"

definition without :: "clone_flags \<Rightarrow> clone_flags \<Rightarrow> clone_flags" where
  "without flags unwanted = flags AND NOT unwanted"

subsection \<open>The order of the kinds\<close>

instantiation ns_type :: linorder
begin

definition less_eq_ns_type :: "ns_type \<Rightarrow> ns_type \<Rightarrow> bool" where
  "less_eq_ns_type a b \<longleftrightarrow> join_rank a \<le> join_rank b"

definition less_ns_type :: "ns_type \<Rightarrow> ns_type \<Rightarrow> bool" where
  "less_ns_type a b \<longleftrightarrow> join_rank a < join_rank b"

instance
proof
  fix a b :: ns_type
  show "a \<le> b \<Longrightarrow> b \<le> a \<Longrightarrow> a = b"
    by (cases a; cases b) (simp_all add: less_eq_ns_type_def join_rank_def JOIN_ORDER_def)
qed (auto simp: less_eq_ns_type_def less_ns_type_def)

end

definition contains_kind :: "clone_flags \<Rightarrow> ns_type \<Rightarrow> bool" where
  "contains_kind flags kind \<longleftrightarrow> flags AND kind_flag kind = kind_flag kind"

lemmas kind_flag_defs = kind_flag_def CLONE_NEWTIME_def CLONE_NEWNS_def CLONE_NEWCGROUP_def
  CLONE_NEWUTS_def CLONE_NEWIPC_def CLONE_NEWUSER_def CLONE_NEWPID_def CLONE_NEWNET_def

definition kind_bit :: "ns_type \<Rightarrow> nat" where
  "kind_bit kind =
     (case kind of Ns_Time \<Rightarrow> 7 | Ns_Mount \<Rightarrow> 17 | Ns_Cgroup \<Rightarrow> 25 | Ns_Uts \<Rightarrow> 26 | Ns_Ipc \<Rightarrow> 27
      | Ns_User \<Rightarrow> 28 | Ns_Pid \<Rightarrow> 29 | Ns_Network \<Rightarrow> 30)"

lemma kind_flag_bit: "kind_flag k = push_bit (kind_bit k) 1"
  by (cases k) (simp_all add: kind_flag_defs kind_bit_def push_bit_eq_mult)

lemma kind_bit_inj: "kind_bit j = kind_bit k \<longleftrightarrow> j = k"
  by (cases j; cases k) (simp_all add: kind_bit_def)

lemma kind_bit_less: "kind_bit k < 32"
  by (cases k) (simp_all add: kind_bit_def)

lemma bit_kind_flag: "bit (kind_flag k) n \<longleftrightarrow> n = kind_bit k"
  using kind_bit_less [of k]
  by (auto simp: kind_flag_bit bit_simps)

lemma contains_kind_bit: "contains_kind f k \<longleftrightarrow> bit f (kind_bit k)"
proof
  assume "contains_kind f k"
  then have "bit (f AND kind_flag k) (kind_bit k) = bit (kind_flag k) (kind_bit k)"
    by (simp only: contains_kind_def)
  then show "bit f (kind_bit k)" by (simp add: bit_and_iff bit_kind_flag)
next
  assume "bit f (kind_bit k)"
  then show "contains_kind f k"
    unfolding contains_kind_def by (intro bit_eqI) (auto simp: bit_and_iff bit_kind_flag)
qed

lemma contains_kind_simps [simp]:
  "\<not> contains_kind 0 k"
  "contains_kind (f OR g) k \<longleftrightarrow> contains_kind f k \<or> contains_kind g k"
  "contains_kind (kind_flag j) k \<longleftrightarrow> j = k"
  by (simp_all add: contains_kind_bit bit_or_iff bit_kind_flag kind_bit_inj eq_commute)

definition joined :: "linux_namespace \<Rightarrow> (ns_type \<times> path) option" where
  "joined ns = (case ns_path ns of Some p \<Rightarrow> if p \<noteq> [] then Some (ns_typ ns, p) else None | None \<Rightarrow> None)"

lemma scan_spec:
  "scan_namespaces os nss create join s = (Inr l, s') \<Longrightarrow>
   (\<forall>k. contains_kind (nsl_create l) k \<longleftrightarrow>
      contains_kind create k \<or> (\<exists>ns\<in>set nss. ns_typ ns = k \<and> joined ns = None))
   \<and> nsl_join l = sort_key (\<lambda>(kind, _). join_rank kind) (join @ List.map_filter joined nss)"
proof (induction nss arbitrary: create join s)
  case Nil
  then show ?case by (auto simp: ret_Inr List.map_filter_def)
next
  case (Cons ns nss)
  show ?case
  proof (cases "joined ns")
    case None
    then have "scan_namespaces os nss (create OR kind_flag (ns_typ ns)) join s = (Inr l, s')"
      using Cons.prems by (auto simp: joined_def flag_for_def split: option.splits if_splits)
    from Cons.IH [OF this] None show ?thesis
      by (auto simp: List.map_filter_def)
  next
    case (Some kp)
    then obtain p where p: "ns_path ns = Some p" "p \<noteq> []" "kp = (ns_typ ns, p)"
      by (auto simp: joined_def split: option.splits if_splits)
    with Cons.prems obtain s1 where
      "scan_namespaces os nss create (join @ [(ns_typ ns, p)]) s1 = (Inr l, s')"
      by (auto simp: flag_for_def bind_Inr throw_run split: if_splits)
    from Cons.IH [OF this] Some p show ?thesis
      by (auto simp: List.map_filter_def)
  qed
qed

text \<open>C33: a successful \<open>layout\<close> accounts for every configured namespace once: its clone flags hold exactly
  the kinds configured without a path, and its joins are exactly the configured (kind, path) pairs, in
  the join order (user first) and otherwise in configuration order.\<close>

theorem layout_complete:
  assumes "ns_layout_of os nss s = (Inr l, s')"
  shows "(contains_kind (nsl_create l) k = (\<exists>ns. ns \<in> set nss \<and> ns_typ ns = k \<and> joined ns = None))
     \<and> set (nsl_join l) = set (List.map_filter joined nss) \<and> length (nsl_join l) = length (List.map_filter joined nss)
     \<and> sorted (map fst (nsl_join l))
     \<and> filter (\<lambda>(j, _). j = k) (nsl_join l) = filter (\<lambda>(j, _). j = k) (List.map_filter joined nss)"
proof -
  let ?f = "\<lambda>(kind :: ns_type, _ :: path). join_rank kind"
  note spec = scan_spec [OF assms [unfolded ns_layout_of_def]]
  then have join: "nsl_join l = sort_key ?f (List.map_filter joined nss)" by simp
  have same: "(\<lambda>(j, _). j = k) = (\<lambda>x :: ns_type \<times> path. ?f x = join_rank k)"
  proof
    fix x :: "ns_type \<times> path"
    have "join_rank (fst x) = join_rank k \<longleftrightarrow> fst x = k"
      by (metis antisym less_eq_ns_type_def order_refl)
    then show "(case x of (j, _) \<Rightarrow> j = k) = (?f x = join_rank k)" by (cases x) simp
  qed
  have "sorted (map ?f (nsl_join l))" unfolding join by (rule sorted_sort_key)
  moreover have "sorted (map ?f xs) \<Longrightarrow> sorted (map fst xs)" for xs
    by (induction xs) (auto simp: less_eq_ns_type_def)
  ultimately have "sorted (map fst (nsl_join l))" by blast
  moreover have "filter (\<lambda>(j, _). j = k) (nsl_join l) = filter (\<lambda>(j, _). j = k) (List.map_filter joined nss)"
    unfolding same join by (rule sort_key_stable)
  ultimately show ?thesis using spec join by auto
qed

lemma layout_complete_witness:
  "contains_kind (nsl_create \<lparr>nsl_create = CLONE_NEWNS, nsl_join = [(Ns_Pid, ''/ns/pid'')]\<rparr>) Ns_Mount"
proof -
  let ?nss = "[\<lparr>ns_typ = Ns_Mount, ns_path = None\<rparr>, \<lparr>ns_typ = Ns_Pid, ns_path = Some ''/ns/pid''\<rparr>]"
  have "fst (ns_layout_of (fixed_os Kind_File [] 0) ?nss start_state)
      = Inr \<lparr>nsl_create = CLONE_NEWNS, nsl_join = [(Ns_Pid, ''/ns/pid'')]\<rparr>"
    by (simp add: ns_layout_of_def flag_for_def kind_flag_def path_exists_def perform_def bind_def ret_def
        fixed_os_def)
  note run = run_eq [of "ns_layout_of (fixed_os Kind_File [] 0) ?nss", OF this]
  have "\<exists>ns. ns \<in> set ?nss \<and> ns_typ ns = Ns_Mount \<and> joined ns = None"
    by (rule exI [of _ "\<lparr>ns_typ = Ns_Mount, ns_path = None\<rparr>"]) (simp add: joined_def)
  with layout_complete [OF run, of Ns_Mount] show ?thesis by blast
qed

text \<open>\<open>without\<close> removes one kind and keeps every other bit of the flags, the time namespace's bit, which
  the bindings do not name, included.\<close>

theorem without_removes_only:
  "(contains_kind (without flags (kind_flag k)) j = (contains_kind flags j \<and> j \<noteq> k))
   \<and> (n = kind_bit k \<or> bit (without flags (kind_flag k)) n = bit flags n)"
proof -
  have "bit (without flags (kind_flag k)) n \<longleftrightarrow> bit flags n \<and> n \<noteq> kind_bit k" for n
    by (auto simp: without_def bit_and_iff bit_not_iff bit_kind_flag dest: bit_imp_le_length)
  then show ?thesis by (auto simp: contains_kind_bit kind_bit_inj)
qed

text \<open>the order of the joins is the source's table, in which the time namespace does not occur: it
  sorts after the mount namespace, so the mount namespace is not the last one joined.\<close>

theorem time_joins_after_mount:
  "sort_key (\<lambda>(kind, _). join_rank kind) [(Ns_Time, t), (Ns_Mount, m), (Ns_User, u)]
     = [(Ns_User, u), (Ns_Mount, m), (Ns_Time, t)]"
  by (simp add: join_rank_def JOIN_ORDER_def)

end
