(* ===== verification/Validate.thy ===== *)
theory Validate
  imports Namespace
begin

section \<open>Validation of the configuration (bundle/validate.rs)\<close>

text \<open>
  \<^verbatim>\<open>validate::spec\<close> and its parts, pure functions from the configuration to the first error. The
  specification is \<open>valid_spec\<close>, a predicate without order or early return; the theorems show that
  validation decides it, and what the components behind it may rely on.
\<close>

definition SUPPORTED_MAJOR :: u64 where "SUPPORTED_MAJOR = 1"

definition PROPAGATIONS :: "string list" where
  "PROPAGATIONS = [''shared'', ''slave'', ''private'', ''unbindable'']"

definition foreign_sections :: "spec \<Rightarrow> (string \<times> bool) list" where
  "foreign_sections sp =
     [(''solaris'', spec_solaris sp), (''windows'', spec_windows sp), (''vm'', spec_vm sp), (''zos'', spec_zos sp)]"

definition platform :: "spec \<Rightarrow> error + unit" where
  "platform sp =
     check_all (\<lambda>(name, present).
       if present then Inl (OutOfScope (''the '' @ name @ '' section of config.json'')) else Inr ())
       (foreign_sections sp)"

definition numeric_part :: "string \<Rightarrow> string" where
  "numeric_part v = takeWhile (\<lambda>c. c \<notin> set ''-+'') v"

definition version :: "string \<Rightarrow> error + unit" where
  "version v =
     (let parts = split_on dot (numeric_part v) in
      if length parts \<noteq> 3 \<or> list_ex (\<lambda>p. parse_u64 p = None) parts
      then Inl (Invalid (Config (Bad_Version v)))
      else (case parse_u64 (hd parts) of
              Some major \<Rightarrow>
                if major \<noteq> SUPPORTED_MAJOR
                then Inl (Invalid (Config (Unsupported_Major v (unat major)))) else Inr ()
            | None \<Rightarrow> Inr ()))"

text \<open>\<^verbatim>\<open>HashSet::insert\<close> is false for a type seen before.\<close>

fun scan_types :: "linux_namespace list \<Rightarrow> ns_type list \<Rightarrow> error + ns_type list" where
  "scan_types [] seen = Inr seen"
| "scan_types (ns # nss) seen =
     (if ns_typ ns \<in> set seen then Inl (Invalid (Config (Duplicate_Namespace (ns_typ ns))))
      else scan_types nss (ns_typ ns # seen))"

definition spec_namespaces :: "spec \<Rightarrow> linux_namespace list" where
  "spec_namespaces sp = (case spec_linux sp of None \<Rightarrow> [] | Some l \<Rightarrow> opt_or [] (lin_namespaces l))"

definition namespace_types :: "spec \<Rightarrow> error + ns_type list" where
  "namespace_types sp = scan_types (spec_namespaces sp) []"

fun check_rlimits :: "posix_rlimit list \<Rightarrow> rlimit_type list \<Rightarrow> error + unit" where
  "check_rlimits [] limits = Inr ()"
| "check_rlimits (r # rs) limits =
     (if rl_typ r \<in> set limits then Inl (Invalid (Config (Duplicate_Rlimit (rl_typ r))))
      else if rl_hard r < rl_soft r
      then Inl (Invalid (Config (Soft_Above_Hard (rl_typ r) (rl_soft r) (rl_hard r))))
      else check_rlimits rs (limits @ [rl_typ r]))"

definition check_env :: "string list \<Rightarrow> error + unit" where
  "check_env = check_all (\<lambda>e.
     if CHR ''='' \<notin> set e then Inl (Invalid (Config (Spec_Env_Not_Key_Value e))) else Inr ())"

definition process_checks :: "process_spec \<Rightarrow> error + unit" where
  "process_checks p =
     (let args = opt_or [] (proc_args p) in
      if args = [] then Inl (SpecField ''process.args'')
      else if hd args = [] then Inl (Invalid (Config Empty_Program))
      else if \<not> is_absolute (proc_cwd p) then Inl (Invalid (Config (Cwd_Not_Absolute (proc_cwd p))))
      else rbind (check_env (opt_or [] (proc_env p))) (\<lambda>_. check_rlimits (opt_or [] (proc_rlimits p)) []))"

definition process :: "spec \<Rightarrow> error + unit" where
  "process sp = (case spec_process sp of None \<Rightarrow> Inr () | Some p \<Rightarrow> process_checks p)"

definition mounts :: "spec \<Rightarrow> error + unit" where
  "mounts sp = check_all (\<lambda>m.
     if \<not> is_absolute (mnt_destination m)
     then Inl (Invalid (Config (Destination_Not_Absolute (mnt_destination m)))) else Inr ())
     (opt_or [] (spec_mounts sp))"

definition check_absolute :: "string \<Rightarrow> string list \<Rightarrow> error + unit" where
  "check_absolute field = check_all (\<lambda>p.
     if \<not> is_absolute p then Inl (Invalid (Config (Path_Not_Absolute field p))) else Inr ())"

definition linux_checks :: "spec \<Rightarrow> linux_spec \<Rightarrow> ns_type list \<Rightarrow> error + unit" where
  "linux_checks sp linux namespaces =
     (if spec_hostname sp \<noteq> None \<and> Ns_Uts \<notin> set namespaces
      then Inl (Invalid (Config Hostname_Without_Uts))
      else if spec_domainname sp \<noteq> None \<and> Ns_Uts \<notin> set namespaces
      then Inl (Invalid (Config Domainname_Without_Uts))
      else rbind
        (case lin_propagation linux of
           None \<Rightarrow> Inr ()
         | Some p \<Rightarrow> if p \<notin> set PROPAGATIONS then Inl (Invalid (Config (Bad_Propagation p))) else Inr ()) (\<lambda>_.
        rbind (check_absolute ''linux.maskedPaths'' (opt_or [] (lin_masked_paths linux))) (\<lambda>_.
               check_absolute ''linux.readonlyPaths'' (opt_or [] (lin_readonly_paths linux)))))"

definition validate_spec :: "spec \<Rightarrow> error + unit" where
  "validate_spec sp =
     rbind (platform sp) (\<lambda>_.
     rbind (version (spec_version sp)) (\<lambda>_.
     rbind (ok_or (SpecField ''root'') (spec_root sp)) (\<lambda>root.
       if root_path root = [] then Inl (Invalid (Config Root_Path_Empty))
       else
     rbind (ok_or (SpecField ''linux'') (spec_linux sp)) (\<lambda>linux.
     rbind (namespace_types sp) (\<lambda>namespaces.
     rbind (process sp) (\<lambda>_.
     rbind (mounts sp) (\<lambda>_.
       linux_checks sp linux namespaces)))))))"

subsection \<open>The specification\<close>

text \<open>A version the runtime implements: three decimal numbers, the major one 1, and any suffix.\<close>

definition valid_version :: "string \<Rightarrow> bool" where
  "valid_version v \<longleftrightarrow>
     (\<exists>major minor patch rest.
        v = major @ ''.'' @ minor @ ''.'' @ patch @ rest \<and>
        (rest = [] \<or> hd rest \<in> set ''-+'') \<and>
        parse_u64 major = Some 1 \<and> parse_u64 minor \<noteq> None \<and> parse_u64 patch \<noteq> None \<and>
        set (major @ minor @ patch) \<inter> set ''.-+'' = {})"

definition valid_process :: "process_spec \<Rightarrow> bool" where
  "valid_process p \<longleftrightarrow>
     (\<exists>prog args. proc_args p = Some (prog # args) \<and> prog \<noteq> []) \<and>
     is_absolute (proc_cwd p) \<and>
     (\<forall>e\<in>set (opt_or [] (proc_env p)). \<exists>k v. e = k @ ''='' @ v) \<and>
     distinct (map rl_typ (opt_or [] (proc_rlimits p))) \<and>
     (\<forall>r\<in>set (opt_or [] (proc_rlimits p)). rl_soft r \<le> rl_hard r)"

definition valid_spec :: "spec \<Rightarrow> bool" where
  "valid_spec sp \<longleftrightarrow>
     \<not> spec_solaris sp \<and> \<not> spec_windows sp \<and> \<not> spec_vm sp \<and> \<not> spec_zos sp \<and>
     valid_version (spec_version sp) \<and>
     (\<exists>root. spec_root sp = Some root \<and> root_path root \<noteq> []) \<and>
     (\<exists>linux. spec_linux sp = Some linux \<and>
        (\<forall>p. lin_propagation linux = Some p \<longrightarrow> p \<in> set PROPAGATIONS) \<and>
        (\<forall>p\<in>set (opt_or [] (lin_masked_paths linux)) \<union> set (opt_or [] (lin_readonly_paths linux)). is_absolute p)) \<and>
     distinct (map ns_typ (spec_namespaces sp)) \<and>
     (\<forall>p. spec_process sp = Some p \<longrightarrow> valid_process p) \<and>
     (\<forall>m\<in>set (opt_or [] (spec_mounts sp)). is_absolute (mnt_destination m)) \<and>
     (spec_hostname sp \<noteq> None \<or> spec_domainname sp \<noteq> None \<longrightarrow>
        Ns_Uts \<in> ns_typ ` set (spec_namespaces sp))"

subsection \<open>Each check decides its part\<close>

lemma platform_ok: "platform sp = Inr u \<longleftrightarrow>
    \<not> spec_solaris sp \<and> \<not> spec_windows sp \<and> \<not> spec_vm sp \<and> \<not> spec_zos sp"
  by (simp add: platform_def foreign_sections_def check_all_Inr)

lemma scan_types_ok:
  "scan_types nss seen = Inr kinds \<longleftrightarrow>
     distinct (map ns_typ nss) \<and> set (map ns_typ nss) \<inter> set seen = {} \<and> kinds = rev (map ns_typ nss) @ seen"
  by (induction nss arbitrary: seen) auto

lemma check_rlimits_ok:
  "check_rlimits rs limits = Inr u \<longleftrightarrow>
     distinct (map rl_typ rs) \<and> set (map rl_typ rs) \<inter> set limits = {} \<and> (\<forall>r\<in>set rs. rl_soft r \<le> rl_hard r)"
  by (induction rs arbitrary: limits) (auto simp: not_less)

lemma check_env_ok: "check_env es = Inr u \<longleftrightarrow> (\<forall>e\<in>set es. \<exists>k v. e = k @ ''='' @ v)"
proof -
  have "CHR ''='' \<in> set e \<longleftrightarrow> (\<exists>k v. e = k @ ''='' @ v)" for e
    by (auto simp: in_set_conv_decomp)
  then show ?thesis by (auto simp: check_env_def check_all_Inr)
qed

lemma process_checks_ok: "process_checks p = Inr u \<longleftrightarrow> valid_process p"
  by (auto simp: process_checks_def valid_process_def Let_def result_simps check_env_ok check_rlimits_ok
        opt_or_def neq_Nil_conv split: option.splits)

lemma check_absolute_ok: "check_absolute f ps = Inr u \<longleftrightarrow> (\<forall>p\<in>set ps. is_absolute p)"
  by (auto simp: check_absolute_def check_all_Inr)

lemma numeric_part_split:
  "\<exists>rest. v = numeric_part v @ rest \<and> (rest = [] \<or> hd rest \<in> set ''-+'')"
proof -
  have "v = numeric_part v @ dropWhile (\<lambda>c. c \<notin> set ''-+'') v"
    by (simp add: numeric_part_def del: set_simps)
  moreover have "dropWhile (\<lambda>c. c \<notin> set ''-+'') v = [] \<or> hd (dropWhile (\<lambda>c. c \<notin> set ''-+'') v) \<in> set ''-+''"
    using hd_dropWhile [of "\<lambda>c. c \<notin> set ''-+''" v] by blast
  ultimately show ?thesis by blast
qed

lemma numeric_part_app:
  "set n \<inter> set ''-+'' = {} \<Longrightarrow> rest = [] \<or> hd rest \<in> set ''-+'' \<Longrightarrow> numeric_part (n @ rest) = n"
  unfolding numeric_part_def
  by (subst takeWhile_append2) (auto simp: takeWhile_eq_Nil_iff)

lemma list3: "length xs = 3 \<longleftrightarrow> (\<exists>a b c. xs = [a, b, c])"
  by (auto simp: numeral_eq_Suc length_Suc_conv)

lemma version_ok: "version v = Inr u \<longleftrightarrow> valid_version v"
proof
  assume ok: "version v = Inr u"
  then obtain a b c where parts: "split_on dot (numeric_part v) = [a, b, c]"
    by (auto simp: version_def Let_def list3 split: if_splits)
  from ok parts have nums: "parse_u64 a = Some 1" "parse_u64 b \<noteq> None" "parse_u64 c \<noteq> None"
    by (auto simp: version_def SUPPORTED_MAJOR_def split: if_splits option.splits)
  have "numeric_part v = join_with [dot] [a, b, c]"
    using join_split [of dot "numeric_part v"] parts by simp
  then have n: "numeric_part v = a @ ''.'' @ b @ ''.'' @ c" by simp
  obtain rest where v: "v = numeric_part v @ rest" "rest = [] \<or> hd rest \<in> set ''-+''"
    using numeric_part_split by blast
  have "dot \<notin> set (a @ b @ c)"
    using split_on_pieces [of _ dot "numeric_part v"] parts by auto
  moreover have "set (numeric_part v) \<inter> set ''-+'' = {}"
    by (auto simp: numeric_part_def dest: set_takeWhileD)
  ultimately have "set (a @ b @ c) \<inter> set ''.-+'' = {}" using n by auto
  with v n nums show "valid_version v"
    unfolding valid_version_def by (intro exI [of _ a] exI [of _ b] exI [of _ c] exI [of _ rest]) auto
next
  assume "valid_version v"
  then obtain a b c rest where v0: "v = a @ ''.'' @ b @ ''.'' @ c @ rest"
    and v2: "rest = [] \<or> hd rest \<in> set ''-+''" and nums: "parse_u64 a = Some 1" "parse_u64 b \<noteq> None" "parse_u64 c \<noteq> None"
    and disj: "set (a @ b @ c) \<inter> set ''.-+'' = {}"
    unfolding valid_version_def by blast
  from v0 have v: "v = (a @ ''.'' @ b @ ''.'' @ c) @ rest" by simp
  have "numeric_part v = a @ ''.'' @ b @ ''.'' @ c"
    unfolding v using disj v2 by (intro numeric_part_app) auto
  also have "\<dots> = join_with [dot] [a, b, c]" by simp
  finally have "split_on dot (numeric_part v) = [a, b, c]"
    using disj by (simp only:) (rule split_join, auto)
  with nums show "version v = Inr u" by (simp add: version_def SUPPORTED_MAJOR_def)
qed

lemma linux_checks_ok:
  "linux_checks sp linux kinds = Inr u \<longleftrightarrow>
     (spec_hostname sp \<noteq> None \<or> spec_domainname sp \<noteq> None \<longrightarrow> Ns_Uts \<in> set kinds) \<and>
     (\<forall>p. lin_propagation linux = Some p \<longrightarrow> p \<in> set PROPAGATIONS) \<and>
     (\<forall>p\<in>set (opt_or [] (lin_masked_paths linux)) \<union> set (opt_or [] (lin_readonly_paths linux)). is_absolute p)"
  by (auto simp: linux_checks_def result_simps check_absolute_ok split: option.splits if_splits)

lemma mounts_ok: "mounts sp = Inr u \<longleftrightarrow> (\<forall>m\<in>set (opt_or [] (spec_mounts sp)). is_absolute (mnt_destination m))"
  by (auto simp: mounts_def check_all_Inr)

lemma process_ok: "process sp = Inr u \<longleftrightarrow> (\<forall>p. spec_process sp = Some p \<longrightarrow> valid_process p)"
  by (auto simp: process_def process_checks_ok split: option.split)

lemma validate_spec_ok: "validate_spec sp = Inr () \<longleftrightarrow> valid_spec sp"
proof -
  have names: "namespace_types sp = Inr kinds \<longleftrightarrow>
      distinct (map ns_typ (spec_namespaces sp)) \<and> kinds = rev (map ns_typ (spec_namespaces sp))" for kinds
    by (auto simp: namespace_types_def scan_types_ok)
  have root: "ok_or e x = Inr y \<longleftrightarrow> x = Some y" for e and x :: "'x option" and y
    by (cases x) auto
  show ?thesis
    unfolding validate_spec_def valid_spec_def
    by (auto simp: result_simps platform_ok version_ok root names process_ok mounts_ok linux_checks_ok
        split: if_splits)
qed

text \<open>C24: validation decides the specification: a configuration passes exactly when it is \<open>valid_spec\<close>,
  whatever the order of the checks and of the entries.\<close>

theorem validate_spec_decides: "(validate_spec sp = Inr ()) = valid_spec sp"
  by (rule validate_spec_ok)

end
