(* ===== verification/Paths.thy ===== *)
theory Paths
  imports Effects
begin

section \<open>Identifiers and the layout of the state directory (paths.rs)\<close>

text \<open>
  \<^verbatim>\<open>Layout\<close> maps a container identifier to the files the runtime keeps for it, and \<^verbatim>\<open>validate_id\<close> is
  the guard every command applies before it joins an identifier to the root. The lemmas show what
  the guard buys: a valid identifier is exactly one name below the root, so no two containers share
  a directory and no file of one container lies in another's.
\<close>

record layout =
  lay_root :: path

definition STATE_FILE :: string where "STATE_FILE = ''state.json''"
definition EXEC_FIFO :: string where "EXEC_FIFO = ''exec.fifo''"
definition PID_FILE :: string where "PID_FILE = ''init.pid''"

definition container_dir :: "layout \<Rightarrow> string \<Rightarrow> path" where
  "container_dir l cid = join_path (lay_root l) cid"

definition state_file :: "layout \<Rightarrow> string \<Rightarrow> path" where
  "state_file l cid = join_path (container_dir l cid) STATE_FILE"

definition exec_fifo :: "layout \<Rightarrow> string \<Rightarrow> path" where
  "exec_fifo l cid = join_path (container_dir l cid) EXEC_FIFO"

definition pid_file :: "layout \<Rightarrow> string \<Rightarrow> path" where
  "pid_file l cid = join_path (container_dir l cid) PID_FILE"

definition layout_exists :: "'w os \<Rightarrow> layout \<Rightarrow> string \<Rightarrow> ('w, bool) io" where
  "layout_exists os l cid = is_file os (state_file l cid)"

definition id_char :: "char \<Rightarrow> bool" where
  "id_char c \<longleftrightarrow> is_alphanumeric c \<or> c \<in> set ''._+-''"

definition validate_id :: "string \<Rightarrow> error + unit" where
  "validate_id cid =
     (if cid \<noteq> [] \<and> cid \<noteq> ''.'' \<and> cid \<noteq> ''..'' \<and> list_all id_char cid then Inr ()
      else Inl (InvalidId cid))"

lemma id_char_not_special: "id_char c \<Longrightarrow> c \<noteq> slash \<and> c \<noteq> nul \<and> c \<noteq> blank \<and> c \<noteq> colon \<and> c \<noteq> comma"
  by (auto simp: id_char_def is_alphanumeric_def is_alpha_def is_digit_def char_code_def)

lemma validate_id_Inr: "validate_id cid = Inr u \<longleftrightarrow>
    cid \<noteq> [] \<and> cid \<noteq> ''.'' \<and> cid \<noteq> ''..'' \<and> list_all id_char cid"
  by (simp add: validate_id_def)

lemma valid_plain: "validate_id cid = Inr u \<Longrightarrow> plain_name cid"
  unfolding validate_id_Inr plain_name_def
  by (auto simp: list_all_iff dest: id_char_not_special)

lemma file_names_plain [simp]: "plain_name STATE_FILE" "plain_name EXEC_FIFO" "plain_name PID_FILE"
  by (simp_all add: plain_name_def STATE_FILE_def EXEC_FIFO_def PID_FILE_def)

lemma components_container_dir:
  "lay_root l \<noteq> [] \<Longrightarrow> validate_id cid = Inr u \<Longrightarrow>
   components (container_dir l cid) = components (lay_root l) @ [Normal cid]"
  unfolding container_dir_def by (rule components_join_plain) (auto intro: valid_plain)

lemma container_dir_not_Nil: "lay_root l \<noteq> [] \<Longrightarrow> container_dir l cid \<noteq> []"
  by (simp add: container_dir_def join_path_not_Nil)

lemma components_in_dir:
  assumes "lay_root l \<noteq> []" "validate_id cid = Inr u" "plain_name n"
  shows "components (join_path (container_dir l cid) n) = components (lay_root l) @ [Normal cid, Normal n]"
  using components_join_plain [of "container_dir l cid" n] assms container_dir_not_Nil [of l cid]
    components_container_dir [of l cid]
  by simp

lemmas components_files =
  components_in_dir [where n = STATE_FILE, folded state_file_def]
  components_in_dir [where n = EXEC_FIFO, folded exec_fifo_def]
  components_in_dir [where n = PID_FILE, folded pid_file_def]

text \<open>C13: an identifier that passes \<open>validate_id\<close> cannot leave the state root: its container
  directory is the root followed by exactly one ordinary name, the identifier itself, whatever the
  root. In particular neither \<open>..\<close>, an absolute path nor a separator reaches the file system.\<close>

theorem valid_id_no_traversal:
  assumes "lay_root l \<noteq> []" and "validate_id cid = Inr ()"
  shows "components (container_dir l cid) = components (lay_root l) @ [Normal cid]
     \<and> starts_with (state_file l cid) (container_dir l cid)
     \<and> starts_with (exec_fifo l cid) (container_dir l cid)
     \<and> starts_with (pid_file l cid) (container_dir l cid)"
  using components_container_dir [OF assms] components_files [OF assms]
  by (simp add: starts_with_iff)

lemma valid_id_no_traversal_witness:
  "components (container_dir \<lparr>lay_root = ''/run/mars''\<rparr> ''a-1'')
     = components ''/run/mars'' @ [Normal ''a-1'']"
  using valid_id_no_traversal [of "\<lparr>lay_root = ''/run/mars''\<rparr>" "''a-1''"]
  by (simp add: validate_id_def id_char_def is_alphanumeric_def is_alpha_def is_digit_def char_code_def)

text \<open>C25: two containers never share state: for different valid identifiers no file of the layout
  of one lies in the directory of the other, under path comparison by components.\<close>

theorem layouts_disjoint:
  assumes "lay_root l \<noteq> []" and "validate_id a = Inr ()" and "validate_id b = Inr ()" and "a \<noteq> b"
  shows "\<not> starts_with (container_dir l a) (container_dir l b)
     \<and> \<not> starts_with (state_file l a) (container_dir l b)
     \<and> \<not> starts_with (exec_fifo l a) (container_dir l b)
     \<and> \<not> starts_with (pid_file l a) (container_dir l b)"
  using components_container_dir [OF assms(1,2)] components_container_dir [OF assms(1,3)]
    components_files [OF assms(1,2)] assms(4)
  by (simp add: starts_with_iff)

lemma layouts_disjoint_witness:
  "\<not> starts_with (state_file \<lparr>lay_root = ''/run/mars''\<rparr> ''a'') (container_dir \<lparr>lay_root = ''/run/mars''\<rparr> ''b'')"
  using layouts_disjoint [of "\<lparr>lay_root = ''/run/mars''\<rparr>" "''a''" "''b''"]
  by (simp add: validate_id_def id_char_def is_alphanumeric_def is_alpha_def is_digit_def char_code_def)

lemma only_layout_exists [hoare]:
  "P (Fs (Stat (state_file l cid))) \<Longrightarrow> only P (layout_exists os l cid)"
  by (simp add: layout_exists_def only_stat)

lemma state_files_distinct:
  assumes "lay_root l \<noteq> []" "validate_id a = Inr ()" "validate_id b = Inr ()" "state_file l a = state_file l b"
  shows "a = b"
  using components_files(1) [OF assms(1,2)] components_files(1) [OF assms(1,3)]
  unfolding assms(4) by simp

end
