(* ===== verification/Cgroup.thy ===== *)
theory Cgroup
  imports Effects
begin

section \<open>Control groups (cgroup/v2.rs, cgroup/events.rs)\<close>

text \<open>
  The cgroup v2 tree is the only interface to resource limits and to freezing. The model has the
  conversions from the OCI numbers (machine integers at their width), the path that names a
  container's group, the parser of flat keyed files, and every operation of \<^verbatim>\<open>Cgroup\<close> as a program
  over the operating system.
\<close>

definition MOUNT_POINT :: path where "MOUNT_POINT = ''/sys/fs/cgroup''"
definition DEFAULT_PARENT :: string where "DEFAULT_PARENT = ''mars''"
definition WANTED :: "string list" where
  "WANTED = [''memory'', ''pids'', ''cpu'', ''cpuset'', ''io'']"
definition CGROUP2_SUPER_MAGIC :: int where "CGROUP2_SUPER_MAGIC = 0x63677270"

record cgroup =
  cg_path :: path
  cg_relative :: path

subsection \<open>Values written to the control files\<close>

definition limit_value :: "int \<Rightarrow> string" where
  "limit_value bytes = (if bytes \<le> 0 then ''max'' else show_int bytes)"

definition swap_value :: "int \<Rightarrow> int option \<Rightarrow> string" where
  "swap_value s limit =
     (if s \<le> 0 then ''max''
      else case limit of
             Some l \<Rightarrow> if 0 < l \<and> l < s then show_int (s - l) else if 0 < l then ''0'' else show_int s
           | None \<Rightarrow> show_int s)"

definition cpu_max_value :: "int \<Rightarrow> u64 \<Rightarrow> string" where
  "cpu_max_value quota period =
     (if quota \<le> 0 then ''max '' @ show_u64 period else show_int quota @ '' '' @ show_u64 period)"

definition clamp :: "'a::linorder \<Rightarrow> 'a \<Rightarrow> 'a \<Rightarrow> 'a" where
  "clamp x lo hi = (if x < lo then lo else if hi < x then hi else x)"

definition shares_to_weight :: "u64 \<Rightarrow> u64" where
  "shares_to_weight shares =
     (if shares = 0 then 100
      else let shares = clamp shares 2 262144 in 1 + ((shares - 2) * 9999) div 262142)"

definition blkio_to_io_weight :: "u16 \<Rightarrow> u64" where
  "blkio_to_io_weight weight =
     (let weight = clamp (ucast weight) 10 1000 in 1 + (weight - 10) * 9999 div 990)"

definition io_max_line :: "string \<Rightarrow> throttle_device \<Rightarrow> string" where
  "io_max_line key d =
     show_int (thr_major d) @ '':'' @ show_int (thr_minor d) @ '' '' @ key @ ''='' @ show_u64 (thr_rate d)"

definition io_max_lines :: "block_io \<Rightarrow> string list" where
  "io_max_lines b =
     concat (map (\<lambda>(key, devices). map (io_max_line key) (opt_or [] devices))
       [(''rbps'', bio_read_bps b), (''wbps'', bio_write_bps b),
        (''riops'', bio_read_iops b), (''wiops'', bio_write_iops b)])"

subsection \<open>Flat keyed files\<close>

definition flat_entry :: "string \<Rightarrow> (string \<times> u64) option" where
  "flat_entry l =
     (case split_whitespace l of
        key # v # rest \<Rightarrow> map_option (\<lambda>n. (key, n)) (parse_u64 v)
      | _ \<Rightarrow> None)"

text \<open>Collecting into a \<^verbatim>\<open>HashMap\<close>: the last entry of a key stays.\<close>

definition parse_flat_keyed :: "string \<Rightarrow> (string \<rightharpoonup> u64)" where
  "parse_flat_keyed text = map_of (rev (List.map_filter flat_entry (text_lines text)))"

definition count_of :: "(string \<rightharpoonup> u64) \<Rightarrow> string \<Rightarrow> u64" where
  "count_of m key = opt_or 0 (m key)"

record memory_events =
  me_low :: u64
  me_high :: u64
  me_max :: u64
  me_oom :: u64
  me_oom_kill :: u64

record cpu_stat =
  cs_usage_usec :: u64
  cs_nr_periods :: u64
  cs_nr_throttled :: u64
  cs_throttled_usec :: u64

subsection \<open>The path of a group\<close>

fun normal_part :: "component \<Rightarrow> string option" where
  "normal_part (Normal s) = Some s"
| "normal_part _ = None"

definition normalise :: "path \<Rightarrow> path" where
  "normalise p = foldl join_path [] (List.map_filter normal_part (components p))"

definition relative_path :: "path option \<Rightarrow> string \<Rightarrow> path" where
  "relative_path cgroups_path cid =
     (case cgroups_path of
        Some p \<Rightarrow> if p \<noteq> [] then normalise p else join_path DEFAULT_PARENT cid
      | None \<Rightarrow> join_path DEFAULT_PARENT cid)"

definition cg_attach :: "path \<Rightarrow> cgroup" where
  "cg_attach relative = \<lparr>cg_path = join_path MOUNT_POINT relative, cg_relative = relative\<rparr>"

subsection \<open>Operations\<close>

definition is_unified :: "'w os \<Rightarrow> ('w, bool) io" where
  "is_unified os = bind (perform (os_num os) (Fs (Statfs MOUNT_POINT)))
     (\<lambda>r. ret (r = Inr CGROUP2_SUPER_MAGIC))"

definition cg_write :: "'w os \<Rightarrow> cgroup \<Rightarrow> string \<Rightarrow> string \<Rightarrow> ('w, unit) io" where
  "cg_write os cg file v = io_unit os (Write_File (join_path (cg_path cg) file) v)"

definition cg_read :: "'w os \<Rightarrow> cgroup \<Rightarrow> string \<Rightarrow> ('w, string) io" where
  "cg_read os cg file = io_text os (Read_File (join_path (cg_path cg) file))"

definition cg_exists :: "'w os \<Rightarrow> cgroup \<Rightarrow> ('w, bool) io" where
  "cg_exists os cg = is_dir os (cg_path cg)"

definition memory_events_of :: "'w os \<Rightarrow> cgroup \<Rightarrow> ('w, memory_events) io" where
  "memory_events_of os cg = bind (cg_read os cg ''memory.events'') (\<lambda>text.
     let m = parse_flat_keyed text in
     ret \<lparr>me_low = count_of m ''low'', me_high = count_of m ''high'', me_max = count_of m ''max'',
          me_oom = count_of m ''oom'', me_oom_kill = count_of m ''oom_kill''\<rparr>)"

definition cpu_stat_of :: "'w os \<Rightarrow> cgroup \<Rightarrow> ('w, cpu_stat) io" where
  "cpu_stat_of os cg = bind (cg_read os cg ''cpu.stat'') (\<lambda>text.
     let m = parse_flat_keyed text in
     ret \<lparr>cs_usage_usec = count_of m ''usage_usec'', cs_nr_periods = count_of m ''nr_periods'',
          cs_nr_throttled = count_of m ''nr_throttled'', cs_throttled_usec = count_of m ''throttled_usec''\<rparr>)"

definition procs_of_text :: "string \<Rightarrow> pid list" where
  "procs_of_text text = List.map_filter (\<lambda>l. parse_i32 (trim l)) (text_lines text)"

definition cg_procs :: "'w os \<Rightarrow> cgroup \<Rightarrow> ('w, pid list) io" where
  "cg_procs os cg = bind (cg_read os cg ''cgroup.procs'') (\<lambda>text. ret (procs_of_text text))"

definition frozen_in :: "string \<Rightarrow> bool" where
  "frozen_in text = (count_of (parse_flat_keyed text) ''frozen'' = 1)"

definition is_frozen :: "'w os \<Rightarrow> cgroup \<Rightarrow> ('w, bool) io" where
  "is_frozen os cg = bind (attempt (cg_read os cg ''cgroup.events''))
     (\<lambda>r. ret (case r of Inl e \<Rightarrow> False | Inr text \<Rightarrow> frozen_in text))"

text \<open>The polls of \<^verbatim>\<open>freeze\<close>: at most \<open>n\<close> more.\<close>

fun await_frozen :: "'w os \<Rightarrow> cgroup \<Rightarrow> bool \<Rightarrow> nat \<Rightarrow> ('w, unit) io" where
  "await_frozen os cg frozen 0 = throw (Invalid (Runtime (Freeze_Timeout (cg_path cg) frozen)))"
| "await_frozen os cg frozen (Suc n) =
     bind (is_frozen os cg) (\<lambda>now.
       if now = frozen then ret ()
       else bind (perform (os_unit os) (Proc (Sleep_Ms 10))) (\<lambda>_. await_frozen os cg frozen n))"

definition freeze :: "'w os \<Rightarrow> cgroup \<Rightarrow> bool \<Rightarrow> ('w, unit) io" where
  "freeze os cg frozen =
     andthen (cg_write os cg ''cgroup.freeze'' (if frozen then ''1'' else ''0''))
             (await_frozen os cg frozen 500)"

definition add_process :: "'w os \<Rightarrow> cgroup \<Rightarrow> pid \<Rightarrow> ('w, unit) io" where
  "add_process os cg p = cg_write os cg ''cgroup.procs'' (show_int p)"

text \<open>The attempts of \<^verbatim>\<open>destroy\<close> with \<open>n\<close> attempts left; the last one gives the error.\<close>

fun remove_leaf :: "'w os \<Rightarrow> cgroup \<Rightarrow> nat \<Rightarrow> ('w, unit) io" where
  "remove_leaf os cg 0 = ret ()"
| "remove_leaf os cg (Suc n) =
     bind (perform (os_unit os) (Fs (Remove_Dir (cg_path cg)))) (\<lambda>r.
       case r of
         Inr _ \<Rightarrow> ret ()
       | Inl e \<Rightarrow>
           if e = EBUSY \<and> 0 < n
           then bind (perform (os_unit os) (Proc (Sleep_Ms 20))) (\<lambda>_. remove_leaf os cg n)
           else throw (Io (Fs (Remove_Dir (cg_path cg))) e))"

definition destroy :: "'w os \<Rightarrow> cgroup \<Rightarrow> ('w, unit) io" where
  "destroy os cg =
     bind (remove_leaf os cg 50) (\<lambda>_.
       case parent (cg_path cg) of
         None \<Rightarrow> ret ()
       | Some p \<Rightarrow>
           if \<not> path_eq p MOUNT_POINT then ignore (io_unit os (Remove_Dir p)) else ret ())"

definition read_list :: "'w os \<Rightarrow> path \<Rightarrow> ('w, string list) io" where
  "read_list os p = bind (io_text os (Read_File p)) (\<lambda>text. ret (split_whitespace text))"

definition missing_controllers :: "string list \<Rightarrow> string list \<Rightarrow> string list" where
  "missing_controllers available enabled =
     map (\<lambda>w. ''+'' @ w) (filter (\<lambda>w. w \<in> set available \<and> w \<notin> set enabled) WANTED)"

definition delegate :: "'w os \<Rightarrow> path \<Rightarrow> ('w, unit) io" where
  "delegate os dir =
     bind (read_list os (join_path dir ''cgroup.controllers'')) (\<lambda>available.
     bind (attempt (read_list os (join_path dir ''cgroup.subtree_control''))) (\<lambda>r.
       let missing = missing_controllers available (unwrap_or [] r) in
       if missing = [] then ret ()
       else io_unit os (Write_File (join_path dir ''cgroup.subtree_control'') (join_with '' '' missing))))"

fun create_groups :: "'w os \<Rightarrow> path \<Rightarrow> component list \<Rightarrow> ('w, path) io" where
  "create_groups os cur [] = ret cur"
| "create_groups os cur (c # cs) =
     (case c of
        Normal part \<Rightarrow>
          bind (delegate os cur) (\<lambda>_.
            let cur = join_path cur part in
            bind (is_dir os cur) (\<lambda>there.
            bind (do_when (\<not> there) (io_unit os (Create_Dir cur))) (\<lambda>_.
              if cs = [] then ret cur else create_groups os cur cs)))
      | _ \<Rightarrow> create_groups os cur cs)"

definition cg_create :: "'w os \<Rightarrow> path \<Rightarrow> ('w, cgroup) io" where
  "cg_create os relative =
     bind (is_unified os) (\<lambda>unified.
       if \<not> unified then throw NoCgroupV2
       else bind (create_groups os MOUNT_POINT (components relative)) (\<lambda>p.
              ret \<lparr>cg_path = p, cg_relative = relative\<rparr>))"

subsection \<open>Applying limits\<close>

definition apply_memory :: "'w os \<Rightarrow> cgroup \<Rightarrow> memory_res \<Rightarrow> ('w, unit) io" where
  "apply_memory os cg m =
     andthen (case mem_limit m of None \<Rightarrow> ret () | Some b \<Rightarrow> cg_write os cg ''memory.max'' (limit_value b))
    (andthen (case mem_reservation m of None \<Rightarrow> ret () | Some b \<Rightarrow> cg_write os cg ''memory.low'' (limit_value b))
             (case mem_swap m of None \<Rightarrow> ret ()
              | Some s \<Rightarrow> cg_write os cg ''memory.swap.max'' (swap_value s (mem_limit m))))"

definition apply_cpu :: "'w os \<Rightarrow> cgroup \<Rightarrow> cpu_res \<Rightarrow> ('w, unit) io" where
  "apply_cpu os cg c =
     (let period = opt_or 100000 (cpu_period c) in
      andthen (case cpu_quota c of None \<Rightarrow> ret () | Some q \<Rightarrow> cg_write os cg ''cpu.max'' (cpu_max_value q period))
     (andthen (case cpu_shares c of None \<Rightarrow> ret ()
               | Some s \<Rightarrow> do_when (s \<noteq> 0) (cg_write os cg ''cpu.weight'' (show_u64 (shares_to_weight s))))
     (andthen (case cpu_cpus c of None \<Rightarrow> ret () | Some v \<Rightarrow> do_when (v \<noteq> []) (cg_write os cg ''cpuset.cpus'' v))
              (case cpu_mems c of None \<Rightarrow> ret () | Some v \<Rightarrow> do_when (v \<noteq> []) (cg_write os cg ''cpuset.mems'' v)))))"

definition apply_block_io :: "'w os \<Rightarrow> cgroup \<Rightarrow> block_io \<Rightarrow> ('w, unit) io" where
  "apply_block_io os cg b =
     andthen (case bio_weight b of None \<Rightarrow> ret ()
              | Some w \<Rightarrow> do_when (w \<noteq> 0) (cg_write os cg ''io.weight'' (show_u64 (blkio_to_io_weight w))))
             (for_each (\<lambda>l. cg_write os cg ''io.max'' l) (io_max_lines b))"

definition cg_apply :: "'w os \<Rightarrow> cgroup \<Rightarrow> resources \<Rightarrow> ('w, unit) io" where
  "cg_apply os cg r =
     andthen (case res_memory r of None \<Rightarrow> ret () | Some m \<Rightarrow> apply_memory os cg m)
    (andthen (case res_cpu r of None \<Rightarrow> ret () | Some c \<Rightarrow> apply_cpu os cg c)
    (andthen (case res_pids r of None \<Rightarrow> ret () | Some n \<Rightarrow> cg_write os cg ''pids.max'' (limit_value n))
    (andthen (case res_block_io r of None \<Rightarrow> ret () | Some b \<Rightarrow> apply_block_io os cg b)
             (case res_unified r of None \<Rightarrow> ret ()
              | Some kvs \<Rightarrow> for_each (\<lambda>(file, v). cg_write os cg file v) kvs))))"

subsection \<open>The conversions are exact\<close>

lemma unat_clamp:
  fixes x lo hi :: "'a::len word"
  shows "unat (clamp x lo hi) = clamp (unat x) (unat lo) (unat hi)"
  by (auto simp: clamp_def word_less_nat_alt)

lemma unat_shares_scaled:
  fixes x :: u64
  assumes "2 \<le> unat x" "unat x \<le> 262144"
  shows "unat (1 + ((x - 2) * 9999) div 262142) = 1 + (unat x - 2) * 9999 div 262142"
proof -
  define y where "y = (x - 2) * 9999"
  have sub: "unat (x - 2) = unat x - 2"
    using assms(1) by (subst unat_sub) (simp_all add: word_le_nat_alt)
  have "unat x - 2 \<le> 262142" using assms(2) by simp
  then have m: "(unat x - 2) * 9999 \<le> 262142 * 9999" by (rule mult_le_mono1)
  then have "unat (x - 2) * unat (9999 :: u64) < 2 ^ LENGTH(64)" by (simp add: sub)
  then have mul: "unat y = (unat x - 2) * 9999"
    unfolding unat_mult_lem y_def by (simp only: sub unat_numeral) simp
  have "(unat x - 2) * 9999 div 262142 \<le> 262142 * 9999 div 262142"
    using m by (rule div_le_mono)
  then show ?thesis
    unfolding y_def [symmetric] using mul
    by (simp add: unat_word_ariths unat_div)
qed

lemma unat_weight_scaled:
  fixes x :: u64
  assumes "10 \<le> unat x" "unat x \<le> 1000"
  shows "unat (1 + (x - 10) * 9999 div 990) = 1 + (unat x - 10) * 9999 div 990"
proof -
  define y where "y = (x - 10) * 9999"
  have sub: "unat (x - 10) = unat x - 10"
    using assms(1) by (subst unat_sub) (simp_all add: word_le_nat_alt)
  have "unat x - 10 \<le> 990" using assms(2) by simp
  then have m: "(unat x - 10) * 9999 \<le> 990 * 9999" by (rule mult_le_mono1)
  then have "unat (x - 10) * unat (9999 :: u64) < 2 ^ LENGTH(64)" by (simp add: sub)
  then have mul: "unat y = (unat x - 10) * 9999"
    unfolding unat_mult_lem y_def by (simp only: sub unat_numeral) simp
  have "(unat x - 10) * 9999 div 990 \<le> 990 * 9999 div 990"
    using m by (rule div_le_mono)
  then show ?thesis
    unfolding y_def [symmetric] using mul
    by (simp add: unat_word_ariths unat_div)
qed

lemma clamp_bounds: "lo \<le> hi \<Longrightarrow> lo \<le> clamp x lo hi \<and> clamp x lo hi \<le> hi"
  by (auto simp: clamp_def)

lemma clamp_mono: "lo \<le> hi \<Longrightarrow> x \<le> y \<Longrightarrow> clamp x lo hi \<le> clamp y lo hi"
  by (auto simp: clamp_def)

lemma shares_to_weight_unat:
  "s \<noteq> 0 \<Longrightarrow> unat (shares_to_weight s) = 1 + (clamp (unat s) 2 262144 - 2) * 9999 div 262142"
  using unat_shares_scaled [of "clamp s 2 262144"] clamp_bounds [of "2::nat" 262144 "unat s"]
  by (simp add: shares_to_weight_def Let_def unat_clamp)

lemma blkio_to_io_weight_unat:
  "unat (blkio_to_io_weight w) = 1 + (clamp (unat w) 10 1000 - 10) * 9999 div 990"
proof -
  have u: "unat (ucast w :: u64) = unat w"
    using unsigned_less [where 'a = nat, of w]
    by (simp add: unsigned_ucast_eq take_bit_nat_eq_self_iff)
  show ?thesis
    using unat_weight_scaled [of "clamp (ucast w) 10 1000"] clamp_bounds [of "10::nat" 1000 "unat w"]
    by (simp add: blkio_to_io_weight_def Let_def unat_clamp u)
qed

lemma scaled_range: "(x::nat) \<le> d \<Longrightarrow> 0 < d \<Longrightarrow> x * 9999 div d \<le> 9999"
  by (metis div_le_mono mult.commute mult_le_mono1 nonzero_mult_div_cancel_left less_irrefl_nat)

text \<open>\<open>shares_to_weight\<close> never overflows and never leaves the range cgroup v2 accepts: for every
  64-bit number of shares the result is the exact natural-number scaling of the clamped value, lies in
  1..10000, and more shares never mean less weight.\<close>

theorem shares_to_weight_exact:
  "unat (shares_to_weight a)
     = (if a = 0 then 100 else 1 + (clamp (unat a) 2 262144 - 2) * 9999 div 262142)
   \<and> 1 \<le> shares_to_weight a \<and> shares_to_weight a \<le> 10000
   \<and> (a = 0 \<or> b < a \<or> shares_to_weight a \<le> shares_to_weight b)"
proof -
  have range: "1 \<le> unat (shares_to_weight a) \<and> unat (shares_to_weight a) \<le> 10000"
  proof (cases "a = 0")
    case False
    have "clamp (unat a) 2 262144 - 2 \<le> 262142"
      by (auto simp: clamp_def le_diff_conv not_less)
    from scaled_range [OF this] False show ?thesis by (simp add: shares_to_weight_unat)
  qed (simp add: shares_to_weight_def)
  have mono: "shares_to_weight a \<le> shares_to_weight b" if "a \<noteq> 0" "a \<le> b"
  proof -
    from that have "b \<noteq> 0" by auto
    moreover have "clamp (unat a) 2 262144 - 2 \<le> clamp (unat b) 2 262144 - (2::nat)"
      using that by (simp add: clamp_mono diff_le_mono word_le_nat_alt)
    ultimately show ?thesis
      using that by (simp add: word_le_nat_alt shares_to_weight_unat div_le_mono mult_le_mono1)
  qed
  have val: "unat (shares_to_weight a)
     = (if a = 0 then 100 else 1 + (clamp (unat a) 2 262144 - 2) * 9999 div 262142)"
  proof (cases "a = 0")
    case True
    then show ?thesis by (simp add: shares_to_weight_def)
  next
    case False
    then show ?thesis by (simp only: shares_to_weight_unat if_False not_False_eq_True)
  qed
  show ?thesis
    unfolding val [symmetric] using range mono not_le [of a b] by (auto simp: word_le_nat_alt)
qed

text \<open>\<open>blkio_to_io_weight\<close> is exact for every 16-bit weight, in 1..10000, and monotone.\<close>

theorem blkio_to_io_weight_exact:
  "unat (blkio_to_io_weight a) = 1 + (clamp (unat a) 10 1000 - 10) * 9999 div 990
   \<and> 1 \<le> blkio_to_io_weight a \<and> blkio_to_io_weight a \<le> 10000
   \<and> (b < a \<or> blkio_to_io_weight a \<le> blkio_to_io_weight b)"
proof -
  have "clamp (unat a) 10 1000 - 10 \<le> 990"
    by (auto simp: clamp_def le_diff_conv not_less)
  from scaled_range [OF this]
  have range: "1 \<le> unat (blkio_to_io_weight a) \<and> unat (blkio_to_io_weight a) \<le> 10000"
    by (simp add: blkio_to_io_weight_unat)
  have mono: "blkio_to_io_weight a \<le> blkio_to_io_weight b" if "a \<le> b"
  proof -
    have "clamp (unat a) 10 1000 - 10 \<le> clamp (unat b) 10 1000 - (10::nat)"
      using that by (simp add: clamp_mono diff_le_mono word_le_nat_alt)
    then show ?thesis
      by (simp add: word_le_nat_alt blkio_to_io_weight_unat div_le_mono mult_le_mono1)
  qed
  show ?thesis
    unfolding blkio_to_io_weight_unat [symmetric]
    using range mono not_le [of a b] by (auto simp: word_le_nat_alt)
qed

subsection \<open>Memory limits\<close>

lemma show_int_not_max: "0 < i \<Longrightarrow> show_int i \<noteq> ''max''"
  using show_nat_chars [of "CHR ''m''" "nat i"]
  by (auto simp: show_int_def is_digit_def char_code_def)

lemma show_int_inj_pos: "0 \<le> i \<Longrightarrow> 0 \<le> j \<Longrightarrow> show_int i = show_int j \<Longrightarrow> i = j"
  by (auto simp: show_int_def dest: show_nat_inj)

text \<open>\<open>swap_value\<close> turns the OCI total of memory and swap into the swap-only limit of cgroup v2: the
  difference when a memory limit is set (never negative), the total itself without one, and \<open>max\<close>
  exactly for the non-positive \<^verbatim>\<open>unlimited\<close> total.\<close>

theorem swap_value_swap_only:
  "swap_value s limit
     = (if s \<le> 0 then ''max''
        else show_int (case limit of None \<Rightarrow> s | Some l \<Rightarrow> if 0 < l then max 0 (s - l) else s))
   \<and> (swap_value s limit = ''max'') = (s \<le> 0)"
proof -
  have zero: "show_int 0 = ''0''"
    by code_simp
  have ne: "0 \<le> i \<Longrightarrow> show_int i \<noteq> ''max''" for i :: int
    using show_int_not_max [of i] zero by (cases "i = 0") auto
  have main: "swap_value s limit
     = (if s \<le> 0 then ''max''
        else show_int (case limit of None \<Rightarrow> s | Some l \<Rightarrow> if 0 < l then max 0 (s - l) else s))"
    using zero by (auto simp: swap_value_def max_def split: option.split)
  moreover have "(case limit of None \<Rightarrow> s | Some l \<Rightarrow> if 0 < l then max 0 (s - l) else s) \<ge> 0"
    if "\<not> s \<le> 0"
    using that by (auto split: option.split)
  ultimately show ?thesis using ne by auto
qed

subsection \<open>Group paths stay below the mount point\<close>

lemma normal_part_Some [simp]: "normal_part c = Some s \<longleftrightarrow> c = Normal s"
  by (cases c) auto

lemma normal_components_plain:
  assumes "Normal s \<in> set (components p)" shows "plain_name s"
proof -
  have sc: "Normal s \<in> set (seg_comp x) \<Longrightarrow> slash \<notin> set x \<Longrightarrow> plain_name s" for x
    by (auto simp: seg_comp_def plain_name_def split: if_splits)
  have "Normal s \<in> set (comps_of (path_segs p))"
    using assms
    by (cases "path_segs p") (auto simp: components_def split: if_splits)
  then obtain x where "x \<in> set (path_segs p)" "Normal s \<in> set (seg_comp x)"
    by (auto simp: comps_of_def)
  with sc path_segs_no_slash show ?thesis by blast
qed

lemma components_push_plain:
  "(\<And>n. n \<in> set ns \<Longrightarrow> plain_name n) \<Longrightarrow> base \<noteq> [] \<Longrightarrow>
   components (foldl join_path base ns) = components base @ map Normal ns"
proof (induction ns arbitrary: base)
  case (Cons n ns)
  then have "components (foldl join_path (join_path base n) ns)
      = components (join_path base n) @ map Normal ns"
    by (simp add: join_path_not_Nil)
  with Cons.prems show ?case by (simp add: components_join_plain)
qed simp

lemma components_plain: "plain_name n \<Longrightarrow> components n = [Normal n]"
  using plain_name_relative [of n]
  by (auto simp: components_def path_segs_def split_on_id plain_name_def seg_comp_def)

lemma components_normalise:
  "components (normalise p) = filter (\<lambda>c. normal_part c \<noteq> None) (components p)"
proof -
  let ?ns = "List.map_filter normal_part (components p)"
  have plain: "n \<in> set ?ns \<Longrightarrow> plain_name n" for n
    by (auto simp: List.map_filter_def intro: normal_components_plain)
  have "components (foldl join_path [] ?ns) = map Normal ?ns"
  proof (cases ?ns)
    case Nil
    then show ?thesis by (simp add: components_def path_segs_def has_root_def seg_comp_def)
  next
    case (Cons n ns)
    then have "plain_name n" using plain by simp
    moreover have "join_path [] n = n" by (simp add: join_path_def)
    ultimately show ?thesis
      using components_push_plain [of ns n] plain Cons
      by (simp add: components_plain) (simp add: plain_name_def)
  qed
  moreover have "map Normal (List.map_filter normal_part cs)
      = filter (\<lambda>c. normal_part c \<noteq> None) cs" for cs
    by (induction cs) (auto simp: List.map_filter_def split: component.splits)
  ultimately show ?thesis by (simp add: normalise_def)
qed

lemma normalise_relative: "\<not> has_root (normalise p)"
proof
  assume "has_root (normalise p)"
  then obtain cs where "components (normalise p) = RootDir # cs"
    by (auto simp: components_rooted_iff)
  then have "RootDir \<in> set (components (normalise p))" by simp
  then show False by (simp add: components_normalise)
qed

lemma components_relative:
  "\<not> has_root q \<Longrightarrow> CurDir \<notin> set (components q) \<Longrightarrow> comps_of (split_on slash q) = components q"
  by (cases "split_on slash q") (auto simp: components_def path_segs_def split: if_splits)

lemma mount_point_ne [simp]: "MOUNT_POINT \<noteq> []"
  by (simp add: MOUNT_POINT_def)

lemma components_attach_normalise:
  "components (cg_path (cg_attach (normalise p)))
     = components MOUNT_POINT @ filter (\<lambda>c. normal_part c \<noteq> None) (components p)"
  using components_join [of MOUNT_POINT "normalise p"] normalise_relative [of p]
    components_relative [of "normalise p"]
  by (auto simp: cg_attach_def components_normalise)

lemma default_components:
  assumes "plain_name cid"
  shows "components (join_path DEFAULT_PARENT cid) = [Normal DEFAULT_PARENT, Normal cid]"
proof -
  have d: "plain_name DEFAULT_PARENT" by (simp add: DEFAULT_PARENT_def plain_name_def)
  then have ne: "DEFAULT_PARENT \<noteq> []" by (simp add: plain_name_def)
  show ?thesis
    using components_join_plain [OF ne assms] components_plain [OF d] by simp
qed

lemma components_default:
  assumes "plain_name cid"
  shows "components (cg_path (cg_attach (join_path DEFAULT_PARENT cid)))
     = components MOUNT_POINT @ [Normal DEFAULT_PARENT, Normal cid]"
proof -
  note c = default_components [OF assms]
  have r: "\<not> has_root (join_path DEFAULT_PARENT cid)"
    using c by (auto simp: components_rooted_iff)
  show ?thesis
    using components_join [of MOUNT_POINT "join_path DEFAULT_PARENT cid"] r components_relative [OF r] c
    by (simp add: cg_attach_def)
qed

text \<open>C31: a group path cannot climb out of the cgroup tree: whatever path the configuration names
  (absolute, with \<open>..\<close>, relative), the group is the mount point followed by exactly the ordinary
  names of that path, and without one it is \<open>mars/<id>\<close> below the mount point.\<close>

theorem cgroup_path_contained:
  assumes "plain_name cid"
  shows "components (cg_path (cg_attach (relative_path cp cid)))
     = components MOUNT_POINT @
       (case cp of
          Some p \<Rightarrow> if p \<noteq> [] then filter (\<lambda>c. normal_part c \<noteq> None) (components p)
                    else [Normal DEFAULT_PARENT, Normal cid]
        | None \<Rightarrow> [Normal DEFAULT_PARENT, Normal cid])"
  using assms
  by (auto simp: relative_path_def components_default components_attach_normalise split: option.split)

lemma cgroup_path_contained_witness:
  "components (cg_path (cg_attach (relative_path (Some ''/../../escape'') ''a'')))
     = components MOUNT_POINT @ [Normal ''escape'']"
proof -
  have "plain_name ''a''" by (simp add: plain_name_def)
  from cgroup_path_contained [OF this, of "Some ''/../../escape''"] show ?thesis
    by (simp add: components_def path_segs_def has_root_def seg_comp_def)
qed

text \<open>nothing stops a configured path without ordinary names: for \<open>/\<close> and \<open>/..\<close> the container's
  group is the mount point itself, the root group of the host.\<close>

theorem cgroup_path_may_be_root:
  "path_eq (cg_path (cg_attach (relative_path (Some ''/'') cid))) MOUNT_POINT
   \<and> path_eq (cg_path (cg_attach (relative_path (Some ''/..'') cid))) MOUNT_POINT"
  by (simp add: relative_path_def path_eq_def components_attach_normalise)
     (simp add: components_def path_segs_def has_root_def seg_comp_def)

subsection \<open>Flat keyed files: printing and parsing\<close>

definition key_text :: "string \<Rightarrow> bool" where
  "key_text k \<longleftrightarrow> k \<noteq> [] \<and> list_all (\<lambda>c. \<not> is_ws c) k"

definition flat_text :: "(string \<times> u64) list \<Rightarrow> string" where
  "flat_text kvs = concat (map (\<lambda>(k, v). k @ '' '' @ show_u64 v @ [newline]) kvs)"

lemma split_by_word: "list_all (\<lambda>c. \<not> p c) w \<Longrightarrow> split_by p w = [w]"
  by (induction w) auto

lemma split_by_sep: "list_all (\<lambda>c. \<not> p c) w \<Longrightarrow> p x \<Longrightarrow> split_by p (w @ x # r) = w # split_by p r"
  by (induction w) auto

lemma digit_not_ws: "is_digit c \<Longrightarrow> \<not> is_ws c"
  by (auto simp: is_digit_def is_ws_def char_code_def)

lemma show_nat_not_ws: "list_all (\<lambda>c. \<not> is_ws c) (show_nat n)"
  using show_nat_digits [of n] by (auto simp: list_all_iff digit_not_ws)

lemma blank_ws: "is_ws blank"
  by (simp add: is_ws_def)

lemma split_key_value:
  "key_text k \<Longrightarrow> split_whitespace (k @ blank # show_u64 v) = [k, show_u64 v]"
  using split_by_sep [of is_ws k blank "show_u64 v"] split_by_word [of is_ws "show_u64 v"]
    show_nat_not_ws [of "unat v"] blank_ws
  by (simp add: split_whitespace_def key_text_def show_u64_def)

lemma newline_ws: "is_ws newline" "is_ws (CHR 0x0D)"
  by (simp_all add: is_ws_def char_code_def)

lemma text_lines_concat:
  "(\<And>l. l \<in> set ls \<Longrightarrow> newline \<notin> set l \<and> CHR 0x0D \<notin> set l) \<Longrightarrow>
   text_lines (concat (map (\<lambda>l. l @ [newline]) ls)) = ls"
proof -
  assume a: "\<And>l. l \<in> set ls \<Longrightarrow> newline \<notin> set l \<and> CHR 0x0D \<notin> set l"
  have split: "split_on newline (concat (map (\<lambda>l. l @ [newline]) ls)) = ls @ [[]]"
    using a by (induction ls) (auto simp: split_on_append_sep split_on_id)
  have "map strip_cr ls = ls"
    using a last_in_set by (fastforce simp: strip_cr_def intro!: map_idI)
  with split show ?thesis by (simp add: text_lines_def)
qed

lemma key_line_chars: "key_text k \<Longrightarrow> c \<in> set (k @ blank # show_u64 v) \<Longrightarrow> c = blank \<or> \<not> is_ws c"
  using show_nat_not_ws [of "unat v"] by (auto simp: key_text_def list_all_iff show_u64_def)

lemma key_line_one_line:
  assumes "key_text k"
  shows "newline \<notin> set (k @ blank # show_u64 v) \<and> CHR 0x0D \<notin> set (k @ blank # show_u64 v)"
  using key_line_chars [OF assms, of newline v] key_line_chars [OF assms, of "CHR 0x0D" v] newline_ws
  by auto

lemma flat_entries:
  assumes "\<And>k v. (k, v) \<in> set kvs \<Longrightarrow> key_text k"
  shows "List.map_filter flat_entry (text_lines (flat_text kvs)) = kvs"
proof -
  let ?line = "\<lambda>(k, v :: u64). k @ blank # show_u64 v"
  have flat: "flat_text kvs = concat (map (\<lambda>l. l @ [newline]) (map ?line kvs))"
    by (induction kvs) (auto simp: flat_text_def)
  have "text_lines (flat_text kvs) = map ?line kvs"
    unfolding flat
  proof (rule text_lines_concat)
    fix l assume "l \<in> set (map ?line kvs)"
    then obtain k v where "(k, v) \<in> set kvs" "l = k @ blank # show_u64 v" by auto
    with assms show "newline \<notin> set l \<and> CHR 0x0D \<notin> set l" using key_line_one_line by blast
  qed
  moreover have "List.map_filter flat_entry (map ?line kvs) = kvs"
    using assms
  proof (induction kvs)
    case (Cons kv kvs)
    obtain k v where [simp]: "kv = (k, v)" by fastforce
    have "key_text k" using Cons.prems [of k v] by simp
    then have "flat_entry (k @ blank # show_u64 v) = Some (k, v)"
      by (simp add: flat_entry_def split_key_value parse_u64_show)
    moreover have "List.map_filter flat_entry (map ?line kvs) = kvs"
      by (rule Cons.IH) (auto intro: Cons.prems)
    ultimately show ?case by (simp add: List.map_filter_def)
  qed (simp add: List.map_filter_def)
  ultimately show ?thesis by simp
qed

text \<open>\<open>parse_flat_keyed\<close> reads back what the kernel prints: of a file of \<open>key value\<close> lines it is the
  map from each key to its value (the last one, should a key repeat).\<close>

theorem parse_flat_keyed_text:
  assumes "\<And>k v. (k, v) \<in> set kvs \<Longrightarrow> key_text k"
  shows "parse_flat_keyed (flat_text kvs) = map_of (rev kvs)"
  using flat_entries [OF assms] by (simp add: parse_flat_keyed_def)

lemma parse_flat_keyed_text_witness:
  "parse_flat_keyed (flat_text [(''populated'', 1), (''frozen'', 0)]) ''frozen'' = Some 0"
proof -
  have "key_text k" if "(k, v) \<in> set [(''populated'', 1), (''frozen'', 0)]" for k and v :: u64
    using that by (auto simp: key_text_def is_ws_def char_code_def)
  then have "parse_flat_keyed (flat_text [(''populated'', 1), (''frozen'', 0)])
      = map_of (rev [(''populated'', 1), (''frozen'', 0)])"
    by (rule parse_flat_keyed_text)
  then show ?thesis by simp
qed

subsection \<open>Applying limits is a list of writes\<close>

text \<open>The contract of \<^verbatim>\<open>apply\<close>: the files and values a set of resources stands for, in order.\<close>

definition opt_list :: "'a option \<Rightarrow> ('a \<Rightarrow> 'b list) \<Rightarrow> 'b list" where
  "opt_list x f = (case x of None \<Rightarrow> [] | Some v \<Rightarrow> f v)"

definition memory_writes :: "memory_res \<Rightarrow> (string \<times> string) list" where
  "memory_writes m =
     opt_list (mem_limit m) (\<lambda>b. [(''memory.max'', limit_value b)])
     @ opt_list (mem_reservation m) (\<lambda>b. [(''memory.low'', limit_value b)])
     @ opt_list (mem_swap m) (\<lambda>s. [(''memory.swap.max'', swap_value s (mem_limit m))])"

definition cpu_writes :: "cpu_res \<Rightarrow> (string \<times> string) list" where
  "cpu_writes c =
     opt_list (cpu_quota c) (\<lambda>q. [(''cpu.max'', cpu_max_value q (opt_or 100000 (cpu_period c)))])
     @ opt_list (cpu_shares c) (\<lambda>s. if s = 0 then [] else [(''cpu.weight'', show_u64 (shares_to_weight s))])
     @ opt_list (cpu_cpus c) (\<lambda>v. if v = [] then [] else [(''cpuset.cpus'', v)])
     @ opt_list (cpu_mems c) (\<lambda>v. if v = [] then [] else [(''cpuset.mems'', v)])"

definition block_io_writes :: "block_io \<Rightarrow> (string \<times> string) list" where
  "block_io_writes b =
     opt_list (bio_weight b) (\<lambda>w. if w = 0 then [] else [(''io.weight'', show_u64 (blkio_to_io_weight w))])
     @ map (Pair ''io.max'') (io_max_lines b)"

definition resource_writes :: "resources \<Rightarrow> (string \<times> string) list" where
  "resource_writes r =
     opt_list (res_memory r) memory_writes @ opt_list (res_cpu r) cpu_writes
     @ opt_list (res_pids r) (\<lambda>n. [(''pids.max'', limit_value n)])
     @ opt_list (res_block_io r) block_io_writes @ opt_list (res_unified r) id"

abbreviation write_all :: "'w os \<Rightarrow> cgroup \<Rightarrow> (string \<times> string) list \<Rightarrow> ('w, unit) io" where
  "write_all os cg \<equiv> for_each (\<lambda>(file, v). cg_write os cg file v)"

lemma opt_list_simps [simp]: "opt_list None f = []" "opt_list (Some v) f = f v"
  by (simp_all add: opt_list_def)

lemma apply_memory_writes: "apply_memory os cg m = write_all os cg (memory_writes m)"
  by (simp add: apply_memory_def memory_writes_def for_each_append split: option.split)

lemma apply_cpu_writes: "apply_cpu os cg c = write_all os cg (cpu_writes c)"
  by (simp add: apply_cpu_def cpu_writes_def for_each_append do_when_def split: option.split)

lemma apply_block_io_writes: "apply_block_io os cg b = write_all os cg (block_io_writes b)"
  by (simp add: apply_block_io_def block_io_writes_def for_each_append for_each_map comp_def do_when_def
        split: option.split)

lemma cg_apply_writes: "cg_apply os cg r = for_each (\<lambda>(file, v). cg_write os cg file v) (resource_writes r)"
  by (simp add: cg_apply_def resource_writes_def for_each_append apply_memory_writes apply_cpu_writes
        apply_block_io_writes split: option.split)

text \<open>\<open>apply\<close> is exactly the writes its resources stand for, in the fixed order memory, cpu, pids,
  block I/O, unified, stopping at the first that fails: as programs the two are equal, so on every
  system they give the same result, the same calls and the same final state.\<close>

theorem apply_is_resource_writes:
  "cg_apply os cg r = for_each (\<lambda>(file, v). cg_write os cg file v) (resource_writes r)"
  by (rule cg_apply_writes)

subsection \<open>Which calls the operations make\<close>

lemma only_cg_write [hoare]: "P (Fs (Write_File (join_path (cg_path cg) file) v)) \<Longrightarrow> only P (cg_write os cg file v)"
  unfolding cg_write_def by (rule only_checked)

lemma only_cg_read [hoare]: "P (Fs (Read_File (join_path (cg_path cg) file))) \<Longrightarrow> only P (cg_read os cg file)"
  unfolding cg_read_def by (rule only_checked)

text \<open>The keys of \<^verbatim>\<open>unified\<close> are joined to the group's path unchecked, so an absolute one names any file of
  the host.\<close>

theorem unified_key_escapes:
  assumes "is_absolute key"
  shows "cg_apply os cg \<lparr>res_memory = None, res_cpu = None, res_pids = None, res_block_io = None, res_unified = Some [(key, v)]\<rparr>
    = io_unit os (Write_File key v)"
  using assms by (simp add: cg_apply_def cg_write_def join_path_def)

lemma only_cg_apply:
  "(\<And>f v. P (Fs (Write_File (join_path (cg_path cg) f) v))) \<Longrightarrow> only P (cg_apply os cg r)"
  unfolding cg_apply_writes by (auto intro!: only_for_each only_cg_write)

lemma only_is_frozen [hoare]:
  "P (Fs (Read_File (join_path (cg_path cg) ''cgroup.events''))) \<Longrightarrow> only P (is_frozen os cg)"
  unfolding is_frozen_def by (intro only_bind only_attempt only_cg_read only_ret)

lemma only_await_frozen:
  "P (Fs (Read_File (join_path (cg_path cg) ''cgroup.events''))) \<Longrightarrow> P (Proc (Sleep_Ms 10)) \<Longrightarrow>
   only P (await_frozen os cg b n)"
  by (induction n) (auto intro!: only_throw only_bind only_is_frozen only_ret only_perform)

lemma only_remove_leaf:
  "P (Fs (Remove_Dir (cg_path cg))) \<Longrightarrow> P (Proc (Sleep_Ms 20)) \<Longrightarrow> only P (remove_leaf os cg n)"
  by (induction n) (auto intro!: only_throw only_bind only_ret only_perform split: sum.split)

subsection \<open>Freezing\<close>

text \<open>The state in which the poll number \<open>i\<close> of \<open>await_frozen\<close> runs.\<close>

fun poll_state :: "'w os \<Rightarrow> cgroup \<Rightarrow> nat \<Rightarrow> 'w st \<Rightarrow> 'w st" where
  "poll_state os cg 0 s = s"
| "poll_state os cg (Suc i) s =
     poll_state os cg i (snd (perform (os_unit os) (Proc (Sleep_Ms 10)) (snd (is_frozen os cg s))))"

lemma is_frozen_total: "\<exists>b. fst (is_frozen os cg s) = Inr b"
  by (auto simp: is_frozen_def bind_def attempt_def ret_def split: prod.split)

lemma await_frozen_iff:
  "fst (await_frozen os cg b n s) = Inr () \<longleftrightarrow>
     (\<exists>i<n. fst (is_frozen os cg (poll_state os cg i s)) = Inr b)"
proof (induction n arbitrary: s)
  case 0
  then show ?case by (simp add: throw_def)
next
  case (Suc n)
  obtain now s1 where obs: "is_frozen os cg s = (Inr now, s1)"
    using is_frozen_total [of os cg s] by (cases "is_frozen os cg s") auto
  have sleep: "perform (os_unit os) (Proc (Sleep_Ms 10)) s1
      = (Inr (fst (os_unit os (Proc (Sleep_Ms 10)) (st_world s1))),
         snd (perform (os_unit os) (Proc (Sleep_Ms 10)) s1))"
    by (simp add: perform_def split: prod.split)
  show ?case
  proof (cases "now = b")
    case True
    with obs show ?thesis by (auto simp: bind_def ret_def intro!: exI [of _ 0])
  next
    case False
    then have "fst (await_frozen os cg b (Suc n) s)
        = fst (await_frozen os cg b n (snd (perform (os_unit os) (Proc (Sleep_Ms 10)) s1)))"
      using obs by (subst await_frozen.simps) (simp add: bind_def, subst sleep, simp)
    then show ?thesis
      using Suc.IH obs False by (auto simp: Ex_less_Suc2)
  qed
qed

text \<open>C32: \<open>freeze\<close> reports success exactly when the request was written and one of its 500 polls then saw
  the group in the requested state: it never claims a freeze it did not observe, and a group that
  gets there in time is never reported as a failure. Any unreadable or unparsable \<open>cgroup.events\<close>
  counts as not frozen.\<close>

theorem freeze_iff_observed:
  "fst (freeze os cg b s) = Inr () \<longleftrightarrow>
     (\<exists>s1. cg_write os cg ''cgroup.freeze'' (if b then ''1'' else ''0'') s = (Inr (), s1)
        \<and> (\<exists>i<500. fst (is_frozen os cg (poll_state os cg i s1)) = Inr b))"
  unfolding freeze_def bind_def [of "cg_write os cg ''cgroup.freeze'' (if b then ''1'' else ''0'')"]
  by (auto simp: await_frozen_iff split: prod.split sum.split)

subsection \<open>Removing a group\<close>

lemma only_any: "only (\<lambda>c. True) (remove_leaf os cg n)"
  by (rule only_remove_leaf) simp_all

lemma does_remove_leaf: "does (remove_leaf os cg (Suc n)) (Fs (Remove_Dir (cg_path cg)), None)"
proof (induction n)
  case 0
  show ?case
    unfolding remove_leaf.simps
    by (rule does_perform) (auto intro: only_ret does_throw)
next
  case (Suc n)
  show ?case
    by (subst remove_leaf.simps, rule does_perform)
       (auto simp del: remove_leaf.simps intro: only_ret does_throw only_perform does_bind2 Suc.IH)
qed

definition destroy_call :: "cgroup \<Rightarrow> call \<Rightarrow> bool" where
  "destroy_call cg c \<longleftrightarrow>
     c = Proc (Sleep_Ms 20) \<or> c = Fs (Remove_Dir (cg_path cg))
     \<or> (\<exists>p. parent (cg_path cg) = Some p \<and> \<not> path_eq p MOUNT_POINT \<and> c = Fs (Remove_Dir p))"

lemma only_destroy: "only (destroy_call cg) (destroy os cg)"
  unfolding destroy_def
  by (auto intro!: only_bind only_remove_leaf only_option only_ret only_ignore only_checked
      simp: destroy_call_def)

text \<open>a successful \<open>destroy\<close> has removed the group's directory, and a run of \<open>destroy\<close>, whatever the
  system answers, removes nothing else than that directory and its parent, the parent never being the
  mount point of the hierarchy.\<close>

theorem destroy_removes_only_group:
  "does (destroy os cg) (Fs (Remove_Dir (cg_path cg)), None) \<and> only (destroy_call cg) (destroy os cg)"
proof
  show "does (destroy os cg) (Fs (Remove_Dir (cg_path cg)), None)"
    unfolding destroy_def numeral_eq_Suc
    by (rule does_bind1 [OF does_remove_leaf [unfolded numeral_eq_Suc]])
       (auto intro!: only_option only_ret only_ignore only_checked)
qed (rule only_destroy)

subsection \<open>Creating a group\<close>

lemma create_groups_path:
  assumes "create_groups os cur cs s = (Inr p, s')" "cur \<noteq> []"
    "\<And>n. Normal n \<in> set cs \<Longrightarrow> plain_name n"
  shows "components p = components cur @ filter (\<lambda>c. normal_part c \<noteq> None) cs"
  using assms
proof (induction cs arbitrary: cur s)
  case Nil
  then show ?case by (simp add: ret_Inr)
next
  case (Cons c cs)
  show ?case
  proof (cases "\<exists>part. c = Normal part")
    case False
    then have "create_groups os cur (c # cs) = create_groups os cur cs"
      by (cases c) auto
    with False Cons show ?thesis by auto
  next
    case True
    then obtain part where c: "c = Normal part" by blast
    with Cons.prems have plain: "plain_name part" by simp
    let ?cur = "join_path cur part"
    have comp: "components ?cur = components cur @ [Normal part]"
      using plain Cons.prems(2) by (simp add: components_join_plain)
    from Cons.prems(1) c obtain s1 where
      "(if cs = [] then ret ?cur else create_groups os ?cur cs) s1 = (Inr p, s')"
      by (auto simp: bind_Inr Let_def)
    with Cons.IH [of ?cur s1] Cons.prems c comp show ?thesis
      by (auto simp: ret_Inr join_path_not_Nil split: if_splits)
  qed
qed

text \<open>a group made by \<open>create\<close> is the one \<open>attach\<close> finds again from the recorded relative path: both
  name the same directory below the mount point, for any configured path and for the default one.\<close>

theorem create_agrees_with_attach:
  assumes "cg_create os rel s = (Inr cg, s')"
    and "rel = relative_path cp cid" and "plain_name cid"
  shows "path_eq (cg_path cg) (cg_path (cg_attach (cg_relative cg))) \<and> cg_relative cg = rel"
proof -
  from assms(1) obtain s1 p where
    run: "create_groups os MOUNT_POINT (components rel) s1 = (Inr p, s')"
    and cg: "cg = \<lparr>cg_path = p, cg_relative = rel\<rparr>"
    by (auto simp: cg_create_def bind_Inr ret_Inr throw_def split: if_splits)
  have "components p = components MOUNT_POINT @ filter (\<lambda>c. normal_part c \<noteq> None) (components rel)"
    by (rule create_groups_path [OF run]) (auto intro: normal_components_plain)
  also have "\<dots> = components (cg_path (cg_attach rel))"
  proof -
    have norm: "normal_part c \<noteq> None" if "c \<in> set (components rel)" for c
      using that assms(2,3) default_components [of cid]
      by (auto simp: relative_path_def components_normalise split: option.splits if_splits)
    have r: "\<not> has_root rel"
      using norm by (fastforce simp: components_rooted_iff)
    show ?thesis
      using norm components_join [of MOUNT_POINT rel] r components_relative [OF r]
      by (fastforce simp: cg_attach_def)
  qed
  finally show ?thesis by (simp add: path_eq_def cg)
qed

lemma create_agrees_with_attach_witness:
  "path_eq (join_path ''/sys/fs/cgroup'' ''mars/a'') (cg_path (cg_attach ''mars/a''))"
proof -
  let ?os = "fixed_os Kind_Dir '''' CGROUP2_SUPER_MAGIC"
  have "fst (cg_create ?os ''mars/a'' start_state)
      = Inr \<lparr>cg_path = ''/sys/fs/cgroup/mars/a'', cg_relative = ''mars/a''\<rparr>"
    by code_simp
  then have run: "cg_create ?os ''mars/a'' start_state
      = (Inr \<lparr>cg_path = ''/sys/fs/cgroup/mars/a'', cg_relative = ''mars/a''\<rparr>,
         snd (cg_create ?os ''mars/a'' start_state))"
    by (rule run_eq)
  have "''mars/a'' = relative_path None ''a''" "plain_name ''a''"
    by (simp_all add: relative_path_def DEFAULT_PARENT_def join_path_def has_root_def plain_name_def)
  from create_agrees_with_attach [OF run this] show ?thesis
    by (simp add: join_path_def has_root_def)
qed

end
