(* ===== verification/Civil_Time.thy ===== *)
theory Civil_Time
  imports Codec
begin

section \<open>Time stamps (state.rs: civil_from_unix, now_rfc3339)\<close>

text \<open>
  The runtime formats its own time stamps. \<open>civil_from_unix\<close> is the source's era arithmetic; it is
  proved against the calendar itself: leap years, month lengths, and days counted from year 1.
\<close>

definition civil_from_unix :: "int \<Rightarrow> int \<times> int \<times> int \<times> int \<times> int \<times> int" where
  "civil_from_unix secs =
     (let days = secs div 86400;
          rm = secs mod 86400;
          z = days + 719468;
          era = z div 146097;
          doe = z mod 146097;
          yoe = (doe - doe div 1460 + doe div 36524 - doe div 146096) div 365;
          y = yoe + era * 400;
          doy = doe - (365 * yoe + yoe div 4 - yoe div 100);
          mp = (5 * doy + 2) div 153;
          d = doy - (153 * mp + 2) div 5 + 1;
          m = (if mp < 10 then mp + 3 else mp - 9)
      in (if m \<le> 2 then y + 1 else y, m, d, rm div 3600, rm mod 3600 div 60, rm mod 60))"

definition now_rfc3339 :: "'w os \<Rightarrow> ('w, string) io" where
  "now_rfc3339 os = bind (perform (os_num os) (Misc Wall_Clock_Ns)) (\<lambda>r.
     let ns = max 0 (unwrap_or 0 r);
         (year, month, day, hour, minute, second) = civil_from_unix (ns div 1000000000)
     in ret (show_padded 4 year @ ''-'' @ show_padded 2 month @ ''-'' @ show_padded 2 day @ ''T''
             @ show_padded 2 hour @ '':'' @ show_padded 2 minute @ '':'' @ show_padded 2 second
             @ ''.'' @ show_padded 9 (ns mod 1000000000) @ ''Z''))"

subsection \<open>The calendar\<close>

definition leap_year :: "int \<Rightarrow> bool" where
  "leap_year y \<longleftrightarrow> y mod 4 = 0 \<and> (y mod 100 \<noteq> 0 \<or> y mod 400 = 0)"

definition month_days :: "bool \<Rightarrow> int \<Rightarrow> int" where
  "month_days leap m =
     (if m = 2 then (if leap then 29 else 28) else if m \<in> {4, 6, 9, 11} then 30 else 31)"

text \<open>The days before the first of a month, by counting.\<close>

fun days_before_month :: "bool \<Rightarrow> nat \<Rightarrow> int" where
  "days_before_month leap 0 = 0"
| "days_before_month leap (Suc m) = days_before_month leap m + (if m = 0 then 0 else month_days leap (int m))"

text \<open>Days since 1 January 1970: whole years, their leap days, whole months, days.\<close>

definition ordinal :: "int \<Rightarrow> int \<Rightarrow> int \<Rightarrow> int" where
  "ordinal y m d =
     365 * (y - 1) + (y - 1) div 4 - (y - 1) div 100 + (y - 1) div 400
     + days_before_month (leap_year y) (nat m) + d - 719163"

definition valid_date :: "int \<Rightarrow> int \<Rightarrow> int \<Rightarrow> bool" where
  "valid_date y m d \<longleftrightarrow> 1 \<le> m \<and> m \<le> 12 \<and> 1 \<le> d \<and> d \<le> month_days (leap_year y) m"

subsection \<open>The year of an era\<close>

definition year_start :: "int \<Rightarrow> int" where
  "year_start y = 365 * y + y div 4 - y div 100"

definition year_score :: "int \<Rightarrow> int" where
  "year_score doe = doe - doe div 1460 + doe div 36524 - doe div 146096"

lemma year_score_step: "year_score doe \<le> year_score (doe + 1)"
proof -
  have a: "(doe + 1) div 1460 \<le> doe div 1460 + 1" by linarith
  define k where "k = doe div 36524"
  have nested: "x div 146096 = (x div 36524) div 4" for x :: int
    by (simp add: zdiv_zmult2_eq)
  have "(doe + 1) div 36524 = k \<or> (doe + 1) div 36524 = k + 1"
    unfolding k_def by linarith
  moreover have "(k + 1) div 4 \<le> k div 4 + 1" by linarith
  ultimately have "k - k div 4 \<le> (doe + 1) div 36524 - ((doe + 1) div 36524) div 4" by auto
  with a show ?thesis by (simp add: year_score_def nested k_def)
qed

lemma year_score_mono: "a \<le> b \<Longrightarrow> year_score a \<le> year_score b"
proof (induction "nat (b - a)" arbitrary: b)
  case (Suc n)
  then have "year_score a \<le> year_score (b - 1)" by simp
  with year_score_step [of "b - 1"] show ?case by simp
qed simp

text \<open>The years of an era, first and last day: 400 evaluations.\<close>

definition year_of_day_ok :: "int \<Rightarrow> bool" where
  "year_of_day_ok y \<longleftrightarrow>
     year_score (year_start y) div 365 = y
     \<and> year_score ((if y = 399 then 146097 else year_start (y + 1)) - 1) div 365 = y"

lemma year_of_day_all: "\<forall>y\<in>set (map int [0..<400]). year_of_day_ok y"
  by code_simp

lemma year_exists:
  "0 \<le> doe \<Longrightarrow> doe < year_start (int n) \<Longrightarrow>
   \<exists>y. 0 \<le> y \<and> y < int n \<and> year_start y \<le> doe \<and> doe < year_start (y + 1)"
proof (induction n)
  case 0
  then show ?case by (simp add: year_start_def)
next
  case (Suc n)
  show ?case
  proof (cases "doe < year_start (int n)")
    case True
    with Suc show ?thesis by fastforce
  next
    case False
    with Suc.prems show ?thesis by (intro exI [of _ "int n"]) (auto simp: add.commute)
  qed
qed

definition year_end :: "int \<Rightarrow> int" where
  "year_end y = (if y = 399 then 146097 else year_start (y + 1))"

lemma year_of_day:
  assumes "0 \<le> doe" "doe < 146097"
  defines "y \<equiv> year_score doe div 365"
  shows "0 \<le> y \<and> y < 400 \<and> year_start y \<le> doe \<and> doe < year_end y"
proof -
  have "\<exists>x. 0 \<le> x \<and> x < 400 \<and> year_start x \<le> doe \<and> doe < year_end x"
  proof (cases "doe < year_start (int 400)")
    case True
    from year_exists [OF assms(1) True] obtain x where
      "0 \<le> x" "x < 400" "year_start x \<le> doe" "doe < year_start (x + 1)" by auto
    moreover have "year_start (399 + 1) \<le> 146097" by (simp add: year_start_def)
    ultimately show ?thesis by (intro exI [of _ x]) (auto simp: year_end_def)
  next
    case False
    then show ?thesis
      using assms by (intro exI [of _ 399]) (auto simp: year_end_def year_start_def)
  qed
  then obtain x where x: "0 \<le> x" "x < 400" "year_start x \<le> doe" "doe < year_end x" by blast
  have "x = int (nat x)" "nat x \<in> set [0..<400]" using x by auto
  then have "x \<in> set (map int [0..<400])" by force
  with year_of_day_all have "year_of_day_ok x" by blast
  then have ends: "year_score (year_start x) div 365 = x" "year_score (year_end x - 1) div 365 = x"
    by (simp_all add: year_of_day_ok_def year_end_def)
  have "year_score (year_start x) \<le> year_score doe" "year_score doe \<le> year_score (year_end x - 1)"
    using x by (auto intro: year_score_mono)
  then have "x \<le> y" "y \<le> x"
    using ends zdiv_mono1 [of _ _ 365] unfolding y_def by (metis zero_less_numeral)+
  with x show ?thesis by auto
qed

text \<open>The month and the day of a day of the March year: 366 evaluations for either kind of year.\<close>

definition month_of :: "int \<Rightarrow> int \<times> int" where
  "month_of doy =
     (let mp = (5 * doy + 2) div 153
      in (if mp < 10 then mp + 3 else mp - 9, doy - (153 * mp + 2) div 5 + 1))"

definition month_ok :: "bool \<Rightarrow> int \<Rightarrow> bool" where
  "month_ok leap doy =
     (case month_of doy of (m, d) \<Rightarrow>
        1 \<le> m \<and> m \<le> 12 \<and> 1 \<le> d \<and> (doy = 365 \<and> \<not> leap \<or> d \<le> month_days leap m)
        \<and> days_before_month leap (nat m) + d
            = (if m \<le> 2 then doy - 305 else doy + 60 + (if leap then 1 else 0)))"

lemma month_all: "\<forall>doy\<in>set (map int [0..<366]). month_ok True doy \<and> month_ok False doy"
  by code_simp

lemma month_ok: "0 \<le> doy \<Longrightarrow> doy < 366 \<Longrightarrow> month_ok leap doy"
proof -
  assume "0 \<le> doy" "doy < 366"
  then have "doy = int (nat doy)" "nat doy \<in> set [0..<366]" by auto
  then have "doy \<in> set (map int [0..<366])" by force
  with month_all show ?thesis by (cases leap) auto
qed

subsection \<open>Days counted from the years\<close>

definition years_days :: "int \<Rightarrow> int" where
  "years_days y = 365 * y + y div 4 - y div 100 + y div 400"

lemma years_days_step:
  "years_days y = years_days (y - 1) + 365 + (if leap_year y then 1 else 0)"
proof -
  have step: "y div n = (y - 1) div n + (if y mod n = 0 then 1 else 0)" if "n > 0" for n :: int
  proof (cases "y mod n = 0")
    case True
    then obtain k where "y = n * k" by auto
    moreover have "(n * k - 1) div n = k - 1"
      using that by (intro div_pos_neg_trivial [THEN trans] int_div_pos_eq [where r = "n - 1"]) (auto simp: algebra_simps)
    ultimately show ?thesis using that by simp
  next
    case False
    then have "0 \<le> y mod n - 1" "y mod n - 1 < n"
      using pos_mod_bound [OF that, of y] pos_mod_sign [OF that, of y] by linarith+
    moreover have "y - 1 = n * (y div n) + (y mod n - 1)" by simp
    ultimately have "(y - 1) div n = y div n" by (intro int_div_pos_eq) auto
    with False show ?thesis by simp
  qed
  define a b c where "a = (y mod 4 = 0)" and "b = (y mod 100 = 0)" and "c = (y mod 400 = 0)"
  have ba: "b \<Longrightarrow> a" unfolding a_def b_def by presburger
  have cb: "c \<Longrightarrow> b" unfolding b_def c_def by presburger
  define p1 p2 p3 where "p1 = y div 4" and "p2 = y div 100" and "p3 = y div 400"
  define q1 q2 q3 where "q1 = (y - 1) div 4" and "q2 = (y - 1) div 100" and "q3 = (y - 1) div 400"
  have "p1 = q1 + (if a then 1 else 0)" unfolding a_def p1_def q1_def by (rule step) simp
  moreover have "p2 = q2 + (if b then 1 else 0)" unfolding b_def p2_def q2_def by (rule step) simp
  moreover have "p3 = q3 + (if c then 1 else 0)" unfolding c_def p3_def q3_def by (rule step) simp
  moreover have "leap_year y = (a \<and> (\<not> b \<or> c))" by (simp only: leap_year_def a_def b_def c_def)
  moreover have "years_days y = 365 * y + p1 - p2 + p3"
    "years_days (y - 1) = 365 * (y - 1) + q1 - q2 + q3"
    by (simp_all only: years_days_def p1_def p2_def p3_def q1_def q2_def q3_def)
  ultimately show ?thesis
    using ba cb by (cases a; cases b; cases c) simp_all
qed

lemma years_days_era: "0 \<le> y \<Longrightarrow> y < 400 \<Longrightarrow> years_days (y + era * 400) = year_start y + era * 146097"
proof -
  assume y: "0 \<le> y" "y < 400"
  have "(y + era * 400) div 4 = y div 4 + era * 100" "(y + era * 400) div 100 = y div 100 + era * 4"
    using div_mult_self1 [of 4 y "era * 100"] div_mult_self1 [of 100 y "era * 4"] by simp_all
  moreover have "(y + era * 400) div 400 = era" using y by simp
  ultimately show ?thesis by (simp add: years_days_def year_start_def)
qed

lemma year_end_days: "0 \<le> y \<Longrightarrow> y < 400 \<Longrightarrow> year_end y + era * 146097 = years_days (y + 1 + era * 400)"
proof (cases "y = 399")
  case True
  have "years_days (400 + era * 400) = 146097 * (era + 1)"
    using years_days_era [of 0 "era + 1"] by (simp add: year_start_def algebra_simps)
  with True show ?thesis by (simp add: year_end_def algebra_simps)
next
  case False
  assume "0 \<le> y" "y < 400"
  with False years_days_era [of "y + 1" era] show ?thesis by (simp add: year_end_def)
qed

lemma ordinal_days: "ordinal y m d = years_days (y - 1) + days_before_month (leap_year y) (nat m) + d - 719163"
  by (simp add: ordinal_def years_days_def)

lemma civil_of_day:
  fixes era :: int
  assumes "0 \<le> y" "y < 400" "year_start y \<le> doe" "doe < year_end y"
    and "month_of (doe - year_start y) = (m, d)"
  defines "c \<equiv> (if m \<le> 2 then y + era * 400 + 1 else y + era * 400)"
  shows "valid_date c m d \<and> ordinal c m d = doe + era * 146097 - 719468"
proof -
  let ?doy = "doe - year_start y" and ?y = "y + era * 400"
  have span: "year_end y = year_start y + 365 + (if leap_year (?y + 1) then 1 else 0)"
    using year_end_days [OF assms(1,2), of era] years_days_era [OF assms(1,2), of era]
      years_days_step [of "?y + 1"] by (simp add: algebra_simps)
  then have doy: "0 \<le> ?doy" "?doy < 366" using assms(3,4) by (auto split: if_splits)
  have last: "?doy = 365 \<Longrightarrow> leap_year (?y + 1)" using span assms(4) by (auto split: if_splits)
  have mo: "1 \<le> m" "m \<le> 12" "1 \<le> d" "?doy = 365 \<and> \<not> leap \<or> d \<le> month_days leap m"
    "days_before_month leap (nat m) + d = (if m \<le> 2 then ?doy - 305 else ?doy + 60 + (if leap then 1 else 0))"
    for leap
    using month_ok [OF doy, of leap] assms(5) by (auto simp: month_ok_def)
  have days: "years_days ?y = year_start y + era * 146097" by (rule years_days_era [OF assms(1,2)])
  show ?thesis
  proof (cases "m \<le> 2")
    case True
    then have c: "c = ?y + 1" by (simp add: c_def)
    have "d \<le> month_days (leap_year c) m" using mo(4) [of "leap_year c"] last c by auto
    moreover have "ordinal c m d = doe + era * 146097 - 719468"
      using mo(5) [of "leap_year c"] True days by (simp add: ordinal_days c)
    ultimately show ?thesis using mo by (simp add: valid_date_def)
  next
    case False
    then have c: "c = ?y" by (simp add: c_def)
    have "d \<le> month_days (leap_year c) m"
    proof (cases "?doy = 365")
      case True
      with assms(5) False show ?thesis by (auto simp: month_of_def Let_def)
    qed (use mo(4) [of "leap_year c"] in auto)
    moreover have "ordinal c m d = doe + era * 146097 - 719468"
      using mo(5) [of "leap_year c"] False days years_days_step [of ?y] by (simp add: ordinal_days c)
    ultimately show ?thesis using mo by (simp add: valid_date_def)
  qed
qed

text \<open>C39: \<open>civil_from_unix\<close> is the proleptic Gregorian calendar, for every number of seconds before or
  after the epoch: the date it gives exists (leap years and month lengths included), is the one whose
  day count from 1970-01-01 is the number of days, and the time of day is the rest.\<close>

theorem civil_from_unix_correct:
  "case civil_from_unix secs of (y, m, d, h, mi, sec) \<Rightarrow>
     valid_date y m d \<and> 86400 * ordinal y m d + 3600 * h + 60 * mi + sec = secs
     \<and> 0 \<le> h \<and> h < 24 \<and> 0 \<le> mi \<and> mi < 60 \<and> 0 \<le> sec \<and> sec < 60"
proof -
  define z where "z = secs div 86400 + 719468"
  define doe where "doe = z mod 146097"
  define era where "era = z div 146097"
  define y where "y = year_score doe div 365"
  define rm where "rm = secs mod 86400"
  obtain m d where md: "month_of (doe - year_start y) = (m, d)" by fastforce
  have "0 \<le> doe" "doe < 146097" by (simp_all add: doe_def)
  from year_of_day [OF this] have y: "0 \<le> y" "y < 400" "year_start y \<le> doe" "doe < year_end y"
    by (simp_all add: y_def)
  let ?c = "if m \<le> 2 then y + era * 400 + 1 else y + era * 400"
  have civil: "civil_from_unix secs = (?c, m, d, rm div 3600, rm mod 3600 div 60, rm mod 60)"
    unfolding civil_from_unix_def Let_def z_def [symmetric] rm_def [symmetric] era_def [symmetric]
      doe_def [symmetric] year_score_def [symmetric] y_def [symmetric] year_start_def [symmetric]
    using md unfolding month_of_def Let_def prod.inject
    by (elim conjE) (simp only:)
  have date: "valid_date ?c m d \<and> ordinal ?c m d = doe + era * 146097 - 719468"
    by (rule civil_of_day [OF y md])
  have "doe + era * 146097 = z" by (simp add: doe_def era_def)
  then have "ordinal ?c m d = secs div 86400" using date by (simp add: z_def)
  then have "86400 * ordinal ?c m d + rm = secs" by (simp add: rm_def)
  moreover have rm: "0 \<le> rm" "rm < 86400" by (simp_all add: rm_def)
  moreover have "3600 * (rm div 3600) + 60 * (rm mod 3600 div 60) + rm mod 60 = rm"
  proof -
    have "rm mod 60 = rm mod 3600 mod 60" by (simp add: mod_mod_cancel)
    then show ?thesis
      using mult_div_mod_eq [of 3600 rm] mult_div_mod_eq [of 60 "rm mod 3600"] by linarith
  qed
  moreover have "0 \<le> rm div 3600" "rm div 3600 < 24" "0 \<le> rm mod 3600 div 60" "rm mod 3600 div 60 < 60"
    using rm pos_mod_bound [of 3600 rm] pos_mod_sign [of 3600 rm] by linarith+
  ultimately show ?thesis using date by (simp add: civil)
qed

end
