(* ===== verification/File_Store.thy ===== *)
theory File_Store
  imports Effects
begin

section \<open>Files as a store\<close>

text \<open>
  What the runtime relies on when it keeps data in files (\<^verbatim>\<open>std::fs\<close>): an interface over an arbitrary
  system \<open>os\<close> with an observation \<open>content\<close>, the text of the file at a path, and a model of the
  standard library's operations on a tree of files that provides it.
\<close>

locale file_store =
  fixes os :: "'w os" and content :: "'w \<Rightarrow> component list \<Rightarrow> string option"
  assumes read_reply: "fst (os_text os (Fs (Read_File p)) w) = Inr t \<longleftrightarrow> content w (components p) = Some t"
    and read_keeps: "content (snd (os_text os (Fs (Read_File p)) w)) = content w"
    and stat_reply: "fst (os_kind os (Fs (Stat p)) w) = Inr Kind_File \<longleftrightarrow> content w (components p) \<noteq> None"
    and stat_keeps: "content (snd (os_kind os (Fs (Stat p)) w)) = content w"
    and write_ok: "os_unit os (Fs (Write_File p t)) w = (Inr (), w') \<Longrightarrow>
      content w' = (content w)(components p \<mapsto> t)"
    and write_fails: "os_unit os (Fs (Write_File p t)) w = (Inl e, w') \<Longrightarrow> k \<noteq> components p \<Longrightarrow>
      content w' k = content w k"
    and rename_ok: "os_unit os (Fs (Rename p q)) w = (Inr (), w') \<Longrightarrow> components p \<noteq> components q \<Longrightarrow>
      content w' = (content w)(components q := content w (components p), components p := None)"
    and rename_fails: "os_unit os (Fs (Rename p q)) w = (Inl e, w') \<Longrightarrow> content w' = content w"
    and mkdir_keeps: "os_unit os (Fs (Create_Dir_All p)) w = (r, w') \<Longrightarrow> content w' = content w"
begin

lemma is_file_run:
  "is_file os p s = (Inr b, s') \<Longrightarrow>
   b = (content (st_world s) (components p) \<noteq> None) \<and> content (st_world s') = content (st_world s)"
  using stat_reply [of p "st_world s"] stat_keeps [of p "st_world s"]
  by (auto simp: is_file_def bind_def perform_def ret_def split: prod.splits)

lemma read_run:
  assumes "io_text os (Read_File p) s = (Inr t, s')"
  shows "content (st_world s) (components p) = Some t \<and> content (st_world s') = content (st_world s)"
proof -
  from assms obtain q w where run: "os_text os (Fs (Read_File p)) (st_world s) = (q, w)"
    and "st_world s' = w" "q = Inr t"
    by (rule checked_run) (auto split: sum.splits)
  then show ?thesis
    using read_reply [of p "st_world s" t] read_keeps [of p "st_world s"] by simp
qed

lemma read_present:
  assumes "content (st_world s) (components p) = Some t"
  shows "fst (io_text os (Read_File p) s) = Inr t"
proof -
  have "fst (os_text os (Fs (Read_File p)) (st_world s)) = Inr t"
    using assms read_reply by blast
  then show ?thesis
    by (cases "os_text os (Fs (Read_File p)) (st_world s)")
       (simp add: checked_def bind_def perform_def ret_def)
qed

lemma write_run:
  "io_unit os (Write_File p t) s = (r, s') \<Longrightarrow>
   (\<forall>k. k \<noteq> components p \<longrightarrow> content (st_world s') k = content (st_world s) k)
   \<and> (r = Inr () \<longrightarrow> content (st_world s') (components p) = Some t)"
proof (erule checked_run)
  fix q w
  assume run: "os_unit os (Fs (Write_File p t)) (st_world s) = (q, w)"
    and w: "st_world s' = w" and r: "r = (case q of Inl e \<Rightarrow> Inl (Io (Fs (Write_File p t)) e) | Inr x \<Rightarrow> Inr x)"
  show ?thesis
  proof (cases q)
    case (Inl e)
    with run w r write_fails [of p t "st_world s" e w] show ?thesis by simp
  next
    case (Inr x)
    with run write_ok [of p t "st_world s" w] w show ?thesis by simp
  qed
qed

lemma rename_run:
  "io_unit os (Rename p q) s = (r, s') \<Longrightarrow> components p \<noteq> components q \<Longrightarrow>
   (r = Inr () \<longrightarrow> content (st_world s') =
      (content (st_world s))(components q := content (st_world s) (components p), components p := None))
   \<and> (r \<noteq> Inr () \<longrightarrow> content (st_world s') = content (st_world s))"
proof (erule checked_run)
  fix u w
  assume ne: "components p \<noteq> components q"
    and run: "os_unit os (Fs (Rename p q)) (st_world s) = (u, w)"
    and w: "st_world s' = w" and r: "r = (case u of Inl e \<Rightarrow> Inl (Io (Fs (Rename p q)) e) | Inr x \<Rightarrow> Inr x)"
  show ?thesis
  proof (cases u)
    case (Inl e)
    with run w r rename_fails [of p q "st_world s" e w] show ?thesis by simp
  next
    case (Inr x)
    with run w r rename_ok [OF _ ne, of "st_world s" w] show ?thesis by simp
  qed
qed

lemma mkdir_run:
  "io_unit os (Create_Dir_All p) s = (r, s') \<Longrightarrow> content (st_world s') = content (st_world s)"
  by (erule checked_run) (auto dest: mkdir_keeps)

end

subsection \<open>A tree of files\<close>

datatype node = Dir | File string

type_synonym tree = "component list \<rightharpoonup> node"

definition EISDIR :: errno where "EISDIR = Errno 21"
definition ENOSYS :: errno where "ENOSYS = Errno 38"
definition ENOTEMPTY :: errno where "ENOTEMPTY = Errno 39"

definition file_at :: "tree \<Rightarrow> component list \<Rightarrow> string option" where
  "file_at t k = (case t k of Some (File v) \<Rightarrow> Some v | _ \<Rightarrow> None)"

definition has_dir :: "tree \<Rightarrow> component list \<Rightarrow> bool" where
  "has_dir t k \<longleftrightarrow> k = [] \<or> k = [RootDir] \<or> t k = Some Dir"

definition tree_write :: "component list \<Rightarrow> string \<Rightarrow> tree \<Rightarrow> (errno + unit) \<times> tree" where
  "tree_write k v t =
     (if has_dir t k then (Inl EISDIR, t)
      else if has_dir t (butlast k) then (Inr (), t(k \<mapsto> File v)) else (Inl ENOENT, t))"

definition tree_mkdir :: "component list \<Rightarrow> tree \<Rightarrow> (errno + unit) \<times> tree" where
  "tree_mkdir k t =
     (if has_dir t k \<or> t k \<noteq> None then (Inl EEXIST, t)
      else if has_dir t (butlast k) then (Inr (), t(k \<mapsto> Dir)) else (Inl ENOENT, t))"

text \<open>\<^verbatim>\<open>create_dir_all\<close>: every missing prefix, from the outermost in.\<close>

fun tree_mkdirs :: "component list list \<Rightarrow> tree \<Rightarrow> (errno + unit) \<times> tree" where
  "tree_mkdirs [] t = (Inr (), t)"
| "tree_mkdirs (k # ks) t =
     (if has_dir t k then tree_mkdirs ks t
      else case tree_mkdir k t of (Inl e, t') \<Rightarrow> (Inl e, t') | (Inr _, t') \<Rightarrow> tree_mkdirs ks t')"

definition prefixes_of :: "'a list \<Rightarrow> 'a list list" where
  "prefixes_of xs = map (\<lambda>n. take (Suc n) xs) [0..<length xs]"

text \<open>Renames of files only, as the runtime's are.\<close>

definition tree_rename :: "component list \<Rightarrow> component list \<Rightarrow> tree \<Rightarrow> (errno + unit) \<times> tree" where
  "tree_rename k q t =
     (case file_at t k of
        None \<Rightarrow> (Inl ENOENT, t)
      | Some v \<Rightarrow>
          if has_dir t q then (Inl EISDIR, t)
          else if \<not> has_dir t (butlast q) then (Inl ENOENT, t)
          else if k = q then (Inr (), t)
          else (Inr (), t(q \<mapsto> File v, k := None)))"

definition tree_remove_all :: "component list \<Rightarrow> tree \<Rightarrow> (errno + unit) \<times> tree" where
  "tree_remove_all k t =
     (if t k = None then (Inl ENOENT, t)
      else (Inr (), \<lambda>j. if take (length k) j = k then None else t j))"

definition tree_remove_file :: "component list \<Rightarrow> tree \<Rightarrow> (errno + unit) \<times> tree" where
  "tree_remove_file k t =
     (if file_at t k = None then (Inl ENOENT, t) else (Inr (), t(k := None)))"

fun tree_unit :: "call \<Rightarrow> tree \<Rightarrow> (errno + unit) \<times> tree" where
  "tree_unit (Fs (Write_File p v)) t = tree_write (components p) v t"
| "tree_unit (Fs (Create_File p)) t = tree_write (components p) [] t"
| "tree_unit (Fs (Create_Dir p)) t = tree_mkdir (components p) t"
| "tree_unit (Fs (Create_Dir_All p)) t = tree_mkdirs (prefixes_of (components p)) t"
| "tree_unit (Fs (Rename p q)) t = tree_rename (components p) (components q) t"
| "tree_unit (Fs (Remove_Dir_All p)) t = tree_remove_all (components p) t"
| "tree_unit (Fs (Remove_File p)) t = tree_remove_file (components p) t"
| "tree_unit _ t = (Inl ENOSYS, t)"

fun tree_text :: "call \<Rightarrow> tree \<Rightarrow> (errno + string) \<times> tree" where
  "tree_text (Fs (Read_File p)) t =
     ((case file_at t (components p) of
         Some v \<Rightarrow> Inr v | None \<Rightarrow> Inl (if has_dir t (components p) then EISDIR else ENOENT)), t)"
| "tree_text _ t = (Inl ENOSYS, t)"

fun tree_kind :: "call \<Rightarrow> tree \<Rightarrow> (errno + file_kind) \<times> tree" where
  "tree_kind (Fs (Stat p)) t =
     ((if file_at t (components p) \<noteq> None then Inr Kind_File
       else if has_dir t (components p) then Inr Kind_Dir else Inl ENOENT), t)"
| "tree_kind _ t = (Inl ENOSYS, t)"

definition tree_os :: "tree os" where
  "tree_os = \<lparr>os_unit = tree_unit, os_kind = tree_kind, os_text = tree_text,
     os_num = \<lambda>c t. (Inl ENOSYS, t), os_names = \<lambda>c t. (Inl ENOSYS, t), os_wait = \<lambda>c t. (Inl ENOSYS, t),
     os_pair = \<lambda>c t. (Inl ENOSYS, t), os_caps = \<lambda>c t. (Inl ENOSYS, t)\<rparr>"

lemma file_at_upd: "file_at (t(k \<mapsto> File v)) = (file_at t)(k \<mapsto> v)"
  by (rule ext) (auto simp: file_at_def)

lemma mkdirs_keep: "tree_mkdirs ks t = (r, t') \<Longrightarrow> file_at t' = file_at t"
proof (induction ks arbitrary: t)
  case (Cons k ks)
  have one: "tree_mkdir k t = (q, u) \<Longrightarrow> file_at u = file_at t" for q u
    by (rule ext) (auto simp: tree_mkdir_def file_at_def split: if_splits)
  from Cons show ?case
    by (auto split: if_splits prod.splits sum.splits dest!: one)
qed simp

lemma rename_keep:
  assumes "tree_rename k q t = (Inr (), t')" "k \<noteq> q"
  shows "file_at t' x = ((file_at t)(q := file_at t k, k := None)) x"
proof -
  obtain v where v: "file_at t k = Some v" and t': "t' = t(q \<mapsto> File v, k := None)"
    using assms by (auto simp: tree_rename_def split: option.splits if_splits)
  show ?thesis unfolding t' v using assms(2) by (simp add: file_at_def)
qed

interpretation tree: file_store tree_os file_at
proof
  show "os_unit tree_os (Fs (Create_Dir_All p)) w = (r, w') \<Longrightarrow> file_at w' = file_at w" for p w r w'
    by (simp add: tree_os_def mkdirs_keep)
  show "os_unit tree_os (Fs (Rename p q)) w = (Inr (), w') \<Longrightarrow> components p \<noteq> components q \<Longrightarrow>
      file_at w' = (file_at w)(components q := file_at w (components p), components p := None)" for p q w w'
    by (rule ext) (simp add: tree_os_def rename_keep)
qed (auto simp: tree_os_def tree_write_def tree_rename_def file_at_upd
      split: option.splits if_splits)

end
