(* ===== verification/State.thy ===== *)
theory State
  imports Paths Cgroup Civil_Time File_Store "HOL-Library.List_Lexorder" "HOL-Library.Char_ord"
begin

section \<open>Persisted state and the status of a container (state.rs)\<close>

text \<open>
  \<^verbatim>\<open>Container\<close> is what the runtime remembers of a container between commands: a JSON file in its
  directory. Its status is not stored; it is derived from the process (by its start time, so that a
  reused process number is not mistaken for it), the freezer and the start fifo.
\<close>

record container =
  con_layout :: layout
  con_state :: persisted

definition con_id :: "container \<Rightarrow> string" where
  "con_id c = per_id (con_state c)"

definition con_pid :: "container \<Rightarrow> pid" where
  "con_pid c = per_pid (con_state c)"

definition con_exec_fifo :: "container \<Rightarrow> path" where
  "con_exec_fifo c = exec_fifo (con_layout c) (con_id c)"

definition con_cgroup :: "container \<Rightarrow> cgroup" where
  "con_cgroup c = cg_attach (per_cgroup (con_state c))"

subsection \<open>The start time of a process\<close>

text \<open>\<^verbatim>\<open>&stat[stat.rfind(c)? + 1..]\<close>.\<close>

fun after_last :: "char \<Rightarrow> string \<Rightarrow> string option" where
  "after_last c [] = None"
| "after_last c (x # xs) =
     (case after_last c xs of Some t \<Rightarrow> Some t | None \<Rightarrow> if x = c then Some xs else None)"

definition parse_start_time :: "string \<Rightarrow> u64 option" where
  "parse_start_time stat =
     (case after_last (CHR '')'') stat of
        None \<Rightarrow> None
      | Some tail \<Rightarrow>
          let ws = split_whitespace tail in if 19 < length ws then parse_u64 (ws ! 19) else None)"

definition stat_path :: "pid \<Rightarrow> path" where
  "stat_path p = ''/proc/'' @ show_int p @ ''/stat''"

definition start_time :: "'w os \<Rightarrow> pid \<Rightarrow> ('w, u64) io" where
  "start_time os p =
     bind (io_text os (Read_File (stat_path p))) (\<lambda>text.
       case parse_start_time text of
         None \<Rightarrow> throw (Invalid (Runtime (Cannot_Parse (stat_path p))))
       | Some t \<Rightarrow> ret t)"

subsection \<open>Operations of Container\<close>

definition container_load :: "'w os \<Rightarrow> codec \<Rightarrow> layout \<Rightarrow> string \<Rightarrow> ('w, container) io" where
  "container_load os cd l cid =
     (let path = state_file l cid in
      bind (is_file os path) (\<lambda>there.
        if \<not> there then throw (NotFound cid)
        else bind (io_text os (Read_File path)) (\<lambda>text.
             bind (json (dec_state cd text)) (\<lambda>st.
               ret \<lparr>con_layout = l, con_state = st\<rparr>))))"

definition STAGED_FILE :: string where "STAGED_FILE = ''state.json.new''"

definition container_save :: "'w os \<Rightarrow> codec \<Rightarrow> layout \<Rightarrow> persisted \<Rightarrow> ('w, unit) io" where
  "container_save os cd l st =
     (let dir = container_dir l (per_id st) in
      bind (io_unit os (Create_Dir_All dir)) (\<lambda>_.
        let path = state_file l (per_id st); staged = join_path dir STAGED_FILE in
        bind (json (enc_state cd st)) (\<lambda>text.
        bind (io_unit os (Write_File staged text)) (\<lambda>_.
              io_unit os (Rename staged path)))))"

definition alive :: "'w os \<Rightarrow> container \<Rightarrow> ('w, bool) io" where
  "alive os c = bind (attempt (start_time os (con_pid c)))
     (\<lambda>r. ret (r = Inr (per_start_time (con_state c))))"

definition container_status :: "'w os \<Rightarrow> container \<Rightarrow> ('w, status) io" where
  "container_status os c =
     bind (alive os c) (\<lambda>live.
       if \<not> live then ret Stopped
       else bind (is_frozen os (con_cgroup c)) (\<lambda>frozen.
         if frozen then ret Paused
         else bind (path_exists os (con_exec_fifo c)) (\<lambda>waiting.
           ret (if waiting then Created else Running))))"

definition oci_state_of :: "'w os \<Rightarrow> container \<Rightarrow> ('w, oci_state) io" where
  "oci_state_of os c =
     bind (container_status os c) (\<lambda>status.
       let st = con_state c in
       ret \<lparr>oci_version = per_oci_version st, oci_id = per_id st, oci_status = status,
            oci_pid = (case status of Stopped \<Rightarrow> None | _ \<Rightarrow> Some (per_pid st)),
            oci_bundle = per_bundle st,
            oci_annotations = (if per_annotations st = [] then None else Some (per_annotations st))\<rparr>)"

definition require :: "'w os \<Rightarrow> container \<Rightarrow> status list \<Rightarrow> ('w, status) io" where
  "require os c expected =
     bind (container_status os c) (\<lambda>actual.
       if actual \<in> set expected then ret actual
       else throw (BadState (con_id c) (status_name actual)
                     (join_with '' or '' (map status_name expected))))"

definition container_remove :: "'w os \<Rightarrow> container \<Rightarrow> ('w, unit) io" where
  "container_remove os c =
     (let dir = container_dir (con_layout c) (con_id c) in
      bind (path_exists os dir) (\<lambda>there. do_when there (io_unit os (Remove_Dir_All dir))))"

subsection \<open>Listing\<close>

text \<open>The entries of the state root; None is a name that is not UTF-8.\<close>

fun load_entries :: "'w os \<Rightarrow> codec \<Rightarrow> layout \<Rightarrow> (errno + string option) list \<Rightarrow> container list \<Rightarrow>
    ('w, container list) io" where
  "load_entries os cd l [] found = ret found"
| "load_entries os cd l (entry # entries) found =
     (case entry of
        Inl e \<Rightarrow> throw (Io (Fs (Read_Dir (lay_root l))) e)
      | Inr None \<Rightarrow> load_entries os cd l entries found
      | Inr (Some cid) \<Rightarrow>
          bind (attempt (container_load os cd l cid)) (\<lambda>r.
            load_entries os cd l entries (case r of Inl e \<Rightarrow> found | Inr c \<Rightarrow> found @ [c])))"

definition list_containers :: "'w os \<Rightarrow> codec \<Rightarrow> layout \<Rightarrow> ('w, container list) io" where
  "list_containers os cd l =
     bind (is_dir os (lay_root l)) (\<lambda>there.
       if \<not> there then ret []
       else bind (checked Io (os_names os) (Fs (Read_Dir (lay_root l)))) (\<lambda>entries.
            bind (load_entries os cd l entries []) (\<lambda>found.
              ret (sort_key (\<lambda>c. per_created (con_state c)) found))))"

definition write_pid_file :: "'w os \<Rightarrow> path option \<Rightarrow> pid \<Rightarrow> ('w, unit) io" where
  "write_pid_file os path p =
     (case path of None \<Rightarrow> ret () | Some f \<Rightarrow> io_unit os (Write_File f (show_int p)))"

subsection \<open>Saving and loading\<close>

lemma staged_plain [simp]: "plain_name STAGED_FILE"
  by (simp add: plain_name_def STAGED_FILE_def)

lemma staged_ne_state:
  assumes "lay_root l \<noteq> []" "validate_id a = Inr ()" "validate_id b = Inr ()"
  shows "components (join_path (container_dir l a) STAGED_FILE) \<noteq> components (state_file l b)"
proof -
  have "STAGED_FILE \<noteq> STATE_FILE" by (simp add: STAGED_FILE_def STATE_FILE_def)
  then show ?thesis
    using components_in_dir [OF assms(1,2) staged_plain] components_files(1) [OF assms(1,3)] by simp
qed

definition load_result :: "codec \<Rightarrow> layout \<Rightarrow> string \<Rightarrow> string option \<Rightarrow> error + container" where
  "load_result cd l cid text =
     (case text of
        None \<Rightarrow> Inl (NotFound cid)
      | Some t \<Rightarrow> (case dec_state cd t of
           None \<Rightarrow> Inl Json | Some st \<Rightarrow> Inr \<lparr>con_layout = l, con_state = st\<rparr>))"

context file_store begin

lemma is_file_total: "fst (is_file os p s) = Inr (content (st_world s) (components p) \<noteq> None)"
  using stat_reply [of p "st_world s"]
  by (cases "os_kind os (Fs (Stat p)) (st_world s)") (simp add: is_file_def bind_def perform_def ret_def)

lemma load_spec:
  "fst (container_load os cd l cid s) = load_result cd l cid (content (st_world s) (components (state_file l cid)))"
proof -
  let ?p = "state_file l cid"
  obtain s1 where there: "is_file os ?p s = (Inr (content (st_world s) (components ?p) \<noteq> None), s1)"
    using run_eq [of "is_file os ?p" s, OF is_file_total] by blast
  note same = is_file_run [OF there, THEN conjunct2]
  show ?thesis
  proof (cases "content (st_world s) (components ?p)")
    case None
    with there show ?thesis by (simp add: container_load_def Let_def bind_def throw_def load_result_def)
  next
    case (Some t)
    then obtain s2 where "io_text os (Read_File ?p) s1 = (Inr t, s2)"
      using run_eq [of "io_text os (Read_File ?p)" s1, OF read_present [of s1 ?p t]] same by auto
    with there Some show ?thesis
      by (simp add: container_load_def Let_def bind_def throw_def ret_def load_result_def json_def split: option.split)
  qed
qed

lemma save_spec:
  assumes "container_save os cd l st s = (r, s')"
    and "components fresh \<noteq> components file"
    and "fresh = join_path (container_dir l (per_id st)) STAGED_FILE" "file = state_file l (per_id st)"
  shows "(\<forall>k. k \<noteq> components fresh \<longrightarrow> k \<noteq> components file \<longrightarrow>
            content (st_world s') k = content (st_world s) k)
    \<and> (case r of Inl e \<Rightarrow> content (st_world s') (components file) = content (st_world s) (components file)
       | Inr _ \<Rightarrow> content (st_world s') (components file) = enc_state cd st \<and> enc_state cd st \<noteq> None)"
proof -
  let ?mk = "io_unit os (Create_Dir_All (container_dir l (per_id st)))"
  obtain r1 s1 where mk: "?mk s = (r1, s1)" by fastforce
  note same1 = mkdir_run [OF mk]
  show ?thesis
  proof (cases "r1 = Inr () \<and> enc_state cd st \<noteq> None")
    case False
    then have "st_world s' = st_world s1 \<and> (\<exists>e. r = Inl e)"
      using assms(1) mk
      by (cases r1) (auto simp: container_save_def Let_def bind_def json_def throw_def split: option.splits)
    with same1 show ?thesis by auto
  next
    case True
    then obtain v where v: "enc_state cd st = Some v" by blast
    obtain r2 s2 where wr: "io_unit os (Write_File fresh v) s1 = (r2, s2)" by fastforce
    note w = write_run [OF wr]
    show ?thesis
    proof (cases r2)
      case (Inl e)
      then have "s' = s2 \<and> r = Inl e"
        using assms(1) mk True v wr by (simp add: container_save_def Let_def bind_def json_def ret_def assms(3))
      with w same1 assms(2) show ?thesis by auto
    next
      case (Inr u)
      then have rn: "io_unit os (Rename fresh file) s2 = (r, s')"
        using assms(1) mk True v wr by (simp add: container_save_def Let_def bind_def json_def ret_def assms(3,4))
      show ?thesis
        using rename_run [OF rn assms(2)] w same1 Inr v assms(2) by (cases r) auto
    qed
  qed
qed

end

text \<open>C14: what \<open>save\<close> wrote, \<open>load\<close> gives back, and no other container is affected: on a file system that
  keeps what is written (\<open>file_store\<close>), with a state whose JSON reads back, a successful save under a
  valid identifier is followed by a load of exactly that state, and every other identifier loads what
  it did before.\<close>

theorem save_load_roundtrip:
  assumes fs: "file_store os content" and root: "lay_root l \<noteq> []" and valid: "validate_id (per_id st) = Inr ()"
    and codec: "enc_state cd st = Some text" "dec_state cd text = Some st"
    and run: "container_save os cd l st s = (Inr (), s')"
    and other: "validate_id b = Inr ()" "b \<noteq> per_id st"
  shows "fst (container_load os cd l (per_id st) s') = Inr \<lparr>con_layout = l, con_state = st\<rparr>
     \<and> fst (container_load os cd l b s') = fst (container_load os cd l b s)"
proof -
  note saved = file_store.save_spec [OF fs run staged_ne_state [OF root valid valid] refl refl]
  have "components (state_file l b) \<noteq> components (state_file l (per_id st))"
    using components_files(1) [OF root valid] components_files(1) [OF root other(1)] other(2) by simp
  then have "content (st_world s') (components (state_file l b)) = content (st_world s) (components (state_file l b))"
    using saved staged_ne_state [OF root valid other(1)] by simp
  with saved codec show ?thesis
    by (simp add: file_store.load_spec [OF fs] load_result_def)
qed

definition sample_state :: persisted where
  "sample_state = \<lparr>per_oci_version = ''1.0.2'', per_id = ''a'', per_pid = 7, per_start_time = 9,
     per_bundle = ''/b'', per_rootfs = ''/b/r'', per_cgroup = ''mars/a'', per_created = '''',
     per_rootless = False, per_annotations = []\<rparr>"

definition sample_codec :: codec where
  "sample_codec = \<lparr>enc_state = \<lambda>st. Some ''{}'', dec_state = \<lambda>t. Some sample_state,
     enc_oci = \<lambda>st. Some ''{}'', enc_msg = \<lambda>m. Some ''{}'', dec_msg = \<lambda>t. None, dec_spec = \<lambda>t. None,
     dec_process = \<lambda>t. None, dec_resources = \<lambda>t. None, enc_states = \<lambda>x. Some ''[]'',
     enc_pids = \<lambda>x. Some ''[]'', enc_event = \<lambda>x. Some ''{}'', enc_spec = \<lambda>x. Some ''{}'',
     enc_json = \<lambda>x. Some ''{}'', display = \<lambda>e. ''''\<rparr>"

definition empty_tree :: "tree st" where
  "empty_tree = \<lparr>st_world = Map.empty, st_trace = [], st_clock = \<lparr>rec_phases = [], rec_open = None, rec_wall_origin = 0\<rparr>\<rparr>"

abbreviation run_root :: layout where "run_root \<equiv> \<lparr>lay_root = ''/run''\<rparr>"

lemma sample_ids: "validate_id ''a'' = Inr ()" "validate_id ''b'' = Inr ()" "per_id sample_state = ''a''"
  by (simp_all add: validate_id_def id_char_def is_alphanumeric_def is_alpha_def char_code_def sample_state_def)

lemma save_load_roundtrip_witness:
  "fst (container_load tree_os sample_codec run_root ''a''
     (snd (container_save tree_os sample_codec run_root sample_state empty_tree)))
   = Inr \<lparr>con_layout = run_root, con_state = sample_state\<rparr>"
proof -
  have "fst (container_save tree_os sample_codec run_root sample_state empty_tree) = Inr ()"
    by code_simp
  note run = run_eq [of "container_save tree_os sample_codec run_root sample_state", OF this]
  have "enc_state sample_codec sample_state = Some ''{}''" "dec_state sample_codec ''{}'' = Some sample_state"
    by (simp_all add: sample_codec_def)
  from save_load_roundtrip [OF tree.file_store_axioms _ _ this run sample_ids(2)]
  show ?thesis using sample_ids by simp
qed

text \<open>a save that fails, at whatever step and even when a write is cut short, leaves every container,
  the saved one included, loading exactly what it loaded before: the new text is written beside the
  state file and takes its place by a rename only when it is complete.\<close>

theorem failed_save_changes_nothing:
  assumes fs: "file_store os content" and root: "lay_root l \<noteq> []" and valid: "validate_id (per_id st) = Inr ()"
    and run: "container_save os cd l st s = (Inl e, s')" and b: "validate_id b = Inr ()"
  shows "fst (container_load os cd l b s') = fst (container_load os cd l b s)"
proof -
  note saved = file_store.save_spec [OF fs run staged_ne_state [OF root valid valid] refl refl]
  have "content (st_world s') (components (state_file l b)) = content (st_world s) (components (state_file l b))"
  proof (cases "components (state_file l b) = components (state_file l (per_id st))")
    case False
    with saved staged_ne_state [OF root valid b] show ?thesis by simp
  qed (use saved in simp)
  then show ?thesis by (simp add: file_store.load_spec [OF fs])
qed

lemma failed_save_changes_nothing_witness:
  "fst (container_load tree_os (sample_codec\<lparr>enc_state := \<lambda>st. None\<rparr>) run_root ''a''
     (snd (container_save tree_os (sample_codec\<lparr>enc_state := \<lambda>st. None\<rparr>) run_root sample_state empty_tree)))
   = Inl (NotFound ''a'')"
proof -
  let ?cd = "sample_codec\<lparr>enc_state := \<lambda>st. None\<rparr>"
  have "fst (container_save tree_os ?cd run_root sample_state empty_tree) = Inl Json"
    by code_simp
  note run = run_eq [of "container_save tree_os ?cd run_root sample_state", OF this]
  have "fst (container_load tree_os ?cd run_root ''a'' empty_tree) = Inl (NotFound ''a'')"
    by code_simp
  with failed_save_changes_nothing [OF tree.file_store_axioms _ _ run sample_ids(1)] sample_ids
  show ?thesis by simp
qed

subsection \<open>Status\<close>

definition stat_says :: "'w os \<Rightarrow> container \<Rightarrow> 'w st \<Rightarrow> bool" where
  "stat_says os c s \<longleftrightarrow>
     (\<exists>t w. os_text os (Fs (Read_File (stat_path (con_pid c)))) (st_world s) = (Inr t, w)
        \<and> parse_start_time t = Some (per_start_time (con_state c)))"

lemma alive_spec: "\<exists>s'. alive os c s = (Inr (stat_says os c s), s')"
proof -
  obtain r w where q: "os_text os (Fs (Read_File (stat_path (con_pid c)))) (st_world s) = (r, w)" by fastforce
  then show ?thesis
    by (cases r)
       (auto simp: alive_def start_time_def checked_def bind_def perform_def attempt_def throw_def
         ret_def stat_says_def split: option.split)
qed

lemma is_frozen_run: "\<exists>b s'. is_frozen os cg s = (Inr b, s')"
  using is_frozen_total [of os cg s] by (cases "is_frozen os cg s") auto

lemma path_exists_run: "\<exists>b s'. path_exists os p s = (Inr b, s')"
  by (simp add: path_exists_def bind_def perform_def ret_def split: prod.split)

lemma status_total: "\<exists>st. fst (container_status os c s) = Inr st \<and> (st = Stopped \<longleftrightarrow> \<not> stat_says os c s) \<and> st \<noteq> Creating"
proof -
  obtain s1 where a: "alive os c s = (Inr (stat_says os c s), s1)" using alive_spec by blast
  show ?thesis
  proof (cases "stat_says os c s")
    case False
    with a show ?thesis by (simp add: container_status_def bind_def ret_def)
  next
    case True
    obtain fz s2 where f: "is_frozen os (con_cgroup c) s1 = (Inr fz, s2)" using is_frozen_run by blast
    obtain x s3 where x: "path_exists os (con_exec_fifo c) s2 = (Inr x, s3)" using path_exists_run by blast
    from a f x True show ?thesis by (auto simp: container_status_def bind_def ret_def)
  qed
qed

text \<open>C37: a container counts as alive exactly while the process with its number has the recorded start
  time: \<open>status\<close> never fails, and it is \<open>Stopped\<close> iff \<open>/proc/<pid>/stat\<close> cannot be read, cannot be
  parsed, or shows another start time, so a reused process number never brings a container back.\<close>

theorem status_stopped_iff:
  "\<exists>st. fst (container_status os c s) = Inr st
     \<and> (st = Stopped) = (\<not> (\<exists>t w. os_text os (Fs (Read_File (stat_path (con_pid c)))) (st_world s) = (Inr t, w)
          \<and> parse_start_time t = Some (per_start_time (con_state c))))"
  using status_total [of os c s] by (auto simp: stat_says_def)

lemma oci_state_run:
  "oci_state_of os c s = (Inr o', s') \<Longrightarrow>
     fst (container_status os c s) = Inr (oci_status o') \<and>
     oci_pid o' = (if oci_status o' = Stopped then None else Some (con_pid c))"
  by (auto simp: oci_state_of_def bind_Inr ret_Inr Let_def con_pid_def split: status.split)

subsection \<open>The fields of /proc/pid/stat\<close>

lemma after_last_None: "after_last c xs = None \<longleftrightarrow> c \<notin> set xs"
  by (induction xs) (auto split: option.splits)

lemma after_last_app: "c \<notin> set ys \<Longrightarrow> after_last c (xs @ c # ys) = Some ys"
proof (induction xs)
  case Nil
  then have "after_last c ys = None" by (simp add: after_last_None)
  then show ?case by simp
qed simp

lemma split_by_join:
  "ws \<noteq> [] \<Longrightarrow> (\<And>w. w \<in> set ws \<Longrightarrow> list_all (\<lambda>c. \<not> is_ws c) w) \<Longrightarrow> split_by is_ws (join_with '' '' ws) = ws"
proof (induction ws)
  case (Cons w ws)
  show ?case
  proof (cases ws)
    case Nil
    with Cons.prems show ?thesis by (simp add: split_by_word)
  next
    case (Cons v vs)
    have "split_by is_ws (join_with '' '' ws) = ws"
      by (rule Cons.IH) (use Cons Cons.prems in auto)
    with Cons Cons.prems(2) [of w] show ?thesis
      by (simp add: join_with_Cons split_by_sep blank_ws)
  qed
qed simp

lemma split_whitespace_join:
  assumes "\<And>w. w \<in> set ws \<Longrightarrow> key_text w"
  shows "split_whitespace (blank # join_with '' '' ws) = ws"
proof (cases "ws = []")
  case True
  then show ?thesis by (simp add: split_whitespace_def blank_ws)
next
  case False
  have "split_by is_ws (join_with '' '' ws) = ws"
    using assms False by (intro split_by_join) (auto simp: key_text_def)
  moreover have "filter (\<lambda>w. w \<noteq> []) ws = ws"
    using assms by (auto simp: key_text_def filter_id_conv)
  ultimately show ?thesis by (simp add: split_whitespace_def blank_ws)
qed

lemma parse_start_time_fields:
  assumes "\<And>w. w \<in> set fds \<Longrightarrow> key_text w \<and> CHR '')'' \<notin> set w"
    and "19 < length fds" and "fds ! 19 = show_u64 t"
  shows "parse_start_time (show_int p @ '' ('' @ comm @ '') '' @ join_with '' '' fds) = Some t"
proof -
  have nopar: "CHR '')'' \<notin> set (join_with '' '' fds)"
    using assms(1)
  proof (induction fds)
    case (Cons w ws)
    then show ?case by (cases ws) auto
  qed simp
  have "after_last (CHR '')'') ((show_int p @ '' ('' @ comm) @ CHR '')'' # blank # join_with '' '' fds)
      = Some (blank # join_with '' '' fds)"
    using nopar by (intro after_last_app) simp
  then have "after_last (CHR '')'') (show_int p @ '' ('' @ comm @ '') '' @ join_with '' '' fds)
      = Some (blank # join_with '' '' fds)"
    by simp
  moreover have "split_whitespace (blank # join_with '' '' fds) = fds"
    using assms(1) by (intro split_whitespace_join) blast
  ultimately show ?thesis
    using assms(2,3) by (simp add: parse_start_time_def parse_u64_show)
qed

text \<open>C38: \<open>parse_start_time\<close> reads field 22 of \<open>/proc/<pid>/stat\<close>, the twentieth after the command name,
  whatever the name is: spaces and parentheses in it do not shift the fields.\<close>

theorem parse_start_time_field_22:
  assumes "\<And>w. w \<in> set fds \<Longrightarrow> key_text w \<and> CHR '')'' \<notin> set w"
    and "19 < length fds" and "fds ! 19 = show_u64 t"
  shows "parse_start_time (show_int p @ '' ('' @ comm @ '') '' @ join_with '' '' fds) = Some t"
  using assms by (rule parse_start_time_fields)

lemma parse_start_time_field_22_witness:
  "parse_start_time (show_int 77 @ '' ('' @ ''my (odd) name'' @ '') '' @ join_with '' '' (replicate 19 ''S'' @ [show_u64 555]))
     = Some 555"
proof -
  let ?fs = "replicate 19 ''S'' @ [show_u64 555]"
  have "key_text w \<and> CHR '')'' \<notin> set w" if "w \<in> set ?fs" for w
  proof -
    from that have "w = ''S'' \<or> w = show_u64 555" by auto
    moreover have "key_text (show_u64 555) \<and> CHR '')'' \<notin> set (show_u64 555)" by code_simp
    moreover have "key_text ''S'' \<and> CHR '')'' \<notin> set ''S''" by code_simp
    ultimately show ?thesis by blast
  qed
  then show ?thesis by (rule parse_start_time_field_22) (simp_all add: nth_append)
qed

subsection \<open>require and list\<close>

lemma container_status_run: "\<exists>st s'. container_status os c s = (Inr st, s') \<and> st \<noteq> Creating"
  using status_total [of os c s] by (cases "container_status os c s") auto

text \<open>\<open>require\<close> is a guard on the observed status and nothing else: it succeeds exactly when the
  status it observes is among the expected ones, gives that status, and otherwise fails with a
  \<open>BadState\<close> error that names the observed status; observing is all it does to the system.\<close>

theorem require_guard:
  "\<exists>st s'. container_status os c s = (Inr st, s') \<and>
     require os c expected s =
       (if st \<in> set expected then Inr st
        else Inl (BadState (con_id c) (status_name st) (join_with '' or '' (map status_name expected))), s')"
proof -
  obtain st s' where "container_status os c s = (Inr st, s')"
    using container_status_run [of os c s] by blast
  then show ?thesis by (simp add: require_def bind_def ret_def throw_def)
qed

lemma is_dir_run: "\<exists>b s'. is_dir os p s = (Inr b, s')"
  by (simp add: is_dir_def bind_def perform_def ret_def split: prod.split)

lemma container_load_layout: "container_load os cd l cid s = (Inr c, s') \<Longrightarrow> con_layout c = l"
  by (auto simp: container_load_def Let_def bind_Inr ret_Inr throw_run split: if_splits)

definition listed_ok :: "layout \<Rightarrow> container list \<Rightarrow> error + container list \<Rightarrow> bool" where
  "listed_ok l found r =
     (case r of
        Inr cs \<Rightarrow> \<exists>ds. cs = found @ ds \<and> set (map con_layout ds) \<subseteq> {l}
      | Inl e \<Rightarrow> \<exists>n. e = Io (Fs (Read_Dir (lay_root l))) n)"

lemma load_entries_spec: "listed_ok l found (fst (load_entries os cd l es found s))"
proof (induction es arbitrary: found s)
  case (Cons x xs)
  show ?case
  proof (cases x)
    case (Inl e)
    then show ?thesis by (simp add: throw_def listed_ok_def)
  next
    case (Inr n)
    show ?thesis
    proof (cases n)
      case None
      with Inr Cons show ?thesis by simp
    next
      case (Some cid)
      obtain r s1 where r: "container_load os cd l cid s = (r, s1)" by fastforce
      define found' where "found' = (case r of Inl e \<Rightarrow> found | Inr c \<Rightarrow> found @ [c])"
      have step: "load_entries os cd l (x # xs) found s = load_entries os cd l xs found' s1"
        using Inr Some r by (simp add: bind_def attempt_def found'_def)
      have "listed_ok l found' q \<Longrightarrow> listed_ok l found q" for q
        using r by (cases r) (auto simp: listed_ok_def found'_def container_load_layout split: sum.splits)
      with Cons.IH [of found' s1] step show ?thesis by simp
    qed
  qed
qed (simp add: ret_def listed_ok_def)

text \<open>\<open>list\<close> shows the containers that load, in the order of their creation stamps, and one that does
  not load (a half-written or foreign directory) never makes it fail: the only errors are those of
  reading the root directory itself.\<close>

theorem list_sorted_and_total:
  "case fst (list_containers os cd l s) of
     Inr cs \<Rightarrow> sorted (map (\<lambda>c. per_created (con_state c)) cs) \<and> set (map con_layout cs) \<subseteq> {l}
   | Inl e \<Rightarrow> (\<exists>n. e = Io (Fs (Read_Dir (lay_root l))) n)"
proof -
  obtain d s1 where d: "is_dir os (lay_root l) s = (Inr d, s1)"
    using is_dir_run by blast
  obtain q s2 where q: "checked Io (os_names os) (Fs (Read_Dir (lay_root l))) s1 = (q, s2)" by fastforce
  show ?thesis
  proof (cases d)
    case False
    with d show ?thesis by (simp add: list_containers_def bind_def ret_def)
  next
    case True
    show ?thesis
    proof (cases q)
      case (Inl e)
      have "\<exists>n. e = Io (Fs (Read_Dir (lay_root l))) n"
        by (rule checked_run [OF q]) (use Inl in \<open>auto split: sum.splits\<close>)
      with d True q Inl show ?thesis by (simp add: list_containers_def bind_def)
    next
      case (Inr es)
      obtain u s3 where u: "load_entries os cd l es [] s2 = (u, s3)" by fastforce
      have "listed_ok l [] u" using load_entries_spec [of l "[]" os cd es s2] u by simp
      with d True q Inr u show ?thesis
        by (cases u) (auto simp: list_containers_def bind_def ret_def listed_ok_def)
    qed
  qed
qed

end
