(* ===== verification/Ordering.thy ===== *)
theory Ordering
  imports Effects
begin

section \<open>Ordering rules\<close>

text \<open>
  Rules for statements of the form "this call is only made after that event": \<open>ensures P m\<close> says that
  a successful run of \<open>m\<close> contains an event of \<open>P\<close>, and \<open>guarded P Q m\<close> that in every run, failed ones
  included, each call of \<open>Q\<close> comes after an event of \<open>P\<close>. \<open>fails_before Q m\<close>: a failed run made no call
  of \<open>Q\<close>. The rules follow the combinators.
\<close>

named_theorems ordering "rules of ensures and guarded"

lemma checked_ok: "checked wrap f c s = (Inr x, s') \<Longrightarrow> st_trace s' = st_trace s @ [(c, None)]"
  by (erule checked_event) auto

lemma lift_Inr: "lift q s = (Inr x, s') \<longleftrightarrow> q = Inr x \<and> s' = s"
  by (auto simp: lift_def)

lemma throw_Inr [simp]: "throw e s \<noteq> (Inr x, s')"
  by (simp add: throw_def)

definition ensures :: "(event \<Rightarrow> bool) \<Rightarrow> ('w, 'a) io \<Rightarrow> bool" where
  "ensures P m \<longleftrightarrow> emits m (\<lambda>r tr. (\<exists>x. r = Inr x) \<longrightarrow> (\<exists>ev\<in>set tr. P ev))"

definition after :: "(event \<Rightarrow> bool) \<Rightarrow> (call \<Rightarrow> bool) \<Rightarrow> event list \<Rightarrow> bool" where
  "after P Q tr \<longleftrightarrow> (\<forall>t1 ev t2. tr = t1 @ ev # t2 \<longrightarrow> Q (fst ev) \<longrightarrow> (\<exists>g\<in>set t1. P g))"

definition guarded :: "(event \<Rightarrow> bool) \<Rightarrow> (call \<Rightarrow> bool) \<Rightarrow> ('w, 'a) io \<Rightarrow> bool" where
  "guarded P Q m \<longleftrightarrow> emits m (\<lambda>r tr. after P Q tr)"

lemma after_Nil [simp]: "after P Q []"
  by (simp add: after_def)

lemma after_none: "list_all (\<lambda>ev. \<not> Q (fst ev)) tr \<Longrightarrow> after P Q tr"
  by (auto simp: after_def)

lemma afterD: "after P Q (t1 @ ev # t2) \<Longrightarrow> Q (fst ev) \<Longrightarrow> \<exists>g\<in>set t1. P g"
  unfolding after_def by blast

lemma afterI: "(\<And>t1 ev t2. tr = t1 @ ev # t2 \<Longrightarrow> Q (fst ev) \<Longrightarrow> \<exists>g\<in>set t1. P g) \<Longrightarrow> after P Q tr"
  unfolding after_def by blast

lemma split_append_at:
  assumes "t1 @ t2 = u @ ev # v"
  obtains w where "t1 = u @ ev # w" | w where "u = t1 @ w" "t2 = w @ ev # v"
proof (cases "length u < length t1")
  case True
  have "take (length t1) (u @ ev # v) = t1" using assms [symmetric] by simp
  with True have "t1 = u @ ev # take (length t1 - length u - 1) v"
    by (simp add: take_Cons' split: if_splits)
  then show thesis using that(1) by blast
next
  case False
  then have "u = t1 @ drop (length t1) u" "t2 = drop (length t1) u @ ev # v"
    using arg_cong [OF assms, of "take (length t1)"] arg_cong [OF assms, of "drop (length t1)"]
    by (simp_all, metis append_take_drop_id)
  then show thesis using that(2) by blast
qed

lemma after_append:
  assumes "after P Q t1" "after P Q t2"
  shows "after P Q (t1 @ t2)"
proof (rule afterI)
  fix u ev v assume split: "t1 @ t2 = u @ ev # v" and q: "Q (fst ev)"
  from split show "\<exists>g\<in>set u. P g"
    by (rule split_append_at) (use assms q in \<open>auto dest: afterD\<close>)
qed

lemma after_ensured:
  assumes "after P Q t1" "\<exists>ev\<in>set t1. P ev"
  shows "after P Q (t1 @ t2)"
proof (rule afterI)
  fix u ev v assume split: "t1 @ t2 = u @ ev # v" and q: "Q (fst ev)"
  from split show "\<exists>g\<in>set u. P g"
    by (rule split_append_at) (use assms q in \<open>auto dest: afterD\<close>)
qed

lemma any_call: "only P m \<Longrightarrow> only (\<lambda>c. True) m"
  by (erule only_weaken) simp

lemma ensures_bind1: "ensures P m \<Longrightarrow> (\<And>x. only (\<lambda>c. True) (f x)) \<Longrightarrow> ensures P (bind m f)"
  unfolding ensures_def only_def by (erule emits_bind, assumption) auto

lemma ensures_bind2: "only (\<lambda>c. True) m \<Longrightarrow> (\<And>x. ensures P (f x)) \<Longrightarrow> ensures P (bind m f)"
  unfolding ensures_def only_def by (erule emits_bind, assumption) auto

lemma ensures_checked [ordering]: "P (c, None) \<Longrightarrow> ensures P (checked wrap f c)"
  unfolding ensures_def by (rule emits_checked) auto

lemma ensures_throw [ordering]: "ensures P (throw e)"
  unfolding ensures_def by (rule emits_throw) simp

lemma ensures_if [ordering]: "(b \<Longrightarrow> ensures P m) \<Longrightarrow> (\<not> b \<Longrightarrow> ensures P n) \<Longrightarrow> ensures P (if b then m else n)"
  by simp

lemma ensures_does: "does m ev \<longleftrightarrow> ensures (\<lambda>x. x = ev) m"
  by (simp add: does_def ensures_def)

lemma guarded_only: "only (\<lambda>c. \<not> Q c) m \<Longrightarrow> guarded P Q m"
  unfolding guarded_def only_def by (erule emits_weaken) (rule after_none)

lemma guarded_bind: "guarded P Q m \<Longrightarrow> (\<And>x. guarded P Q (f x)) \<Longrightarrow> guarded P Q (bind m f)"
  unfolding guarded_def by (erule emits_bind, assumption) (auto intro: after_append)

lemma emits_conj: "emits m R \<Longrightarrow> emits m S \<Longrightarrow> emits m (\<lambda>r tr. R r tr \<and> S r tr)"
  by (fastforce simp: emits_def)

lemma guarded_then:
  assumes "guarded P Q m" "ensures P m" "\<And>x. only (\<lambda>c. True) (f x)"
  shows "guarded P Q (bind m f)"
  unfolding guarded_def
proof (rule emits_bind)
  show "emits m (\<lambda>r tr. after P Q tr \<and> ((\<exists>x. r = Inr x) \<longrightarrow> (\<exists>ev\<in>set tr. P ev)))"
    using emits_conj assms(1,2) unfolding guarded_def ensures_def .
  show "emits (f x) (\<lambda>r tr. True)" for x
    using assms(3) [of x] unfolding only_def by (rule emits_True)
qed (auto intro: after_ensured)

lemma guarded_if [ordering]: "(b \<Longrightarrow> guarded P Q m) \<Longrightarrow> (\<not> b \<Longrightarrow> guarded P Q n) \<Longrightarrow> guarded P Q (if b then m else n)"
  by simp

lemma guarded_trace: "guarded P Q m \<Longrightarrow> m s = (r, s') \<Longrightarrow> \<exists>tr. st_trace s' = st_trace s @ tr \<and> after P Q tr"
  unfolding guarded_def by (rule emitsD)

lemma guarded_skip: "only (\<lambda>c. \<not> Q c) m \<Longrightarrow> (\<And>x. guarded P Q (f x)) \<Longrightarrow> guarded P Q (bind m f)"
  by (rule guarded_bind, rule guarded_only)

lemma guarded_attempt: "guarded P Q m \<Longrightarrow> guarded P Q (attempt m)"
  unfolding guarded_def by (rule emits_attempt)

text \<open>A single call, as the first step of a program.\<close>

lemma guarded_checked [ordering]: "\<not> Q c \<Longrightarrow> guarded P Q (checked wrap f c)"
  by (intro guarded_only only_checked)

end
