(* ===== verification/Userns.thy ===== *)
theory Userns
  imports State Ordering
begin

section \<open>Identity mappings of a user namespace (container/userns.rs)\<close>

text \<open>
  The runtime, outside the new user namespace, writes the maps of the process inside it: directly
  when it may, through the setuid helpers otherwise.
\<close>

record mappings =
  uid_maps :: "id_mapping list"
  gid_maps :: "id_mapping list"

definition mappings_empty :: "mappings \<Rightarrow> bool" where
  "mappings_empty m \<longleftrightarrow> uid_maps m = [] \<and> gid_maps m = []"

definition proc_file :: "pid \<Rightarrow> string \<Rightarrow> path" where
  "proc_file p file = ''/proc/'' @ show_int p @ ''/'' @ file"

definition deny_setgroups :: "'w os \<Rightarrow> pid \<Rightarrow> bool \<Rightarrow> ('w, unit) io" where
  "deny_setgroups os p privileged =
     (if privileged then ret () else io_unit os (Write_File (proc_file p ''setgroups'') ''deny''))"

definition render_one :: "id_mapping \<Rightarrow> string" where
  "render_one m = show_u32 (map_container m) @ [blank] @ show_u32 (map_host m) @ [blank] @ show_u32 (map_size m) @ [newline]"

definition render :: "id_mapping list \<Rightarrow> string" where
  "render ms = concat (map render_one ms)"

definition HELPER_DIRS :: "path list" where
  "HELPER_DIRS = [''/usr/bin'', ''/bin'', ''/usr/sbin'', ''/sbin'', ''/usr/local/bin'']"

fun find_file :: "'w os \<Rightarrow> path list \<Rightarrow> ('w, path option) io" where
  "find_file os [] = ret None"
| "find_file os (p # ps) = bind (is_file os p) (\<lambda>there. if there then ret (Some p) else find_file os ps)"

definition locate :: "'w os \<Rightarrow> string \<Rightarrow> ('w, path option) io" where
  "locate os helper = find_file os (map (\<lambda>dir. join_path dir helper) HELPER_DIRS)"

definition helper_args :: "pid \<Rightarrow> id_mapping list \<Rightarrow> string list" where
  "helper_args p ms =
     show_int p # concat (map (\<lambda>m. [show_u32 (map_container m), show_u32 (map_host m), show_u32 (map_size m)]) ms)"

definition run_helper :: "'w os \<Rightarrow> string \<Rightarrow> pid \<Rightarrow> id_mapping list \<Rightarrow> ('w, unit) io" where
  "run_helper os helper p ms =
     bind (locate os helper) (\<lambda>found.
       case found of
         None \<Rightarrow> throw (Invalid (Runtime (Helper_Missing helper)))
       | Some binary \<Rightarrow>
           bind (checked Io (os_wait os) (Proc (Run_Command binary (helper_args p ms)))) (\<lambda>st.
             case st of
               Exited q code \<Rightarrow>
                 if code = 0 then ret () else throw (Invalid (Runtime (Helper_Failed binary)))
             | _ \<Rightarrow> throw (Invalid (Runtime (Helper_Failed binary)))))"

definition write_one :: "'w os \<Rightarrow> pid \<Rightarrow> string \<Rightarrow> id_mapping list \<Rightarrow> bool \<Rightarrow> string \<Rightarrow> ('w, unit) io" where
  "write_one os p file ms privileged helper =
     bind (perform (os_unit os) (Fs (Write_File (proc_file p file) (render ms)))) (\<lambda>r.
       case r of
         Inr u \<Rightarrow> ret ()
       | Inl e \<Rightarrow>
           if privileged then throw (Io (Fs (Write_File (proc_file p file) (render ms))) e)
           else run_helper os helper p ms)"

definition userns_write :: "'w os \<Rightarrow> pid \<Rightarrow> mappings \<Rightarrow> bool \<Rightarrow> ('w, unit) io" where
  "userns_write os p m privileged =
     (if uid_maps m = [] \<or> gid_maps m = [] then throw (Invalid (Runtime Needs_Both_Maps))
      else
        bind (deny_setgroups os p privileged) (\<lambda>_.
        bind (write_one os p ''uid_map'' (uid_maps m) privileged ''newuidmap'') (\<lambda>_.
              write_one os p ''gid_map'' (gid_maps m) privileged ''newgidmap'')))"

subsection \<open>The text of a map\<close>

text \<open>How the kernel reads a map: one line per range, three numbers.\<close>

definition parse_map_line :: "string \<Rightarrow> id_mapping option" where
  "parse_map_line l =
     (case map parse_u32 (split_whitespace l) of
        [Some c, Some h, Some n] \<Rightarrow> Some \<lparr>map_container = c, map_host = h, map_size = n\<rparr>
      | _ \<Rightarrow> None)"

definition parse_map :: "string \<Rightarrow> id_mapping option list" where
  "parse_map v = map parse_map_line (text_lines v)"

definition map_words :: "id_mapping \<Rightarrow> string list" where
  "map_words m = [show_u32 (map_container m), show_u32 (map_host m), show_u32 (map_size m)]"

lemma show_u32_key: "key_text (show_u32 n)"
  using show_nat_not_ws [of "unat n"] by (simp add: key_text_def show_u32_def)

lemma render_lines: "render ms = concat (map (\<lambda>l. l @ [newline]) (map (\<lambda>m. join_with '' '' (map_words m)) ms))"
  by (induction ms) (simp_all add: render_def render_one_def map_words_def)

lemma parse_map_words: "parse_map_line (join_with '' '' (map_words m)) = Some m"
proof -
  have "split_whitespace (blank # join_with '' '' (map_words m)) = map_words m"
    by (rule split_whitespace_join) (auto simp: map_words_def show_u32_key)
  then have "split_whitespace (join_with '' '' (map_words m)) = map_words m"
    by (simp add: split_whitespace_def blank_ws)
  then show ?thesis by (cases m) (simp add: parse_map_line_def map_words_def parse_u32_show)
qed

lemma map_words_one_line: "c \<in> set (join_with '' '' (map_words m)) \<Longrightarrow> c = blank \<or> \<not> is_ws c"
  using show_u32_key by (fastforce simp: map_words_def key_text_def list_all_iff)

text \<open>the body written to \<open>uid_map\<close> and \<open>gid_map\<close> is one line per configured range, in order, and reads
  back as exactly the configured container id, host id and size of each.\<close>

theorem render_reads_back: "parse_map (render ms) = map Some ms"
proof -
  let ?ls = "map (\<lambda>m. join_with '' '' (map_words m)) ms"
  have "text_lines (render ms) = ?ls"
    unfolding render_lines
    by (rule text_lines_concat) (use map_words_one_line newline_ws in fastforce)
  then show ?thesis by (simp add: parse_map_def parse_map_words)
qed

subsection \<open>The order of the writes\<close>

definition writes_file :: "path \<Rightarrow> call \<Rightarrow> bool" where
  "writes_file p c = (case c of Fs (Write_File q v) \<Rightarrow> q = p | _ \<Rightarrow> False)"

lemma writes_file_simps [simp]:
  "writes_file p (Fs (Write_File q v)) \<longleftrightarrow> q = p"
  "\<not> writes_file p (Fs (Stat q))" "\<not> writes_file p (Proc c)"
  by (simp_all add: writes_file_def)

lemma proc_file_eq [simp]: "proc_file p a = proc_file p b \<longleftrightarrow> a = b"
  by (simp add: proc_file_def)

lemma only_find_file [hoare]: "(\<And>p. p \<in> set ps \<Longrightarrow> P (Fs (Stat p))) \<Longrightarrow> only P (find_file os ps)"
  by (induction ps) (auto intro!: hoare)

lemma only_run_helper [hoare]:
  "(\<And>p. P (Fs (Stat p))) \<Longrightarrow> (\<And>b a. P (Proc (Run_Command b a))) \<Longrightarrow> only P (run_helper os helper p ms)"
  unfolding run_helper_def locate_def by (auto intro!: hoare split: option.split wait_status.split)

lemma only_write_one [hoare]:
  "P (Fs (Write_File (proc_file p file) (render ms))) \<Longrightarrow> (\<And>q. P (Fs (Stat q))) \<Longrightarrow>
   (\<And>b a. P (Proc (Run_Command b a))) \<Longrightarrow> only P (write_one os p file ms privileged helper)"
  unfolding write_one_def by (auto intro!: hoare split: sum.split)

lemma only_userns_write [hoare]:
  "(\<And>q v. P (Fs (Write_File q v))) \<Longrightarrow> (\<And>q. P (Fs (Stat q))) \<Longrightarrow>
   (\<And>b a. P (Proc (Run_Command b a))) \<Longrightarrow> only P (userns_write os p m privileged)"
  unfolding userns_write_def deny_setgroups_def by (auto intro!: hoare)

text \<open>C27: an unprivileged runtime writes \<open>gid_map\<close> only after it has denied \<open>setgroups\<close>, as the kernel demands;
  a privileged one leaves \<open>setgroups\<close> alone and never runs a helper. A mapping that lacks the user or
  the group side is refused before anything is written.\<close>

theorem userns_write_order:
  "guarded (\<lambda>ev. ev = (Fs (Write_File (proc_file p ''setgroups'') ''deny''), None))
      (\<lambda>c. writes_file (proc_file p ''gid_map'') c \<or> writes_file (proc_file p ''uid_map'') c)
      (userns_write os p m False)
   \<and> only (\<lambda>c. (\<exists>file ms. file \<in> {''uid_map'', ''gid_map''} \<and> c = Fs (Write_File (proc_file p file) (render ms))))
      (userns_write os p m True)
   \<and> (uid_maps m = [] \<or> gid_maps m = [] \<longrightarrow>
        userns_write os p m privileged s = (Inl (Invalid (Runtime Needs_Both_Maps)), s))"
proof (intro conjI impI)
  show "guarded (\<lambda>ev. ev = (Fs (Write_File (proc_file p ''setgroups'') ''deny''), None))
      (\<lambda>c. writes_file (proc_file p ''gid_map'') c \<or> writes_file (proc_file p ''uid_map'') c)
      (userns_write os p m False)"
    unfolding userns_write_def deny_setgroups_def
    by (rule guarded_if, rule guarded_only, rule only_throw, rule guarded_then)
       (auto intro!: guarded_checked ensures_checked hoare)
  show "only (\<lambda>c. (\<exists>file ms. file \<in> {''uid_map'', ''gid_map''} \<and> c = Fs (Write_File (proc_file p file) (render ms))))
      (userns_write os p m True)"
    unfolding userns_write_def deny_setgroups_def write_one_def
    by (auto intro!: hoare split: sum.split)
qed (auto simp: userns_write_def throw_def)

lemma userns_write_order_witness:
  "userns_write (fixed_os Kind_File [] 0) 7 \<lparr>uid_maps = [], gid_maps = []\<rparr> False start_state
     = (Inl (Invalid (Runtime Needs_Both_Maps)), start_state)"
  using userns_write_order
    [of 7 "fixed_os Kind_File [] 0" "\<lparr>uid_maps = [], gid_maps = []\<rparr>" False start_state] by simp

end
