(* ===== verification/Bundle.thy ===== *)
theory Bundle
  imports Validate Overlay Userns Codec
begin

section \<open>Bundles (bundle/mod.rs)\<close>

text \<open>
  A bundle is a directory with a validated configuration. Its accessors give the parts of the
  configuration with their defaults; \<^verbatim>\<open>resolve_executable\<close> searches the container's path.
\<close>

definition OCI_VERSION :: string where "OCI_VERSION = ''1.0.2''"

definition DEFAULT_PATH :: string where
  "DEFAULT_PATH = ''/usr/local/sbin:/usr/local/bin:/usr/sbin:/usr/bin:/sbin:/bin''"

record run_bundle =
  bun_dir :: path
  bun_spec :: spec

definition bundle_load :: "'w os \<Rightarrow> codec \<Rightarrow> path \<Rightarrow> ('w, run_bundle) io" where
  "bundle_load os cd given =
     bind (checked Io (os_text os) (Fs (Canonicalize given))) (\<lambda>dir.
       let config = join_path dir ''config.json'' in
       bind (is_file os config) (\<lambda>there.
         if \<not> there then throw (MissingConfig dir)
         else
           bind (io_text os (Read_File config)) (\<lambda>t.
           bind (json (dec_spec cd t)) (\<lambda>sp.
           bind (lift (validate_spec sp)) (\<lambda>_.
             ret \<lparr>bun_dir = dir, bun_spec = sp\<rparr>)))))"

subsection \<open>Accessors\<close>

definition bun_annotations :: "run_bundle \<Rightarrow> annotations" where
  "bun_annotations b = opt_or [] (spec_annotations (bun_spec b))"

definition bun_overlay :: "run_bundle \<Rightarrow> error + layers option" where
  "bun_overlay b = from_annotations (bun_annotations b) (bun_dir b)"

definition bun_rootfs :: "run_bundle \<Rightarrow> error + path" where
  "bun_rootfs b =
     rbind (ok_or (SpecField ''root'') (spec_root (bun_spec b))) (\<lambda>root.
       Inr (if is_absolute (root_path root) then root_path root else join_path (bun_dir b) (root_path root)))"

text \<open>\<^verbatim>\<open>linux().and_then(field).unwrap_or_default()\<close>.\<close>

definition linux_list :: "(linux_spec \<Rightarrow> 'a list option) \<Rightarrow> run_bundle \<Rightarrow> 'a list" where
  "linux_list field b = opt_or [] (Option.bind (spec_linux (bun_spec b)) field)"

definition bun_namespaces :: "run_bundle \<Rightarrow> linux_namespace list" where
  "bun_namespaces = linux_list lin_namespaces"

definition bun_mounts :: "run_bundle \<Rightarrow> mount_spec list" where
  "bun_mounts b = opt_or [] (spec_mounts (bun_spec b))"

definition bun_devices :: "run_bundle \<Rightarrow> linux_device list" where
  "bun_devices = linux_list lin_devices"

definition bun_resources :: "run_bundle \<Rightarrow> resources option" where
  "bun_resources b = Option.bind (spec_linux (bun_spec b)) lin_resources"

definition bun_cgroups_path :: "run_bundle \<Rightarrow> path option" where
  "bun_cgroups_path b = Option.bind (spec_linux (bun_spec b)) lin_cgroups_path"

definition bun_hooks :: "run_bundle \<Rightarrow> hooks option" where
  "bun_hooks b = spec_hooks (bun_spec b)"

definition bun_process :: "run_bundle \<Rightarrow> process_spec option" where
  "bun_process b = spec_process (bun_spec b)"

definition bun_terminal :: "run_bundle \<Rightarrow> bool" where
  "bun_terminal b = opt_or False (Option.bind (bun_process b) proc_terminal)"

definition bun_readonly_rootfs :: "run_bundle \<Rightarrow> bool" where
  "bun_readonly_rootfs b = opt_or False (Option.bind (spec_root (bun_spec b)) root_readonly)"

definition bun_masked_paths :: "run_bundle \<Rightarrow> string list" where
  "bun_masked_paths = linux_list lin_masked_paths"

definition bun_readonly_paths :: "run_bundle \<Rightarrow> string list" where
  "bun_readonly_paths = linux_list lin_readonly_paths"

definition bun_seccomp :: "run_bundle \<Rightarrow> linux_seccomp option" where
  "bun_seccomp b = Option.bind (spec_linux (bun_spec b)) lin_seccomp"

definition bun_id_mappings :: "run_bundle \<Rightarrow> mappings" where
  "bun_id_mappings b =
     \<lparr>uid_maps = linux_list lin_uid_mappings b, gid_maps = linux_list lin_gid_mappings b\<rparr>"

definition bun_time_offsets :: "run_bundle \<Rightarrow> (string \<times> time_offset) list" where
  "bun_time_offsets = linux_list lin_time_offsets"

definition bun_sysctl :: "run_bundle \<Rightarrow> (string \<times> string) list" where
  "bun_sysctl = linux_list lin_sysctl"

definition bun_propagation :: "run_bundle \<Rightarrow> string option" where
  "bun_propagation b = Option.bind (spec_linux (bun_spec b)) lin_propagation"

definition bun_domainname :: "run_bundle \<Rightarrow> string option" where
  "bun_domainname b = spec_domainname (bun_spec b)"

definition bun_hostname :: "run_bundle \<Rightarrow> string option" where
  "bun_hostname b = spec_hostname (bun_spec b)"

definition bun_cwd :: "run_bundle \<Rightarrow> path option" where
  "bun_cwd b = map_option proc_cwd (bun_process b)"

definition bun_env :: "run_bundle \<Rightarrow> string list" where
  "bun_env b = opt_or [] (Option.bind (bun_process b) proc_env)"

definition bun_argv :: "run_bundle \<Rightarrow> error + string list" where
  "bun_argv b =
     rbind (ok_or (SpecField ''process'') (bun_process b)) (\<lambda>p.
       let args = opt_or [] (proc_args p) in
       if args = [] then Inl (SpecField ''process.args'') else Inr args)"

subsection \<open>Finding the executable\<close>

definition search_path :: "string list \<Rightarrow> string" where
  "search_path env = opt_or DEFAULT_PATH (find_map (strip_prefix ''PATH='') env)"

definition search_dirs :: "string list \<Rightarrow> path list" where
  "search_dirs env = filter (\<lambda>dir. dir \<noteq> []) (split_on colon (search_path env))"

definition resolve_executable :: "'w os \<Rightarrow> string \<Rightarrow> string list \<Rightarrow> bool \<Rightarrow> ('w, path) io" where
  "resolve_executable os program env own_rootfs =
     (if slash \<in> set program then
        (if own_rootfs
         then bind (is_file os program) (\<lambda>there.
                if \<not> there then throw (ExecutableNotFound program) else ret program)
         else ret program)
      else
        bind (find_file os (map (\<lambda>dir. join_path dir program) (search_dirs env))) (\<lambda>found.
          case found of Some p \<Rightarrow> ret p | None \<Rightarrow> throw (ExecutableNotFound program)))"

definition to_cstring :: "string \<Rightarrow> error + string" where
  "to_cstring v = (if nul \<in> set v then Inl (NulByte v) else Inr v)"

definition to_cstrings :: "string list \<Rightarrow> error + string list" where
  "to_cstrings = collect_results to_cstring"

subsection \<open>What a loaded bundle guarantees\<close>

lemma bundle_load_valid: "bundle_load os cd given s = (Inr b, s') \<Longrightarrow> validate_spec (bun_spec b) = Inr ()"
  by (auto simp: bundle_load_def bind_Inr Let_def ret_Inr lift_run throw_run split: if_splits)

lemma to_cstrings_Inr: "to_cstrings vs = Inr ws \<longleftrightarrow> ws = vs \<and> (\<forall>v\<in>set vs. nul \<notin> set v)"
  by (induction vs arbitrary: ws) (auto simp: to_cstrings_def to_cstring_def result_simps)

lemma only_resolve_executable [hoare]: "(\<And>p. P (Fs (Stat p))) \<Longrightarrow> only P (resolve_executable os program env own)"
  unfolding resolve_executable_def by (auto intro!: hoare split: option.split)

lemma only_bundle_load [hoare]:
  "(\<And>p. P (Fs (Canonicalize p))) \<Longrightarrow> (\<And>p. P (Fs (Stat p))) \<Longrightarrow> (\<And>p. P (Fs (Read_File p))) \<Longrightarrow>
   only P (bundle_load os cd given)"
  unfolding bundle_load_def Let_def by (auto intro!: hoare only_json)

definition found_in :: "string \<Rightarrow> path list \<Rightarrow> path option \<Rightarrow> event list \<Rightarrow> bool" where
  "found_in program dirs found tr \<longleftrightarrow>
     (let looked = (\<lambda>ds. map fst tr = map (\<lambda>dir. Fs (Stat (join_path dir program))) ds) in
      case found of
        Some p \<Rightarrow> (\<exists>pre dir post. dirs = pre @ dir # post \<and> p = join_path dir program \<and> looked (pre @ [dir]))
      | None \<Rightarrow> looked dirs)"

lemma find_file_search:
  "emits (find_file os (map (\<lambda>dir. join_path dir program) dirs)) (\<lambda>r tr. \<exists>found. r = Inr found \<and> found_in program dirs found tr)"
proof (induction dirs)
  case Nil
  show ?case by (simp add: emits_ret found_in_def)
next
  case (Cons d dirs)
  let ?stat = "\<lambda>tr :: event list. map fst tr = [Fs (Stat (join_path d program))]"
  have stat: "emits (is_file os (join_path d program)) (\<lambda>r tr. (\<exists>b. r = Inr b) \<and> ?stat tr)"
    unfolding is_file_def
    by (rule emits_bind [where S = "\<lambda>x r tr. (\<exists>b. r = Inr b) \<and> tr = []"], rule emits_perform [where R = "\<lambda>r tr. ?stat tr \<and> (\<exists>x. r = Inr x)"])
       (auto intro: emits_ret)
  let ?S = "\<lambda>there r tr. if there then r = Inr (Some (join_path d program)) \<and> tr = []
      else \<exists>found. r = Inr found \<and> found_in program dirs found tr"
  show ?case
    unfolding list.map find_file.simps
  proof (rule emits_bind [OF stat, where S = ?S])
    show "emits (if x then ret (Some (join_path d program)) else find_file os (map (\<lambda>dir. join_path dir program) dirs)) (?S x)" for x
      using Cons.IH by (auto intro: emits_ret)
    fix x r t1 t2
    assume t1: "(\<exists>b. (Inr x :: error + bool) = Inr b) \<and> ?stat t1" and t2: "?S x r t2"
    show "\<exists>found. r = Inr found \<and> found_in program (d # dirs) found (t1 @ t2)"
    proof (cases x)
      case True
      have "found_in program (d # dirs) (Some (join_path d program)) t1"
        unfolding found_in_def using t1 by (auto intro!: exI [of _ "[]"])
      with True t2 show ?thesis by simp
    next
      case False
      with t2 obtain found where f: "r = Inr found" "found_in program dirs found t2" by auto
      have "found_in program (d # dirs) found (t1 @ t2)"
      proof (cases found)
        case (Some p)
        with f(2) obtain pre dir post where "dirs = pre @ dir # post" "p = join_path dir program"
          "map fst t2 = map (\<lambda>dir. Fs (Stat (join_path dir program))) (pre @ [dir])"
          by (auto simp: found_in_def)
        with Some t1 show ?thesis unfolding found_in_def by (auto intro!: exI [of _ "d # pre"])
      qed (use f(2) t1 in \<open>simp add: found_in_def\<close>)
      with f show ?thesis by blast
    qed
  qed auto
qed

text \<open>a program name without a slash is looked up in the directories of the container's own \<open>PATH\<close> (its
  first entry in the environment, or the default), empty ones skipped: the result is in the first
  directory that has a regular file of that name, no later directory is looked at, and when none has
  it every directory was looked at and the error names the program.\<close>

theorem resolve_executable_search:
  assumes "slash \<notin> set program"
  shows "emits (resolve_executable os program env own) (\<lambda>r tr.
     \<exists>found. found_in program (search_dirs env) found tr
       \<and> r = (case found of Some p \<Rightarrow> Inr p | None \<Rightarrow> Inl (ExecutableNotFound program)))"
proof -
  let ?f = "\<lambda>found. case found of Some p \<Rightarrow> ret p | None \<Rightarrow> throw (ExecutableNotFound program)"
  have "emits (?f x) (\<lambda>r tr. tr = [] \<and> r = (case x of Some p \<Rightarrow> Inr p | None \<Rightarrow> Inl (ExecutableNotFound program)))" for x
    by (cases x) (auto intro: emits_ret emits_throw)
  note after = this
  have "emits (bind (find_file os (map (\<lambda>dir. join_path dir program) (search_dirs env))) ?f) (\<lambda>r tr.
     \<exists>found. found_in program (search_dirs env) found tr
       \<and> r = (case found of Some p \<Rightarrow> Inr p | None \<Rightarrow> Inl (ExecutableNotFound program)))"
    by (rule emits_bind [OF find_file_search after]) auto
  with assms show ?thesis by (simp add: resolve_executable_def)
qed

lemma resolve_executable_search_witness:
  "\<exists>found. found_in ''sh'' [''/sbin'', ''/bin''] found [(Fs (Stat ''/sbin/sh''), None)]
     \<and> (Inr ''/sbin/sh'' :: error + path) = (case found of Some p \<Rightarrow> Inr p | None \<Rightarrow> Inl (ExecutableNotFound ''sh''))"
proof -
  let ?m = "resolve_executable (fixed_os Kind_File [] 0) ''sh'' [''A=1'', ''PATH=/sbin::/bin''] True"
  have "slash \<notin> set ''sh''" by simp
  from emits_trace [OF resolve_executable_search [OF this], of "fixed_os Kind_File [] 0" "[''A=1'', ''PATH=/sbin::/bin'']" True start_state]
  have "\<exists>tr. st_trace (snd (?m start_state)) = st_trace start_state @ tr \<and>
      (\<exists>found. found_in ''sh'' (search_dirs [''A=1'', ''PATH=/sbin::/bin'']) found tr
        \<and> fst (?m start_state) = (case found of Some p \<Rightarrow> Inr p | None \<Rightarrow> Inl (ExecutableNotFound ''sh'')))" .
  moreover have "search_dirs [''A=1'', ''PATH=/sbin::/bin''] = [''/sbin'', ''/bin'']"
    by (simp add: search_dirs_def search_path_def)
  moreover have "st_trace (snd (?m start_state)) = st_trace start_state @ [(Fs (Stat ''/sbin/sh''), None)]"
    "fst (?m start_state) = Inr ''/sbin/sh''"
    by (simp_all add: resolve_executable_def search_dirs_def search_path_def join_path_def has_root_def io_simps
        fixed_os_def start_state_def)
  ultimately show ?thesis by simp
qed

end
