(* ===== verification/Hooks.thy ===== *)
theory Hooks
  imports State Ordering "HOL-Library.AList"
begin

section \<open>Lifecycle hooks (container/hooks.rs)\<close>

text \<open>
  \<^verbatim>\<open>run\<close> executes the hooks of one phase in order, each as a child process that gets the container
  state on its standard input and may have a time limit. Time is in microseconds; the polling loop
  takes fuel, one unit per poll.
\<close>

definition phase_name :: "hook_phase \<Rightarrow> string" where
  "phase_name phase =
     (case phase of
        Prestart \<Rightarrow> ''prestart'' | CreateRuntime \<Rightarrow> ''createRuntime'' | CreateContainer \<Rightarrow> ''createContainer''
      | StartContainer \<Rightarrow> ''startContainer'' | Poststart \<Rightarrow> ''poststart'' | Poststop \<Rightarrow> ''poststop'')"

definition is_fatal :: "hook_phase \<Rightarrow> bool" where
  "is_fatal phase \<longleftrightarrow> phase \<notin> {Poststart, Poststop}"

definition select_hooks :: "hook_phase \<Rightarrow> hooks \<Rightarrow> hook list option" where
  "select_hooks phase h =
     (case phase of
        Prestart \<Rightarrow> hooks_prestart h | CreateRuntime \<Rightarrow> hooks_create_runtime h
      | CreateContainer \<Rightarrow> hooks_create_container h | StartContainer \<Rightarrow> hooks_start_container h
      | Poststart \<Rightarrow> hooks_poststart h | Poststop \<Rightarrow> hooks_poststop h)"

text \<open>The environment: entries without \<^verbatim>\<open>=\<close> are dropped, a later entry replaces an earlier one.\<close>

definition hook_environment :: "string list \<Rightarrow> (string \<times> string) list" where
  "hook_environment entries =
     fold (\<lambda>(k, v). AList.update k v) (List.map_filter (split_once (CHR ''='')) entries) []"

definition hook_argv :: "hook \<Rightarrow> string list" where
  "hook_argv h =
     (case opt_or [] (hook_args h) of [] \<Rightarrow> [hook_path h] | a # rest \<Rightarrow> a # rest)"

definition spawn_hook :: "hook \<Rightarrow> call" where
  "spawn_hook h = Proc (Spawn (hook_path h) (hook_argv h) (hook_environment (opt_or [] (hook_env h))))"

definition now_us :: "'w os \<Rightarrow> ('w, int) io" where
  "now_us os = bind (perform (os_num os) (Misc Monotonic_Us)) (\<lambda>r. ret (unwrap_or 0 r))"

fun poll_hook :: "'w os \<Rightarrow> int \<Rightarrow> int \<Rightarrow> nat \<Rightarrow> ('w, wait_status) io" where
  "poll_hook os seconds deadline 0 = throw Out_Of_Fuel"
| "poll_hook os seconds deadline (Suc n) =
     bind (checked Io (os_wait os) (Proc Child_Try_Wait)) (\<lambda>st.
       if st \<noteq> Still_Alive then ret st
       else bind (now_us os) (\<lambda>now.
         if deadline \<le> now then
           bind (ignore (checked Io (os_unit os) (Proc Child_Kill))) (\<lambda>_.
           bind (ignore (checked Io (os_wait os) (Proc Child_Wait))) (\<lambda>_.
             throw (Invalid (Runtime (Hook_Timed_Out seconds)))))
         else bind (ignore (checked Io (os_unit os) (Proc (Sleep_Ms 10)))) (\<lambda>_.
                poll_hook os seconds deadline n)))"

definition succeeded :: "wait_status \<Rightarrow> bool" where
  "succeeded st = (case st of Exited p code \<Rightarrow> code = 0 | _ \<Rightarrow> False)"

definition one_hook :: "'w os \<Rightarrow> nat \<Rightarrow> hook \<Rightarrow> string \<Rightarrow> ('w, unit) io" where
  "one_hook os fuel h payload =
     bind (checked Io (os_unit os) (spawn_hook h)) (\<lambda>_.
     bind (checked Io (os_unit os) (Proc (Child_Stdin payload))) (\<lambda>_.
     bind (case hook_timeout h of
             Some seconds \<Rightarrow>
               if 0 < seconds
               then bind (now_us os) (\<lambda>now. poll_hook os seconds (now + seconds * 1000000) fuel)
               else checked Io (os_wait os) (Proc Child_Wait)
           | None \<Rightarrow> checked Io (os_wait os) (Proc Child_Wait)) (\<lambda>st.
       if succeeded st then ret () else throw (Invalid (Runtime Hook_Exited)))))"

fun run_hooks :: "'w os \<Rightarrow> nat \<Rightarrow> hook_phase \<Rightarrow> string \<Rightarrow> nat \<Rightarrow> hook list \<Rightarrow> ('w, unit) io" where
  "run_hooks os fuel phase payload index [] = ret ()"
| "run_hooks os fuel phase payload index (h # hs) =
     bind (attempt (one_hook os fuel h payload)) (\<lambda>outcome.
       case outcome of
         Inr u \<Rightarrow> run_hooks os fuel phase payload (Suc index) hs
       | Inl e \<Rightarrow>
           if is_fatal phase then throw (Hook_Failed phase index (hook_path h) e)
           else run_hooks os fuel phase payload (Suc index) hs)"

definition hooks_run :: "'w os \<Rightarrow> codec \<Rightarrow> nat \<Rightarrow> hooks option \<Rightarrow> hook_phase \<Rightarrow> oci_state \<Rightarrow> ('w, unit) io" where
  "hooks_run os cd fuel hks phase state =
     (case Option.bind hks (select_hooks phase) of
        None \<Rightarrow> ret ()
      | Some l \<Rightarrow>
          if l = [] then ret ()
          else bind (json (enc_oci cd state)) (\<lambda>payload. run_hooks os fuel phase payload 0 l))"

subsection \<open>The calls of hooks\<close>

fun hook_call :: "call \<Rightarrow> bool" where
  "hook_call (Proc (Spawn p a e)) = True"
| "hook_call (Proc (Child_Stdin v)) = True"
| "hook_call (Proc Child_Wait) = True"
| "hook_call (Proc Child_Try_Wait) = True"
| "hook_call (Proc Child_Kill) = True"
| "hook_call (Proc (Sleep_Ms n)) = True"
| "hook_call (Misc Monotonic_Us) = True"
| "hook_call _ = False"

lemma only_now_us [hoare]: "P (Misc Monotonic_Us) \<Longrightarrow> only P (now_us os)"
  unfolding now_us_def by (intro only_bind only_perform only_ret)

lemma only_poll_hook: "only hook_call (poll_hook os seconds deadline n)"
  by (induction n) (auto intro!: hoare)

lemma only_one_hook: "only hook_call (one_hook os fuel h payload)"
  unfolding one_hook_def spawn_hook_def by (auto intro!: hoare only_poll_hook split: option.split)

lemma only_run_hooks: "only hook_call (run_hooks os fuel phase payload index hs)"
  by (induction hs arbitrary: index) (auto intro!: hoare only_one_hook split: sum.split)

lemma only_hooks_run_calls: "only hook_call (hooks_run os cd fuel hks phase state)"
  unfolding hooks_run_def by (auto intro!: hoare only_run_hooks split: option.split)

lemma only_hooks_run [hoare]: "(\<And>c. hook_call c \<Longrightarrow> P c) \<Longrightarrow> only P (hooks_run os cd fuel hks phase state)"
  by (rule only_weaken [OF only_hooks_run_calls])

subsection \<open>Which hooks run\<close>

definition is_spawn :: "call \<Rightarrow> bool" where
  "is_spawn c = (case c of Proc (Spawn p a e) \<Rightarrow> True | _ \<Rightarrow> False)"

abbreviation spawns :: "event list \<Rightarrow> call list" where
  "spawns tr \<equiv> filter is_spawn (map fst tr)"

lemma no_spawn_poll: "only (\<lambda>c. \<not> is_spawn c) (poll_hook os seconds deadline n)"
  by (induction n) (auto simp: is_spawn_def intro!: hoare)

lemma spawns_none: "list_all (\<lambda>ev. \<not> is_spawn (fst ev)) tr \<Longrightarrow> spawns tr = []"
  by (induction tr) auto

lemma one_hook_spawns: "emits (one_hook os fuel h payload) (\<lambda>r tr. spawns tr = [spawn_hook h])"
  unfolding one_hook_def
proof (rule emits_bind)
  show "emits (checked Io (os_unit os) (spawn_hook h)) (\<lambda>r tr. spawns tr = [spawn_hook h])"
    by (rule emits_checked) (simp_all add: spawn_hook_def is_spawn_def)
  fix x :: unit
  let ?rest = "bind (checked Io (os_unit os) (Proc (Child_Stdin payload))) (\<lambda>_.
     bind (case hook_timeout h of
             Some seconds \<Rightarrow>
               if 0 < seconds
               then bind (now_us os) (\<lambda>now. poll_hook os seconds (now + seconds * 1000000) fuel)
               else checked Io (os_wait os) (Proc Child_Wait)
           | None \<Rightarrow> checked Io (os_wait os) (Proc Child_Wait)) (\<lambda>st.
       if succeeded st then ret () else throw (Invalid (Runtime Hook_Exited))))"
  have "only (\<lambda>c. \<not> is_spawn c) ?rest"
    by (auto simp: is_spawn_def intro!: hoare no_spawn_poll [unfolded is_spawn_def] split: option.split)
  then show "emits ?rest (\<lambda>r tr. spawns tr = [])"
    unfolding only_def by (rule emits_weaken) (rule spawns_none)
qed auto

definition hooks_outcome :: "hook_phase \<Rightarrow> nat \<Rightarrow> hook list \<Rightarrow> error + unit \<Rightarrow> event list \<Rightarrow> bool" where
  "hooks_outcome phase index hs r tr \<longleftrightarrow>
     (case r of
        Inr u \<Rightarrow> spawns tr = map spawn_hook hs
      | Inl e \<Rightarrow> is_fatal phase \<and>
          (\<exists>i c. i < length hs \<and> spawns tr = map spawn_hook (take (Suc i) hs)
             \<and> e = Hook_Failed phase (index + i) (hook_path (hs ! i)) c))"

lemma run_hooks_outcome:
  "emits (run_hooks os fuel phase payload index hs) (hooks_outcome phase index hs)"
proof (induction hs arbitrary: index)
  case Nil
  show ?case by (simp add: emits_ret hooks_outcome_def)
next
  case (Cons h hs)
  let ?next = "run_hooks os fuel phase payload (Suc index) hs"
  let ?S = "\<lambda>outcome r tr. (case outcome of Inl e \<Rightarrow>
       if is_fatal phase then tr = [] \<and> r = Inl (Hook_Failed phase index (hook_path h) e)
       else hooks_outcome phase (Suc index) hs r tr
     | Inr u \<Rightarrow> hooks_outcome phase (Suc index) hs r tr)"
  have go: "hooks_outcome phase index (h # hs) r (t1 @ t2)"
    if "spawns t1 = [spawn_hook h]" "hooks_outcome phase (Suc index) hs r t2" for r t1 t2
  proof (cases r)
    case (Inl e)
    with that obtain i c where "is_fatal phase" "i < length hs" "spawns t2 = map spawn_hook (take (Suc i) hs)"
      "e = Hook_Failed phase (Suc index + i) (hook_path (hs ! i)) c"
      by (auto simp: hooks_outcome_def)
    with Inl that(1) show ?thesis
      unfolding hooks_outcome_def by (auto intro!: exI [of _ "Suc i"] exI [of _ c])
  qed (use that in \<open>simp add: hooks_outcome_def\<close>)
  show ?case
    unfolding run_hooks.simps
  proof (rule emits_bind [where S = ?S])
    show "emits (attempt (one_hook os fuel h payload)) (\<lambda>r tr. spawns tr = [spawn_hook h] \<and> (\<exists>q. r = Inr q))"
      by (rule emits_attempt, rule emits_weaken [OF one_hook_spawns]) simp
    show "emits (case x of Inr u \<Rightarrow> ?next
       | Inl e \<Rightarrow> if is_fatal phase then throw (Hook_Failed phase index (hook_path h) e) else ?next) (?S x)" for x
      using Cons.IH by (cases x) (auto intro: emits_throw)
    fix x r t1 t2
    assume t1: "spawns t1 = [spawn_hook h] \<and> (\<exists>q. (Inr x :: error + (error + unit)) = Inr q)" and t2: "?S x r t2"
    show "hooks_outcome phase index (h # hs) r (t1 @ t2)"
    proof (cases "(\<exists>e. x = Inl e) \<and> is_fatal phase")
      case True
      with t1 t2 show ?thesis
        unfolding hooks_outcome_def by (auto intro!: exI [of _ 0] split: sum.splits)
    next
      case False
      with t2 have "hooks_outcome phase (Suc index) hs r t2" by (auto split: sum.splits)
      with t1 show ?thesis by (blast intro: go)
    qed
  qed auto
qed

lemma run_hooks_fatal:
  assumes "phase \<notin> {Poststart, Poststop}"
  shows "run_hooks os fuel phase payload index hs s = (Inr u, s')
    \<longleftrightarrow> for_each (\<lambda>h. one_hook os fuel h payload) hs s = (Inr u, s')"
  using assms by (induction hs arbitrary: index s) (auto simp: bind_Inr attempt_run is_fatal_def split_sum_ex)

text \<open>C28: the hooks of a phase are started in their configured order, each once. When \<open>run\<close> succeeds all of
  them were started; when it fails after the state was serialised, the phase is not \<open>poststart\<close> or
  \<open>poststop\<close>, the error names the first hook that failed with its index, and no later hook was
  started. Failures of \<open>poststart\<close> and \<open>poststop\<close> hooks never fail the operation; in every other
  phase \<open>run\<close> succeeds exactly when each hook in turn did.\<close>

theorem hooks_in_order:
  assumes "enc_oci cd state = Some payload" "Option.bind hks (select_hooks phase) = Some hs"
  shows "emits (hooks_run os cd fuel hks phase state) (hooks_outcome phase 0 hs)
    \<and> (phase \<in> {Poststart, Poststop} \<longrightarrow> fst (hooks_run os cd fuel hks phase state s) = Inr ())
    \<and> (phase \<notin> {Poststart, Poststop} \<longrightarrow>
        hooks_run os cd fuel hks phase state s = (Inr (), s')
          \<longleftrightarrow> for_each (\<lambda>h. one_hook os fuel h payload) hs s = (Inr (), s'))"
proof (intro conjI impI)
  show e: "emits (hooks_run os cd fuel hks phase state) (hooks_outcome phase 0 hs)"
    using assms run_hooks_outcome
    by (auto simp: hooks_run_def json_def hooks_outcome_def intro: emits_ret)
  show "fst (hooks_run os cd fuel hks phase state s) = Inr ()" if "phase \<in> {Poststart, Poststop}"
    using that emits_trace [OF e, of s]
    by (cases "fst (hooks_run os cd fuel hks phase state s)") (auto simp: hooks_outcome_def is_fatal_def)
  show "hooks_run os cd fuel hks phase state s = (Inr (), s')
      \<longleftrightarrow> for_each (\<lambda>h. one_hook os fuel h payload) hs s = (Inr (), s')"
    if "phase \<notin> {Poststart, Poststop}"
    using assms by (simp add: hooks_run_def json_def run_hooks_fatal [OF that])
qed

definition sample_hook :: hook where
  "sample_hook = \<lparr>hook_path = ''/bin/notify'', hook_args = None, hook_env = Some [''A=1'', ''B'', ''A=2''], hook_timeout = None\<rparr>"

definition sample_hooks :: hooks where
  "sample_hooks = \<lparr>hooks_prestart = None, hooks_create_runtime = None, hooks_create_container = None,
     hooks_start_container = None, hooks_poststart = None, hooks_poststop = Some [sample_hook, sample_hook]\<rparr>"

definition sample_oci :: oci_state where
  "sample_oci = \<lparr>oci_version = ''1.0.2'', oci_id = ''a'', oci_status = Stopped, oci_pid = None,
     oci_bundle = ''/b'', oci_annotations = None\<rparr>"

lemma hooks_in_order_witness:
  "fst (hooks_run (fixed_os Kind_File [] 0) sample_codec 0 (Some sample_hooks) Poststop sample_oci start_state) = Inr ()
   \<and> hook_environment [''A=1'', ''B'', ''A=2''] = [(''A'', ''2'')]"
proof
  have "enc_oci sample_codec sample_oci = Some ''{}''" by (simp add: sample_codec_def)
  moreover have "Option.bind (Some sample_hooks) (select_hooks Poststop) = Some [sample_hook, sample_hook]"
    by (simp add: select_hooks_def sample_hooks_def)
  ultimately show "fst (hooks_run (fixed_os Kind_File [] 0) sample_codec 0 (Some sample_hooks) Poststop sample_oci
      start_state) = Inr ()"
    using hooks_in_order by blast
  show "hook_environment [''A=1'', ''B'', ''A=2''] = [(''A'', ''2'')]"
    by (simp add: hook_environment_def List.map_filter_def)
qed

end
