(* ===== verification/Credentials.thy ===== *)
theory Credentials
  imports Ordering
begin

section \<open>Credentials of the container process (container/process.rs, container/capabilities.rs)\<close>

text \<open>
  Resource limits, the out-of-memory score and the file mode mask; the change of user and groups; the
  capability sets. The kernel's capabilities (\<^verbatim>\<open>Capability::from_str\<close> of the \<^verbatim>\<open>caps\<close> crate) are the
  parameter \<open>known\<close>. A parsed set is the list of its members in one order.
\<close>

subsection \<open>Limits, score, mask\<close>

definition map_resource :: "rlimit_type \<Rightarrow> rlimit_type option" where
  "map_resource kind = Some kind"

definition apply_limits :: "'w os \<Rightarrow> process_spec \<Rightarrow> ('w, unit) io" where
  "apply_limits os p =
     for_each (\<lambda>rl.
       bind (lift (ok_or (OutOfScope ''a POSIX rlimit this platform does not expose through nix'') (map_resource (rl_typ rl)))) (\<lambda>resource.
         checked Nix (os_unit os) (Cred (Setrlimit resource (rl_soft rl) (rl_hard rl)))))
       (opt_or [] (proc_rlimits p))"

definition apply_oom_score_adj :: "'w os \<Rightarrow> process_spec \<Rightarrow> ('w, unit) io" where
  "apply_oom_score_adj os p =
     (case proc_oom p of
        None \<Rightarrow> ret ()
      | Some score \<Rightarrow> io_unit os (Write_File ''/proc/self/oom_score_adj'' (show_int score)))"

definition MODE_BITS :: u32 where "MODE_BITS = 0xFFF"

unbundle bit_operations_syntax

text \<open>\<^verbatim>\<open>umask\<close> cannot fail.\<close>

definition apply_umask :: "'w os \<Rightarrow> process_spec \<Rightarrow> ('w, unit) io" where
  "apply_umask os p =
     (case usr_umask (proc_user p) of
        None \<Rightarrow> ret ()
      | Some m \<Rightarrow> bind (perform (os_unit os) (Cred (Umask (m AND MODE_BITS)))) (\<lambda>_. ret ()))"

subsection \<open>User and groups\<close>

definition is_root :: "'w os \<Rightarrow> ('w, bool) io" where
  "is_root os = bind (perform (os_num os) (Proc Geteuid)) (\<lambda>r. ret (r = Inr 0))"

definition call_failed :: "call \<Rightarrow> errno \<Rightarrow> error" where
  "call_failed c e = Invalid (Runtime (Call_Failed c e))"

definition keep_caps_across_setuid :: "'w os \<Rightarrow> bool \<Rightarrow> ('w, unit) io" where
  "keep_caps_across_setuid os keep = checked call_failed (os_unit os) (Cred (Keep_Caps keep))"

definition drop_privileges :: "'w os \<Rightarrow> process_spec \<Rightarrow> ('w, unit) io" where
  "drop_privileges os p =
     (let user = proc_user p in
      bind (is_root os) (\<lambda>root.
      let leaving_root = root \<and> usr_uid user \<noteq> 0 in
      bind (checked Nix (os_unit os) (Cred (Setgroups (opt_or [] (usr_groups user))))) (\<lambda>_.
      bind (do_when leaving_root (keep_caps_across_setuid os True)) (\<lambda>_.
      bind (checked Nix (os_unit os) (Cred (Setgid (usr_gid user)))) (\<lambda>_.
      bind (checked Nix (os_unit os) (Cred (Setuid (usr_uid user)))) (\<lambda>_.
        do_when leaving_root (keep_caps_across_setuid os False)))))))"

subsection \<open>Capabilities\<close>

definition caps_parse :: "(capability \<Rightarrow> bool) \<Rightarrow> capability list option \<Rightarrow> error + capability list" where
  "caps_parse known names =
     rbind (collect_results (\<lambda>name.
       if known name then Inr name else Inl (Invalid (Runtime (Unknown_Capability name)))) (opt_or [] names))
       (\<lambda>set. Inr (remdups set))"

definition drop_bounding :: "'w os \<Rightarrow> (capability \<Rightarrow> bool) \<Rightarrow> linux_capabilities \<Rightarrow> ('w, unit) io" where
  "drop_bounding os known sp =
     bind (lift (caps_parse known (cap_bounding sp))) (\<lambda>wanted.
     bind (checked call_failed (os_caps os) (Cred Cap_Read_Bounding)) (\<lambda>current.
       for_each (\<lambda>cap. checked call_failed (os_unit os) (Cred (Cap_Drop_Bounding cap)))
         (filter (\<lambda>cap. cap \<notin> set wanted) current)))"

definition raise_ambient :: "'w os \<Rightarrow> capability list \<Rightarrow> capability list \<Rightarrow> capability \<Rightarrow> ('w, unit) io" where
  "raise_ambient os permitted inheritable cap =
     (if cap \<notin> set permitted \<or> cap \<notin> set inheritable then throw (Invalid (Runtime (Ambient_Not_Allowed cap)))
      else checked call_failed (os_unit os) (Cred (Cap_Raise_Ambient cap)))"

definition caps_apply :: "'w os \<Rightarrow> (capability \<Rightarrow> bool) \<Rightarrow> linux_capabilities \<Rightarrow> ('w, unit) io" where
  "caps_apply os known sp =
     bind (lift (caps_parse known (cap_permitted sp))) (\<lambda>permitted.
     bind (lift (caps_parse known (cap_effective sp))) (\<lambda>effective.
     bind (lift (caps_parse known (cap_inheritable sp))) (\<lambda>inheritable.
     bind (lift (caps_parse known (cap_ambient sp))) (\<lambda>ambient.
       if \<not> set effective \<subseteq> set permitted then throw (Invalid (Runtime Effective_Not_Permitted))
       else
         bind (checked call_failed (os_unit os) (Cred (Cap_Set_Effective effective))) (\<lambda>_.
         bind (checked call_failed (os_unit os) (Cred (Cap_Set_Permitted permitted))) (\<lambda>_.
         bind (checked call_failed (os_unit os) (Cred (Cap_Set_Inheritable inheritable))) (\<lambda>_.
         bind (checked call_failed (os_unit os) (Cred Cap_Clear_Ambient)) (\<lambda>_.
           for_each (raise_ambient os permitted inheritable) ambient))))))))"

definition effective_now :: "'w os \<Rightarrow> ('w, capability list) io" where
  "effective_now os = checked call_failed (os_caps os) (Cred Cap_Read_Effective)"

definition set_no_new_privs :: "'w os \<Rightarrow> ('w, unit) io" where
  "set_no_new_privs os = checked call_failed (os_unit os) (Cred No_New_Privs)"

subsection \<open>Order and effect of the change of user\<close>

text \<open>The steps of \<^verbatim>\<open>drop_privileges\<close>, numbered as they have to happen.\<close>

fun drop_stage :: "call \<Rightarrow> nat option" where
  "drop_stage (Cred (Setgroups g)) = Some 0"
| "drop_stage (Cred (Keep_Caps b)) = Some (if b then 1 else 4)"
| "drop_stage (Cred (Setgid g)) = Some 2"
| "drop_stage (Cred (Setuid u)) = Some 3"
| "drop_stage c = None"

lemma staged_do_when [staged_intros]: "staged rk lo hi m \<Longrightarrow> staged rk lo hi (do_when b m)"
  by (simp add: do_when_def staged_ret)

lemma only_is_root [hoare]: "P (Proc Geteuid) \<Longrightarrow> only P (is_root os)"
  unfolding is_root_def by (intro hoare)

text \<open>dropping privileges never loses a step to a wrong order: in every run the supplementary groups
  are set first, while the process may still set them, then the capabilities are kept, the group is
  changed, the user is changed, and only then the keep flag is cleared; a successful run has set the
  configured groups, group and user.\<close>

theorem drop_privileges_order:
  "staged drop_stage 0 4 (drop_privileges os p)
   \<and> does (drop_privileges os p) (Cred (Setgroups (opt_or [] (usr_groups (proc_user p)))), None)
   \<and> does (drop_privileges os p) (Cred (Setgid (usr_gid (proc_user p))), None)
   \<and> does (drop_privileges os p) (Cred (Setuid (usr_uid (proc_user p))), None)"
proof (intro conjI)
  have keep: "only (\<lambda>c. True) (keep_caps_across_setuid os b)" for b
    unfolding keep_caps_across_setuid_def by (intro hoare) simp
  note parts = drop_privileges_def Let_def
  show "staged drop_stage 0 4 (drop_privileges os p)"
    unfolding parts keep_caps_across_setuid_def
    by (rule staged_bind [where b = 0], rule staged_of_only, rule only_is_root, simp,
        rule staged_bind [where b = 0], rule staged_checked, simp, simp,
        rule staged_bind [where b = 1], rule staged_do_when, rule staged_checked, simp, simp,
        rule staged_bind [where b = 2], rule staged_checked, simp, simp,
        rule staged_bind [where b = 3], rule staged_checked, simp, simp,
        rule staged_do_when, rule staged_checked) simp_all
  show "does (drop_privileges os p) (Cred (Setgroups (opt_or [] (usr_groups (proc_user p)))), None)"
    unfolding parts by (intro does_bind2 [OF only_is_root] does_bind1 does_checked) (auto intro!: hoare keep)
  show "does (drop_privileges os p) (Cred (Setgid (usr_gid (proc_user p))), None)"
    unfolding parts
    by (rule does_bind2, intro hoare, simp, rule does_bind2, intro hoare, simp, rule does_bind2, intro hoare keep,
        rule does_bind1, rule does_checked) (auto intro!: hoare keep)
  show "does (drop_privileges os p) (Cred (Setuid (usr_uid (proc_user p))), None)"
    unfolding parts
    by (rule does_bind2, intro hoare, simp, rule does_bind2, intro hoare, simp, rule does_bind2, intro hoare keep,
        rule does_bind2, intro hoare, simp, rule does_bind1, rule does_checked) (auto intro!: hoare keep)
qed

subsection \<open>The capability sets that result\<close>

definition cap_names :: "capability list option \<Rightarrow> capability set" where
  "cap_names x = set (opt_or [] x)"

lemma caps_parse_Inr: "caps_parse known names = Inr cs \<longleftrightarrow>
    (\<forall>c\<in>cap_names names. known c) \<and> cs = remdups (opt_or [] names)"
proof -
  have "collect_results (\<lambda>name. if known name then Inr name else Inl (Invalid (Runtime (Unknown_Capability name)))) xs = Inr ys
      \<longleftrightarrow> (\<forall>c\<in>set xs. known c) \<and> ys = xs" for xs ys
    by (induction xs arbitrary: ys) (auto simp: result_simps)
  then show ?thesis by (auto simp: caps_parse_def result_simps cap_names_def)
qed

lemma for_each_checked_ok:
  "for_each (\<lambda>x. checked wrap f (g x)) xs s = (Inr u, s') \<Longrightarrow> st_trace s' = st_trace s @ map (\<lambda>x. (g x, None)) xs"
proof (induction xs arbitrary: s)
  case (Cons x xs)
  then obtain v s1 where x: "checked wrap f (g x) s = (Inr v, s1)"
    and xs: "for_each (\<lambda>x. checked wrap f (g x)) xs s1 = (Inr u, s')"
    by (auto simp: bind_Inr)
  from x have "st_trace s1 = st_trace s @ [(g x, None)]" by (rule checked_event) auto
  with Cons.IH [OF xs] show ?case by simp
qed (simp add: ret_Inr)

lemma raise_ambient_ok:
  "for_each (raise_ambient os permitted inheritable) caps s = (Inr u, s') \<Longrightarrow>
   set caps \<subseteq> set permitted \<inter> set inheritable
   \<and> st_trace s' = st_trace s @ map (\<lambda>c. (Cred (Cap_Raise_Ambient c), None)) caps"
proof (induction caps arbitrary: s)
  case (Cons c caps)
  then obtain v s1 where c: "raise_ambient os permitted inheritable c s = (Inr v, s1)"
    and cs: "for_each (raise_ambient os permitted inheritable) caps s1 = (Inr u, s')"
    by (auto simp: bind_Inr)
  then have allowed: "c \<in> set permitted" "c \<in> set inheritable"
    "checked call_failed (os_unit os) (Cred (Cap_Raise_Ambient c)) s = (Inr v, s1)"
    by (auto simp: raise_ambient_def throw_run split: if_splits)
  from allowed(3) have "st_trace s1 = st_trace s @ [(Cred (Cap_Raise_Ambient c), None)]"
    by (rule checked_event) auto
  with Cons.IH [OF cs] allowed show ?case by simp
qed (simp add: ret_Inr)

text \<open>C26: a successful \<open>capabilities::apply\<close> made exactly the configured sets: every name is a capability
  of the kernel, the effective set is within the permitted one, and the ambient set, raised
  after it was cleared, is within both the permitted and the inheritable set.\<close>

theorem caps_apply_exact:
  assumes "caps_apply os known sp s = (Inr u, s')"
  shows "cap_names (cap_effective sp) \<subseteq> cap_names (cap_permitted sp)
    \<and> cap_names (cap_ambient sp) \<subseteq> cap_names (cap_permitted sp) \<inter> cap_names (cap_inheritable sp)
    \<and> (\<forall>c \<in> cap_names (cap_permitted sp) \<union> cap_names (cap_inheritable sp). known c)
    \<and> st_trace s' = st_trace s
        @ [(Cred (Cap_Set_Effective (remdups (opt_or [] (cap_effective sp)))), None),
           (Cred (Cap_Set_Permitted (remdups (opt_or [] (cap_permitted sp)))), None),
           (Cred (Cap_Set_Inheritable (remdups (opt_or [] (cap_inheritable sp)))), None),
           (Cred Cap_Clear_Ambient, None)]
        @ map (\<lambda>c. (Cred (Cap_Raise_Ambient c), None)) (remdups (opt_or [] (cap_ambient sp)))"
proof -
  define per eff inh amb where "per = remdups (opt_or [] (cap_permitted sp))"
    "eff = remdups (opt_or [] (cap_effective sp))" "inh = remdups (opt_or [] (cap_inheritable sp))"
    "amb = remdups (opt_or [] (cap_ambient sp))"
  let ?set = "\<lambda>c. checked call_failed (os_unit os) (Cred c)"
  from assms obtain a1 a2 a3 a4 s1 s2 s3 s4 where
    known: "\<forall>c\<in>cap_names (cap_permitted sp). known c" "\<forall>c\<in>cap_names (cap_inheritable sp). known c"
    and sub: "set eff \<subseteq> set per"
    and steps: "?set (Cap_Set_Effective eff) s = (Inr a1, s1)" "?set (Cap_Set_Permitted per) s1 = (Inr a2, s2)"
      "?set (Cap_Set_Inheritable inh) s2 = (Inr a3, s3)" "?set Cap_Clear_Ambient s3 = (Inr a4, s4)"
    and raise: "for_each (raise_ambient os per inh) amb s4 = (Inr u, s')"
    unfolding per_eff_inh_amb_def caps_apply_def
    by (auto simp: bind_Inr lift_Inr caps_parse_Inr throw_run split: if_splits)
  note traces = checked_ok [OF steps(1)] checked_ok [OF steps(2)] checked_ok [OF steps(3)] checked_ok [OF steps(4)]
  from raise_ambient_ok [OF raise] known sub traces show ?thesis
    by (auto simp: per_eff_inh_amb_def cap_names_def)
qed

definition sample_caps :: linux_capabilities where
  "sample_caps = \<lparr>cap_bounding = Some [''CAP_KILL''], cap_effective = Some [''CAP_KILL''],
     cap_inheritable = Some [''CAP_KILL'', ''CAP_CHOWN''], cap_permitted = Some [''CAP_KILL'', ''CAP_KILL''],
     cap_ambient = Some [''CAP_KILL'']\<rparr>"

lemma caps_apply_exact_witness:
  "cap_names (cap_ambient sample_caps) \<subseteq> cap_names (cap_permitted sample_caps) \<inter> cap_names (cap_inheritable sample_caps)"
proof -
  have "fst (caps_apply (fixed_os Kind_File [] 0) (\<lambda>c. True) sample_caps start_state) = Inr ()"
    by (simp add: caps_apply_def caps_parse_def sample_caps_def raise_ambient_def io_simps fixed_os_def)
  then show ?thesis using caps_apply_exact [OF run_eq [of "caps_apply (fixed_os Kind_File [] 0) (\<lambda>c. True) sample_caps"]] by blast
qed

text \<open>a successful \<open>drop_bounding\<close> dropped exactly the capabilities the kernel reported in the bounding
  set that the configuration does not list: none of the others stays, and no listed one is dropped.\<close>

theorem drop_bounding_exact:
  assumes "drop_bounding os known sp s = (Inr u, s')"
  shows "\<exists>current w. os_caps os (Cred Cap_Read_Bounding) (st_world s) = (Inr current, w)
    \<and> st_trace s' = st_trace s @ (Cred Cap_Read_Bounding, None)
        # map (\<lambda>c. (Cred (Cap_Drop_Bounding c), None)) (filter (\<lambda>c. c \<notin> cap_names (cap_bounding sp)) current)"
proof -
  from assms obtain current s1 where
    r: "checked call_failed (os_caps os) (Cred Cap_Read_Bounding) s = (Inr current, s1)"
    and drops: "for_each (\<lambda>cap. checked call_failed (os_unit os) (Cred (Cap_Drop_Bounding cap)))
        (filter (\<lambda>cap. cap \<notin> cap_names (cap_bounding sp)) current) s1 = (Inr u, s')"
    by (auto simp: drop_bounding_def bind_Inr lift_Inr caps_parse_Inr cap_names_def)
  from r obtain w where "os_caps os (Cred Cap_Read_Bounding) (st_world s) = (Inr current, w)"
    by (rule checked_run) (auto split: sum.splits)
  with for_each_checked_ok [OF drops] checked_ok [OF r] show ?thesis by auto
qed

definition root_caps_os :: "unit os" where
  "root_caps_os = fixed_os Kind_File [] 0 \<lparr>os_caps := \<lambda>c w. (Inr [''CAP_KILL'', ''CAP_SYS_ADMIN''], w)\<rparr>"

lemma drop_bounding_exact_witness:
  "(Cred (Cap_Drop_Bounding ''CAP_SYS_ADMIN''), None)
     \<in> set (st_trace (snd (drop_bounding root_caps_os (\<lambda>c. True) sample_caps start_state)))"
proof -
  have "fst (drop_bounding root_caps_os (\<lambda>c. True) sample_caps start_state) = Inr ()"
    by (simp add: drop_bounding_def caps_parse_def sample_caps_def root_caps_os_def io_simps fixed_os_def)
  from drop_bounding_exact [OF run_eq [of "drop_bounding root_caps_os (\<lambda>c. True) sample_caps", OF this]]
  show ?thesis by (auto simp: root_caps_os_def fixed_os_def sample_caps_def cap_names_def)
qed

end
