(* ===== verification/Seccomp.thy ===== *)
theory Seccomp
  imports Credentials
begin

section \<open>System-call filters (container/seccomp.rs)\<close>

text \<open>
  \<^verbatim>\<open>apply\<close> builds a \<^verbatim>\<open>libseccomp\<close> filter from the configuration and loads it. The table of system-call
  names (\<^verbatim>\<open>ScmpSyscall::from_name\<close>) is the parameter \<open>syscall_of\<close>; the calls of the crate are events.
\<close>

definition EPERM_NUMBER :: u32 where "EPERM_NUMBER = 1"

text \<open>\<^verbatim>\<open>as i32\<close> reinterprets the bits, \<^verbatim>\<open>as u16\<close> keeps the low half.\<close>

definition scmp_action_of :: "seccomp_action \<Rightarrow> u32 option \<Rightarrow> error + scmp_action" where
  "scmp_action_of requested errno =
     (case requested of
        ScmpActKill \<Rightarrow> Inr Scmp_KillThread
      | ScmpActKillThread \<Rightarrow> Inr Scmp_KillThread
      | ScmpActKillProcess \<Rightarrow> Inr Scmp_KillProcess
      | ScmpActTrap \<Rightarrow> Inr Scmp_Trap
      | ScmpActErrno \<Rightarrow> Inr (Scmp_Errno (sint (opt_or EPERM_NUMBER errno)))
      | ScmpActTrace \<Rightarrow> Inr (Scmp_Trace (ucast (opt_or 0 errno)))
      | ScmpActAllow \<Rightarrow> Inr Scmp_Allow
      | ScmpActLog \<Rightarrow> Inr Scmp_Log
      | ScmpActNotify \<Rightarrow>
          Inl (OutOfScope ''SCMP_ACT_NOTIFY, which needs a listener process to receive the notification fd''))"

definition architecture :: "arch \<Rightarrow> error + scmp_arch" where
  "architecture a =
     (case a of
        ArchNative \<Rightarrow> Inr Scmp_Native
      | ArchX86 \<Rightarrow> Inr Scmp_X86
      | ArchX86_64 \<Rightarrow> Inr Scmp_X8664
      | ArchX32 \<Rightarrow> Inr Scmp_X32
      | ArchArm \<Rightarrow> Inr Scmp_Arm
      | ArchAarch64 \<Rightarrow> Inr Scmp_Aarch64
      | ArchMips \<Rightarrow> Inr Scmp_Mips
      | ArchMips64 \<Rightarrow> Inr Scmp_Mips64
      | ArchMips64n32 \<Rightarrow> Inr Scmp_Mips64N32
      | ArchMipsel \<Rightarrow> Inr Scmp_Mipsel
      | ArchMipsel64 \<Rightarrow> Inr Scmp_Mipsel64
      | ArchMipsel64n32 \<Rightarrow> Inr Scmp_Mipsel64N32
      | ArchPpc \<Rightarrow> Inr Scmp_Ppc
      | ArchPpc64 \<Rightarrow> Inr Scmp_Ppc64
      | ArchPpc64le \<Rightarrow> Inr Scmp_Ppc64Le
      | ArchS390 \<Rightarrow> Inr Scmp_S390
      | ArchS390x \<Rightarrow> Inr Scmp_S390X
      | ArchParisc \<Rightarrow> Inr Scmp_Parisc
      | ArchParisc64 \<Rightarrow> Inr Scmp_Parisc64
      | ArchRiscv64 \<Rightarrow> Inr Scmp_Riscv64
      | ArchOther name \<Rightarrow> Inl (Invalid (Runtime (Unknown_Architecture (ArchOther name)))))"

definition compare_op :: "seccomp_arg \<Rightarrow> scmp_op" where
  "compare_op a =
     (case arg_op a of
        ScmpCmpNe \<Rightarrow> NotEqual | ScmpCmpLt \<Rightarrow> Less | ScmpCmpLe \<Rightarrow> LessOrEqual | ScmpCmpEq \<Rightarrow> Equal
      | ScmpCmpGe \<Rightarrow> GreaterEqual | ScmpCmpGt \<Rightarrow> Greater
      | ScmpCmpMaskedEq \<Rightarrow> MaskedEqual (opt_or 0 (arg_value_two a)))"

text \<open>\<^verbatim>\<open>u32::try_from\<close> fails on an index of \<open>2 ^ 32\<close> or more.\<close>

definition comparator :: "seccomp_arg \<Rightarrow> error + scmp_compare" where
  "comparator a =
     (if 2 ^ 32 \<le> unat (arg_index a) then Inl (Invalid (Runtime (Arg_Index_Range (arg_index a))))
      else
        let index = ucast (arg_index a) :: u32 in
        if 5 < index then Inl (Invalid (Runtime (Arg_Index_Range (arg_index a))))
        else Inr \<lparr>cmp_arg = index, cmp_op = compare_op a, cmp_datum = arg_value a\<rparr>)"

definition flag_attr :: "seccomp_flag \<Rightarrow> scmp_attr" where
  "flag_attr flag =
     (case flag of
        Flag_Log \<Rightarrow> CtlLog | Flag_Tsync \<Rightarrow> CtlTsync | Flag_SpecAllow \<Rightarrow> CtlSsb
      | Flag_WaitKillableRecv \<Rightarrow> CtlWaitkill)"

definition scmp :: "'w os \<Rightarrow> seccomp_call \<Rightarrow> ('w, unit) io" where
  "scmp os c = checked call_failed (os_unit os) (Scmp c)"

text \<open>The rules of one \<^verbatim>\<open>syscalls\<close> entry; an unknown name is skipped. The count is the source's \<^verbatim>\<open>rules\<close>.\<close>

fun add_names :: "'w os \<Rightarrow> (string \<Rightarrow> int option) \<Rightarrow> scmp_action \<Rightarrow> seccomp_syscall \<Rightarrow> string list \<Rightarrow> nat \<Rightarrow>
    ('w, nat) io" where
  "add_names os syscall_of verdict rule [] rules = ret rules"
| "add_names os syscall_of verdict rule (name # names) rules =
     (case syscall_of name of
        None \<Rightarrow> add_names os syscall_of verdict rule names rules
      | Some number \<Rightarrow>
          bind (lift (collect_results comparator (opt_or [] (sys_args rule)))) (\<lambda>comparators.
          bind (scmp os (Scmp_Add_Rule verdict number comparators)) (\<lambda>_.
            add_names os syscall_of verdict rule names (Suc rules))))"

fun add_syscalls :: "'w os \<Rightarrow> (string \<Rightarrow> int option) \<Rightarrow> seccomp_syscall list \<Rightarrow> nat \<Rightarrow> ('w, nat) io" where
  "add_syscalls os syscall_of [] rules = ret rules"
| "add_syscalls os syscall_of (rule # rest) rules =
     bind (lift (scmp_action_of (sys_action rule) (sys_errno rule))) (\<lambda>verdict.
     bind (add_names os syscall_of verdict rule (sys_names rule) rules) (\<lambda>rules'.
       add_syscalls os syscall_of rest rules'))"

definition seccomp_apply :: "'w os \<Rightarrow> (string \<Rightarrow> int option) \<Rightarrow> linux_seccomp \<Rightarrow> ('w, nat) io" where
  "seccomp_apply os syscall_of sp =
     bind (lift (scmp_action_of (sec_default sp) (sec_default_errno sp))) (\<lambda>default.
     bind (scmp os (Scmp_New default)) (\<lambda>_.
     bind (for_each (\<lambda>a. bind (lift (architecture a)) (\<lambda>mapped. scmp os (Scmp_Add_Arch mapped)))
             (opt_or [] (sec_archs sp))) (\<lambda>_.
     bind (scmp os (Scmp_Set_Attr CtlNnp 0)) (\<lambda>_.
     bind (for_each (\<lambda>flag. scmp os (Scmp_Set_Attr (flag_attr flag) 1)) (opt_or [] (sec_flags sp))) (\<lambda>_.
     bind (add_syscalls os syscall_of (opt_or [] (sec_syscalls sp)) 0) (\<lambda>rules.
     bind (scmp os Scmp_Load) (\<lambda>_. ret rules)))))))"

subsection \<open>The filter a configuration stands for\<close>

text \<open>The specification: the rules as a list, without the loop and without the calls.\<close>

definition name_rules :: "(string \<Rightarrow> int option) \<Rightarrow> scmp_action \<Rightarrow> seccomp_syscall \<Rightarrow> string \<Rightarrow> error + seccomp_call list" where
  "name_rules syscall_of verdict rule name =
     (case syscall_of name of
        None \<Rightarrow> Inr []
      | Some number \<Rightarrow>
          rbind (collect_results comparator (opt_or [] (sys_args rule))) (\<lambda>cs. Inr [Scmp_Add_Rule verdict number cs]))"

definition entry_rules :: "(string \<Rightarrow> int option) \<Rightarrow> seccomp_syscall \<Rightarrow> error + seccomp_call list" where
  "entry_rules syscall_of rule =
     rbind (scmp_action_of (sys_action rule) (sys_errno rule)) (\<lambda>verdict.
     rbind (collect_results (name_rules syscall_of verdict rule) (sys_names rule)) (\<lambda>rs. Inr (concat rs)))"

definition filter_of :: "(string \<Rightarrow> int option) \<Rightarrow> linux_seccomp \<Rightarrow> error + seccomp_call list" where
  "filter_of syscall_of sp =
     rbind (scmp_action_of (sec_default sp) (sec_default_errno sp)) (\<lambda>default.
     rbind (collect_results architecture (opt_or [] (sec_archs sp))) (\<lambda>archs.
     rbind (collect_results (entry_rules syscall_of) (opt_or [] (sec_syscalls sp))) (\<lambda>rules.
       Inr ([Scmp_New default] @ map Scmp_Add_Arch archs @ [Scmp_Set_Attr CtlNnp 0]
            @ map (\<lambda>f. Scmp_Set_Attr (flag_attr f) 1) (opt_or [] (sec_flags sp)) @ concat rules @ [Scmp_Load]))))"

abbreviation done_calls :: "seccomp_call list \<Rightarrow> event list" where
  "done_calls cs \<equiv> map (\<lambda>c. (Scmp c, None)) cs"

lemma scmp_ok: "scmp os c s = (Inr u, s') \<Longrightarrow> st_trace s' = st_trace s @ done_calls [c]"
  unfolding scmp_def by (drule checked_ok) simp

lemma add_names_ok:
  "add_names os syscall_of verdict rule names n s = (Inr m, s') \<Longrightarrow>
   \<exists>rs. collect_results (name_rules syscall_of verdict rule) names = Inr rs
     \<and> m = n + length (concat rs) \<and> st_trace s' = st_trace s @ done_calls (concat rs)"
proof (induction names arbitrary: n s)
  case (Cons name names)
  show ?case
  proof (cases "syscall_of name")
    case None
    with Cons.prems have "add_names os syscall_of verdict rule names n s = (Inr m, s')" by simp
    from Cons.IH [OF this] None show ?thesis by (auto simp: name_rules_def)
  next
    case (Some number)
    with Cons.prems obtain cs s1 where cs: "collect_results comparator (opt_or [] (sys_args rule)) = Inr cs"
      and r: "scmp os (Scmp_Add_Rule verdict number cs) s = (Inr (), s1)"
      and rest: "add_names os syscall_of verdict rule names (Suc n) s1 = (Inr m, s')"
      by (auto simp: bind_Inr lift_Inr)
    from Cons.IH [OF rest] scmp_ok [OF r] cs Some show ?thesis by (auto simp: name_rules_def)
  qed
qed (simp add: ret_Inr)

lemma add_syscalls_ok:
  "add_syscalls os syscall_of rules n s = (Inr m, s') \<Longrightarrow>
   \<exists>rs. collect_results (entry_rules syscall_of) rules = Inr rs
     \<and> m = n + length (concat rs) \<and> st_trace s' = st_trace s @ done_calls (concat rs)"
proof (induction rules arbitrary: n s)
  case (Cons rule rules)
  then obtain verdict k s1 where v: "scmp_action_of (sys_action rule) (sys_errno rule) = Inr verdict"
    and names: "add_names os syscall_of verdict rule (sys_names rule) n s = (Inr k, s1)"
    and rest: "add_syscalls os syscall_of rules k s1 = (Inr m, s')"
    by (auto simp: bind_Inr lift_Inr)
  from add_names_ok [OF names] Cons.IH [OF rest] v show ?case by (auto simp: entry_rules_def)
qed (simp add: ret_Inr)

lemma archs_ok:
  "for_each (\<lambda>a. bind (lift (architecture a)) (\<lambda>mapped. scmp os (Scmp_Add_Arch mapped))) archs s = (Inr u, s') \<Longrightarrow>
   \<exists>ms. collect_results architecture archs = Inr ms \<and> st_trace s' = st_trace s @ done_calls (map Scmp_Add_Arch ms)"
proof (induction archs arbitrary: s)
  case (Cons a archs)
  then obtain m s1 where "architecture a = Inr m" "scmp os (Scmp_Add_Arch m) s = (Inr (), s1)"
    and rest: "for_each (\<lambda>a. bind (lift (architecture a)) (\<lambda>mapped. scmp os (Scmp_Add_Arch mapped))) archs s1 = (Inr u, s')"
    by (auto simp: bind_Inr lift_Inr)
  with Cons.IH [OF rest] scmp_ok show ?case by fastforce
qed (simp add: ret_Inr)


definition sample_seccomp :: linux_seccomp where
  "sample_seccomp = \<lparr>sec_default = ScmpActErrno, sec_default_errno = None, sec_archs = Some [ArchX86_64],
     sec_flags = None, sec_syscalls = Some [\<lparr>sys_names = [''read'', ''nosuch''], sys_action = ScmpActAllow,
       sys_errno = None, sys_args = Some [\<lparr>arg_index = 0, arg_value = 3, arg_value_two = None, arg_op = ScmpCmpEq\<rparr>]\<rparr>]\<rparr>"


end
