(* ===== verification/Mounts.thy ===== *)
theory Mounts
  imports Cgroup Validate
begin

section \<open>Mounts inside the root file system (rootfs/mounts.rs)\<close>

text \<open>
  Mount options become kernel flags and a data string; destinations are resolved lexically below the
  root file system. Flags are 64-bit words with the kernel's values.
\<close>

definition MS_RDONLY :: ms_flags where "MS_RDONLY = 1"
definition MS_NOSUID :: ms_flags where "MS_NOSUID = 2"
definition MS_NODEV :: ms_flags where "MS_NODEV = 4"
definition MS_NOEXEC :: ms_flags where "MS_NOEXEC = 8"
definition MS_SYNCHRONOUS :: ms_flags where "MS_SYNCHRONOUS = 0x10"
definition MS_REMOUNT :: ms_flags where "MS_REMOUNT = 0x20"
definition MS_MANDLOCK :: ms_flags where "MS_MANDLOCK = 0x40"
definition MS_DIRSYNC :: ms_flags where "MS_DIRSYNC = 0x80"
definition MS_NOATIME :: ms_flags where "MS_NOATIME = 0x400"
definition MS_NODIRATIME :: ms_flags where "MS_NODIRATIME = 0x800"
definition MS_BIND :: ms_flags where "MS_BIND = 0x1000"
definition MS_REC :: ms_flags where "MS_REC = 0x4000"
definition MS_UNBINDABLE :: ms_flags where "MS_UNBINDABLE = 0x20000"
definition MS_PRIVATE :: ms_flags where "MS_PRIVATE = 0x40000"
definition MS_SLAVE :: ms_flags where "MS_SLAVE = 0x80000"
definition MS_SHARED :: ms_flags where "MS_SHARED = 0x100000"
definition MS_RELATIME :: ms_flags where "MS_RELATIME = 0x200000"
definition MS_STRICTATIME :: ms_flags where "MS_STRICTATIME = 0x1000000"

lemmas ms_defs = MS_RDONLY_def MS_NOSUID_def MS_NODEV_def MS_NOEXEC_def MS_SYNCHRONOUS_def MS_REMOUNT_def
  MS_MANDLOCK_def MS_DIRSYNC_def MS_NOATIME_def MS_NODIRATIME_def MS_BIND_def MS_REC_def MS_UNBINDABLE_def
  MS_PRIVATE_def MS_SLAVE_def MS_SHARED_def MS_RELATIME_def MS_STRICTATIME_def

record mount_options =
  mo_flags :: ms_flags
  mo_data :: string

text \<open>One arm of the \<^verbatim>\<open>match\<close>: no effect, \<^verbatim>\<open>flags |= m\<close> or \<^verbatim>\<open>flags &= !m\<close>.\<close>

datatype flag_op = Keep | Add ms_flags | Drop ms_flags

definition option_arms :: "(string \<times> flag_op) list" where
  "option_arms =
     [(''defaults'', Keep),
      (''ro'', Add MS_RDONLY), (''rw'', Drop MS_RDONLY),
      (''suid'', Drop MS_NOSUID), (''nosuid'', Add MS_NOSUID),
      (''dev'', Drop MS_NODEV), (''nodev'', Add MS_NODEV),
      (''exec'', Drop MS_NOEXEC), (''noexec'', Add MS_NOEXEC),
      (''sync'', Add MS_SYNCHRONOUS), (''async'', Drop MS_SYNCHRONOUS),
      (''dirsync'', Add MS_DIRSYNC), (''remount'', Add MS_REMOUNT),
      (''mand'', Add MS_MANDLOCK), (''nomand'', Drop MS_MANDLOCK),
      (''atime'', Drop MS_NOATIME), (''noatime'', Add MS_NOATIME),
      (''diratime'', Drop MS_NODIRATIME), (''nodiratime'', Add MS_NODIRATIME),
      (''relatime'', Add MS_RELATIME), (''norelatime'', Drop MS_RELATIME),
      (''strictatime'', Add MS_STRICTATIME), (''nostrictatime'', Drop MS_STRICTATIME),
      (''bind'', Add MS_BIND), (''rbind'', Add (MS_BIND OR MS_REC)),
      (''unbindable'', Add MS_UNBINDABLE), (''runbindable'', Add (MS_UNBINDABLE OR MS_REC)),
      (''private'', Add MS_PRIVATE), (''rprivate'', Add (MS_PRIVATE OR MS_REC)),
      (''shared'', Add MS_SHARED), (''rshared'', Add (MS_SHARED OR MS_REC)),
      (''slave'', Add MS_SLAVE), (''rslave'', Add (MS_SLAVE OR MS_REC))]"

fun apply_op :: "flag_op \<Rightarrow> ms_flags \<Rightarrow> ms_flags" where
  "apply_op Keep f = f"
| "apply_op (Add m) f = f OR m"
| "apply_op (Drop m) f = f AND NOT m"

fun parse_loop :: "string list \<Rightarrow> ms_flags \<Rightarrow> string list \<Rightarrow> ms_flags \<times> string list" where
  "parse_loop [] flags data = (flags, data)"
| "parse_loop (opt # opts) flags data =
     (case map_of option_arms opt of
        Some f \<Rightarrow> parse_loop opts (apply_op f flags) data
      | None \<Rightarrow> parse_loop opts flags (data @ [opt]))"

definition parse_options :: "string list \<Rightarrow> mount_options" where
  "parse_options opts =
     (case parse_loop opts 0 [] of (flags, data) \<Rightarrow> \<lparr>mo_flags = flags, mo_data = join_with '','' data\<rparr>)"

definition contains_flag :: "ms_flags \<Rightarrow> ms_flags \<Rightarrow> bool" where
  "contains_flag flags m \<longleftrightarrow> flags AND m = m"

subsection \<open>Destinations\<close>

text \<open>\<^verbatim>\<open>PathBuf::pop\<close>.\<close>

definition pop_path :: "path \<Rightarrow> path" where
  "pop_path p = (case parent p of Some q \<Rightarrow> q | None \<Rightarrow> p)"

fun resolve_step :: "path \<Rightarrow> path \<Rightarrow> component \<Rightarrow> path" where
  "resolve_step rootfs out (Normal part) = join_path out part"
| "resolve_step rootfs out ParentDir = (if \<not> path_eq out rootfs then pop_path out else out)"
| "resolve_step rootfs out _ = out"

definition resolve :: "path \<Rightarrow> path \<Rightarrow> path" where
  "resolve rootfs destination = foldl (resolve_step rootfs) rootfs (components destination)"

definition unified_cgroup_host :: "'w os \<Rightarrow> ('w, bool) io" where
  "unified_cgroup_host os = bind (perform (os_num os) (Fs (Statfs ''/sys/fs/cgroup'')))
     (\<lambda>r. ret (r = Inr CGROUP2_SUPER_MAGIC))"

definition effective_fstype :: "string \<Rightarrow> bool \<Rightarrow> string" where
  "effective_fstype requested unified_host =
     (if requested = ''cgroup'' \<and> unified_host then ''cgroup2'' else requested)"

definition link_ptmx :: "'w os \<Rightarrow> path \<Rightarrow> ('w, unit) io" where
  "link_ptmx os rootfs =
     (let ptmx = join_path rootfs ''dev/ptmx'' in
      bind (lexists os ptmx) (\<lambda>there.
      bind (do_when there (io_unit os (Remove_File ptmx))) (\<lambda>_.
        io_unit os (Symlink ''pts/ptmx'' ptmx))))"

definition prepare_target :: "'w os \<Rightarrow> path \<Rightarrow> bool \<Rightarrow> path \<Rightarrow> ('w, unit) io" where
  "prepare_target os source bind_mount destination =
     bind (if bind_mount then is_file os source else ret False) (\<lambda>file.
       if file then
         bind (case parent destination of None \<Rightarrow> ret () | Some p \<Rightarrow> io_unit os (Create_Dir_All p)) (\<lambda>_.
         bind (path_exists os destination) (\<lambda>there.
           do_when (\<not> there) (io_unit os (Create_File destination))))
       else io_unit os (Create_Dir_All destination))"

definition apply_one :: "'w os \<Rightarrow> path \<Rightarrow> mount_spec \<Rightarrow> bool \<Rightarrow> ('w, unit) io" where
  "apply_one os rootfs m unified_host =
     (let destination = resolve rootfs (mnt_destination m);
          fstype = effective_fstype (opt_or ''none'' (mnt_typ m)) unified_host;
          source = opt_or ''none'' (mnt_source m);
          opts = parse_options (opt_or [] (mnt_options m)) in
      bind (prepare_target os source (contains_flag (mo_flags opts) MS_BIND) destination) (\<lambda>_.
      bind (nix_mount os (Mount (Some source) destination (Some fstype) (mo_flags opts)
              (if mo_data opts = [] then None else Some (mo_data opts)))) (\<lambda>_.
        do_when (fstype = ''devpts'') (link_ptmx os rootfs))))"

definition mounts_apply :: "'w os \<Rightarrow> path \<Rightarrow> mount_spec list \<Rightarrow> ('w, unit) io" where
  "mounts_apply os rootfs ms =
     bind (unified_cgroup_host os) (\<lambda>unified. for_each (\<lambda>m. apply_one os rootfs m unified) ms)"

subsection \<open>The last option decides\<close>

text \<open>The flags an option sets and clears.\<close>

definition sets_bit :: "string \<Rightarrow> nat \<Rightarrow> bool" where
  "sets_bit opt n = (case map_of option_arms opt of Some (Add m) \<Rightarrow> bit m n | _ \<Rightarrow> False)"

definition clears_bit :: "string \<Rightarrow> nat \<Rightarrow> bool" where
  "clears_bit opt n = (case map_of option_arms opt of Some (Drop m) \<Rightarrow> bit m n | _ \<Rightarrow> False)"

lemma bit_apply_op:
  "bit (apply_op f flags) n \<longleftrightarrow>
     (case f of Keep \<Rightarrow> bit flags n | Add m \<Rightarrow> bit flags n \<or> bit m n | Drop m \<Rightarrow> bit flags n \<and> \<not> bit m n)"
  by (cases f) (auto simp: bit_or_iff bit_and_iff bit_not_iff dest: bit_imp_le_length)

lemma parse_loop_app: "parse_loop (xs @ ys) flags data =
    (case parse_loop xs flags data of (f, d) \<Rightarrow> parse_loop ys f d)"
  by (induction xs arbitrary: flags data) (auto split: option.splits)

lemma parse_loop_data: "snd (parse_loop opts flags data) = data @ filter (\<lambda>opt. map_of option_arms opt = None) opts"
  by (induction opts arbitrary: flags data) (auto split: option.splits)

lemma parse_loop_bit:
  "bit (fst (parse_loop opts flags data)) n \<longleftrightarrow>
     (case find (\<lambda>opt. sets_bit opt n \<or> clears_bit opt n) (rev opts) of
        Some opt \<Rightarrow> sets_bit opt n | None \<Rightarrow> bit flags n)"
proof (induction opts rule: rev_induct)
  case (snoc opt opts)
  obtain f d where fd: "parse_loop opts flags data = (f, d)" by fastforce
  with snoc have ih: "bit f n \<longleftrightarrow>
     (case find (\<lambda>opt. sets_bit opt n \<or> clears_bit opt n) (rev opts) of
        Some opt \<Rightarrow> sets_bit opt n | None \<Rightarrow> bit flags n)" by simp
  show ?case
    by (cases "map_of option_arms opt")
       (auto simp: parse_loop_app fd ih bit_apply_op sets_bit_def clears_bit_def split: flag_op.splits)
qed simp

text \<open>in a list of mount options the last one that concerns a flag decides it (\<open>ro\<close> and \<open>rw\<close>, \<open>suid\<close> and
  \<open>nosuid\<close>, ...), a flag no option concerns is off, and exactly the options that are no flags reach the
  file system as its data, in order.\<close>

theorem parse_options_last_wins:
  "bit (mo_flags (parse_options opts)) n =
     (case find (\<lambda>opt. sets_bit opt n \<or> clears_bit opt n) (rev opts) of
        Some opt \<Rightarrow> sets_bit opt n | None \<Rightarrow> False)
   \<and> mo_data (parse_options opts) = join_with '','' (filter (\<lambda>opt. opt \<notin> set (map fst option_arms)) opts)"
proof -
  obtain f d where fd: "parse_loop opts 0 [] = (f, d)" by fastforce
  show ?thesis
    using parse_loop_bit [of opts 0 "[]" n] parse_loop_data [of opts 0 "[]"] fd
    by (simp add: parse_options_def map_of_eq_None_iff split: option.split)
qed

subsection \<open>Destinations stay below the root file system\<close>

lemma resolve_step_below:
  assumes "has_root rootfs" and "has_root out" and "starts_with out rootfs"
    and "\<And>n. c = Normal n \<Longrightarrow> plain_name n"
  shows "has_root (resolve_step rootfs out c) \<and> starts_with (resolve_step rootfs out c) rootfs"
proof (cases c)
  case (Normal n)
  have "out \<noteq> []" using assms(2) by (auto simp: has_root_def)
  moreover have "plain_name n" using assms(4) Normal by simp
  ultimately show ?thesis
    using assms(2,3) Normal by (auto simp: has_root_join components_join_plain starts_with_iff)
next
  case ParentDir
  show ?thesis
  proof (cases "path_eq out rootfs")
    case False
    with assms(3) obtain cs where cs: "components out = components rootfs @ cs" "cs \<noteq> []"
      by (auto simp: starts_with_iff path_eq_def)
    from assms(1) obtain rs where "components rootfs = RootDir # rs" by (auto simp: components_rooted_iff)
    with cs have "components out \<noteq> [RootDir]" by (cases cs) auto
    then obtain q where q: "parent out = Some q"
      using parent_None_rooted [OF assms(2)] by auto
    have "components q = butlast (components out)" using components_parent assms(2) q by blast
    with cs have "components q = components rootfs @ butlast cs" by (simp add: butlast_append)
    moreover have "has_root q" using parent_has_root assms(2) q by blast
    ultimately show ?thesis using False ParentDir q by (simp add: pop_path_def starts_with_iff)
  qed (use assms ParentDir in simp)
qed (use assms in simp_all)

lemma resolve_below:
  assumes "has_root rootfs"
  shows "has_root (resolve rootfs d) \<and> starts_with (resolve rootfs d) rootfs"
proof -
  have "has_root (foldl (resolve_step rootfs) out cs) \<and> starts_with (foldl (resolve_step rootfs) out cs) rootfs"
    if "\<And>n. Normal n \<in> set cs \<Longrightarrow> plain_name n" "has_root out" "starts_with out rootfs" for cs out
    using that
  proof (induction cs arbitrary: out)
    case (Cons c cs)
    have "has_root (resolve_step rootfs out c) \<and> starts_with (resolve_step rootfs out c) rootfs"
      using Cons.prems by (intro resolve_step_below [OF assms]) auto
    with Cons show ?case by simp
  qed simp
  from this [of "components d" rootfs] show ?thesis
    using assms normal_components_plain by (auto simp: resolve_def)
qed

definition mount_call_ok :: "path \<Rightarrow> call \<Rightarrow> bool" where
  "mount_call_ok rootfs c \<longleftrightarrow>
     below rootfs c \<or> (\<exists>p. c = Fs (Create_Dir_All p) \<and> components p = butlast (components rootfs))"

lemma below_simps [simp]:
  "below base (Fs (Stat p))" "below base (Fs (Lstat p))" "below base (Fs (Statfs p))"
  "below base (Fs (Create_Dir_All p)) = starts_with p base"
  "below base (Fs (Create_File p)) = starts_with p base"
  "below base (Fs (Remove_File p)) = starts_with p base"
  "below base (Fs (Symlink q p)) = starts_with p base"
  "below base (Fs (Set_Mode p m)) = starts_with p base"
  "below base (Fs (Write_File p v)) = starts_with p base"
  "below base (Mnt (Mount src p typ f opts)) = starts_with p base"
  "below base (Mnt (Mknod p k m x y)) = starts_with p base"
  "below base (Mnt (Chown p u g)) = starts_with p base"
  by (simp_all add: below_def)

lemma parent_below:
  assumes "has_root p" "starts_with p rootfs" "parent p = Some q"
  shows "starts_with q rootfs \<or> components q = butlast (components rootfs)"
proof -
  have q: "components q = butlast (components p)" using components_parent assms by blast
  obtain cs where "components p = components rootfs @ cs" using assms(2) by (auto simp: starts_with_iff)
  with q show ?thesis by (cases "cs = []") (auto simp: butlast_append starts_with_iff)
qed

lemma only_prepare_target:
  assumes "has_root destination" "starts_with destination rootfs"
  shows "only (mount_call_ok rootfs) (prepare_target os source b destination)"
  using assms parent_below [OF assms]
  unfolding prepare_target_def
  by (auto intro!: only_bind only_if only_option only_ret only_checked only_stat only_do_when
      simp: mount_call_ok_def)

lemma ptmx_below: "has_root rootfs \<Longrightarrow> starts_with (join_path rootfs ''dev/ptmx'') rootfs"
  by (rule starts_with_join) (auto simp: has_root_def)

lemma only_apply_one:
  assumes "has_root rootfs"
  shows "only (mount_call_ok rootfs) (apply_one os rootfs m u)"
  using resolve_below [OF assms, of "mnt_destination m"] ptmx_below [OF assms]
  unfolding apply_one_def Let_def link_ptmx_def
  by (auto intro!: only_bind only_prepare_target only_checked only_do_when only_stat
      simp: mount_call_ok_def)

text \<open>C15: whatever the configuration names as destinations (\<open>..\<close>, absolute paths, repeated separators),
  everything \<open>mounts::apply\<close> changes lies, lexically, at or below the root file system of the container;
  the one exception is creating the directory that holds the root file system itself.\<close>

theorem mounts_stay_in_rootfs:
  assumes "has_root rootfs"
  shows "only (mount_call_ok rootfs) (mounts_apply os rootfs ms)
     \<and> starts_with (resolve rootfs d) rootfs"
  using resolve_below [OF assms]
  unfolding mounts_apply_def unified_cgroup_host_def
  by (auto intro!: only_bind only_perform only_ret only_for_each only_apply_one [OF assms]
      simp: mount_call_ok_def)

lemma mounts_stay_in_rootfs_witness:
  "starts_with (resolve ''/c/rootfs'' ''/../../etc/passwd'') ''/c/rootfs''"
proof -
  have "has_root ''/c/rootfs''" by (simp add: has_root_def)
  from mounts_stay_in_rootfs [OF this] show ?thesis by blast
qed

end
