(* ===== verification/Console.thy ===== *)
theory Console
  imports Credentials Mounts
begin

section \<open>The container's terminal (container/console.rs)\<close>

text \<open>
  \<^verbatim>\<open>open_socket\<close> connects to the caller's socket before anything is forked; \<^verbatim>\<open>setup\<close>, inside the container,
  allocates a terminal, sends its master over that socket and makes the slave the process's console.
  Closing a descriptor has no result the source looks at and is not modelled.
\<close>

definition open_socket :: "'w os \<Rightarrow> path \<Rightarrow> ('w, fd) io" where
  "open_socket os socket_path =
     bind (checked Nix (os_num os) (Fd Socket_Stream)) (\<lambda>stream.
     bind (checked Nix (os_unit os) (Fd (Unix_Addr socket_path))) (\<lambda>_.
     bind (checked Nix (os_unit os) (Fd (Connect stream socket_path))) (\<lambda>_.
       ret stream)))"

definition pty_name :: "'w os \<Rightarrow> fd \<Rightarrow> ('w, string) io" where
  "pty_name os master = checked call_failed (os_text os) (Fd (Ptsname master))"

definition send_master :: "'w os \<Rightarrow> fd \<Rightarrow> fd \<Rightarrow> string \<Rightarrow> ('w, unit) io" where
  "send_master os socket master name = checked Nix (os_unit os) (Fd (Send_Fd socket master name))"

definition bind_console :: "'w os \<Rightarrow> path \<Rightarrow> ('w, unit) io" where
  "bind_console os slave_path =
     bind (path_exists os ''/dev/console'') (\<lambda>there.
     bind (do_when (\<not> there) (io_unit os (Create_File ''/dev/console''))) (\<lambda>_.
       nix_mount os (Mount (Some slave_path) ''/dev/console'' None MS_BIND None)))"

definition adopt :: "'w os \<Rightarrow> fd \<Rightarrow> ('w, unit) io" where
  "adopt os slave =
     bind (checked Nix (os_unit os) (Fd Setsid)) (\<lambda>_.
     bind (checked call_failed (os_unit os) (Fd (Claim_Tty slave))) (\<lambda>_.
     bind (checked Nix (os_unit os) (Fd (Dup_Onto slave 0))) (\<lambda>_.
     bind (checked Nix (os_unit os) (Fd (Dup_Onto slave 1))) (\<lambda>_.
           checked Nix (os_unit os) (Fd (Dup_Onto slave 2))))))"

definition console_setup :: "'w os \<Rightarrow> fd \<Rightarrow> ('w, unit) io" where
  "console_setup os socket =
     bind (checked Nix (os_pair os) (Fd Openpty)) (\<lambda>(master, slave).
     bind (pty_name os master) (\<lambda>name.
     bind (send_master os socket master name) (\<lambda>_.
     bind (bind_console os name) (\<lambda>_.
           adopt os slave))))"

fun console_call :: "call \<Rightarrow> bool" where
  "console_call (Fd c) = (c \<in> {Openpty, Setsid} \<or> (\<exists>f n p v. c \<in> {Ptsname f, Send_Fd f n v, Claim_Tty f, Dup_Onto f p}))"
| "console_call (Fs c) = (c \<in> {Stat ''/dev/console'', Create_File ''/dev/console''})"
| "console_call (Mnt (Mount src t typ flags opts)) = (t = ''/dev/console'' \<and> flags = MS_BIND)"
| "console_call c = False"

lemma only_console_setup_calls: "only console_call (console_setup os socket)"
  unfolding console_setup_def pty_name_def send_master_def bind_console_def adopt_def
  by (auto intro!: hoare split: prod.split)

lemma only_console_setup [hoare]: "(\<And>c. console_call c \<Longrightarrow> P c) \<Longrightarrow> only P (console_setup os socket)"
  by (rule only_weaken [OF only_console_setup_calls])

end
