(* ===== verification/Fifo.thy ===== *)
theory Fifo
  imports Ordering
begin

section \<open>The start fifo (container/fifo.rs)\<close>

text \<open>
  A created container waits on a named pipe in its directory. \<^verbatim>\<open>create\<close> makes it, the container's init
  parks on it through its inherited descriptor, and \<^verbatim>\<open>release\<close> reads the one byte and removes it, so
  that a second start finds nothing. Bytes are characters.
\<close>

definition HANDSHAKE :: char where "HANDSHAKE = CHR ''0''"
definition MODE :: u32 where "MODE = 0x192"

definition fifo_create :: "'w os \<Rightarrow> path \<Rightarrow> ('w, fd) io" where
  "fifo_create os p =
     bind (path_exists os p) (\<lambda>there.
     bind (do_when there (io_unit os (Remove_File p))) (\<lambda>_.
     bind (checked Nix (os_unit os) (Fd (Mkfifo p MODE))) (\<lambda>_.
     bind (io_unit os (Set_Mode p MODE)) (\<lambda>_.
       checked Nix (os_num os) (Fd (Open_Path p))))))"

definition fifo_park :: "'w os \<Rightarrow> fd \<Rightarrow> ('w, unit) io" where
  "fifo_park os handle =
     bind (checked Nix (os_num os) (Fd (Open_Write (''/proc/self/fd/'' @ show_int handle)))) (\<lambda>writer.
     bind (checked Nix (os_num os) (Fd (Fd_Write writer [HANDSHAKE]))) (\<lambda>_. ret ()))"

definition fifo_release :: "'w os \<Rightarrow> path \<Rightarrow> ('w, unit) io" where
  "fifo_release os p =
     bind (path_exists os p) (\<lambda>there.
       if \<not> there then throw (Invalid (Runtime (Already_Started p)))
       else
         bind (checked Nix (os_num os) (Fd (Open_Read p))) (\<lambda>reader.
         bind (checked Nix (os_text os) (Fd (Fd_Read reader 1))) (\<lambda>buffer.
           if buffer = []
           then throw (InitFailed ''the container init closed the exec fifo without writing; it died between create and start'')
           else if hd buffer \<noteq> HANDSHAKE then throw (Sync_Byte (char_code (hd buffer)))
           else io_unit os (Remove_File p))))"

lemma only_fifo_release [hoare]:
  "P (Fs (Stat p)) \<Longrightarrow> P (Fd (Open_Read p)) \<Longrightarrow> (\<And>r. P (Fd (Fd_Read r 1))) \<Longrightarrow> P (Fs (Remove_File p)) \<Longrightarrow>
   only P (fifo_release os p)"
  unfolding fifo_release_def by (intro only_bind only_stat only_if only_throw only_checked)

text \<open>starting consumes the fifo: a \<open>release\<close> that succeeds has read the init's handshake byte and
  then removed the fifo; in every run the fifo is removed only after that read; and a \<open>release\<close> that
  finds no fifo fails before it opens anything, so a container is started at most once.\<close>

theorem release_consumes_fifo:
  "does (fifo_release os p) (Fs (Remove_File p), None)
   \<and> guarded (\<lambda>ev. \<exists>h. ev = (Fd (Fd_Read h 1), None)) (\<lambda>c. c = Fs (Remove_File p)) (fifo_release os p)
   \<and> (fst (path_exists os p s) = Inr False \<longrightarrow>
        fst (fifo_release os p s) = Inl (Invalid (Runtime (Already_Started p)))
        \<and> snd (fifo_release os p s) = snd (path_exists os p s))"
proof (intro conjI impI)
  show "does (fifo_release os p) (Fs (Remove_File p), None)"
    unfolding fifo_release_def
    by (auto intro!: does_bind2 does_checked does_throw only_checked only_stat)
  show "guarded (\<lambda>ev. \<exists>h. ev = (Fd (Fd_Read h 1), None)) (\<lambda>c. c = Fs (Remove_File p)) (fifo_release os p)"
    unfolding fifo_release_def
    by (rule guarded_bind, rule guarded_only, fastforce intro: hoare, rule guarded_if,
        rule guarded_only, rule only_throw, rule guarded_bind, rule guarded_checked, simp, rule guarded_then)
       (auto intro: guarded_checked ensures_checked hoare)
next
  assume "fst (path_exists os p s) = Inr False"
  then obtain s1 where "path_exists os p s = (Inr False, s1)" by (cases "path_exists os p s") simp
  then show "fst (fifo_release os p s) = Inl (Invalid (Runtime (Already_Started p)))"
    and "snd (fifo_release os p s) = snd (path_exists os p s)"
    by (simp_all add: fifo_release_def bind_def throw_def)
qed

lemma release_consumes_fifo_witness:
  "fst (fifo_release (fixed_os Kind_Fifo ''0'' 3) ''/f'' start_state) = Inr ()
   \<and> does (fifo_release (fixed_os Kind_Fifo ''0'' 3) ''/f'') (Fs (Remove_File ''/f''), None)"
  using release_consumes_fifo [of "fixed_os Kind_Fifo ''0'' 3" "''/f''" start_state]
  by (simp add: fifo_release_def io_simps fixed_os_def HANDSHAKE_def start_state_def)

end
