(* ===== verification/Signal.thy ===== *)
theory Signal
  imports Ordering
begin

section \<open>Signals and supervision (container/signal.rs)\<close>

text \<open>
  The table of signals (\<^verbatim>\<open>nix::sys::signal::Signal\<close>: names with their numbers) is a parameter \<open>sigs\<close>.
  \<^verbatim>\<open>supervise\<close> waits for signals until the init process is reaped; its two loops take fuel, one unit
  per signal or reaped child.
\<close>

definition SIGHUP :: signal where "SIGHUP = 1"
definition SIGINT :: signal where "SIGINT = 2"
definition SIGQUIT :: signal where "SIGQUIT = 3"
definition SIGKILL :: signal where "SIGKILL = 9"
definition SIGUSR1 :: signal where "SIGUSR1 = 10"
definition SIGUSR2 :: signal where "SIGUSR2 = 12"
definition SIGTERM :: signal where "SIGTERM = 15"
definition SIGCHLD :: signal where "SIGCHLD = 17"
definition SIGWINCH :: signal where "SIGWINCH = 28"

definition FORWARDED :: "signal list" where
  "FORWARDED = [SIGTERM, SIGINT, SIGQUIT, SIGHUP, SIGUSR1, SIGUSR2, SIGWINCH]"

definition blocked_set :: "signal list" where
  "blocked_set = FORWARDED @ [SIGCHLD]"

definition block_forwardable :: "'w os \<Rightarrow> ('w, signal list) io" where
  "block_forwardable os =
     bind (checked raw_syscall (os_unit os) (Proc (Sig_Block blocked_set))) (\<lambda>_. ret blocked_set)"

definition unblock_all :: "'w os \<Rightarrow> ('w, unit) io" where
  "unblock_all os = checked raw_syscall (os_unit os) (Proc (Sig_Setmask []))"

definition signal_named :: "(string \<times> signal) list \<Rightarrow> string \<Rightarrow> signal option" where
  "signal_named sigs bare =
     map_option snd (find (\<lambda>(name, _). strip_prefix ''SIG'' name = Some bare) sigs)"

definition signal_parse :: "(string \<times> signal) list \<Rightarrow> string \<Rightarrow> error + signal" where
  "signal_parse sigs name =
     (let trimmed = trim name in
      case parse_i32 trimmed of
        Some number \<Rightarrow>
          if number \<in> snd ` set sigs then Inr number
          else Inl (Invalid (Command (Bad_Signal_Number number)))
      | None \<Rightarrow>
          let upper = to_upper trimmed;
              bare = (case strip_prefix ''SIG'' upper of Some b \<Rightarrow> b | None \<Rightarrow> upper)
          in ok_or (Invalid (Command (Unknown_Signal name))) (signal_named sigs bare))"

text \<open>\<^verbatim>\<open>as u8\<close> keeps the low byte.\<close>

definition exit_code :: "pid \<Rightarrow> wait_status \<Rightarrow> u8 option" where
  "exit_code init st =
     (case st of
        Exited p code \<Rightarrow> if p = init then Some (word_of_int code) else None
      | Signaled p term \<Rightarrow> if p = init then Some (word_of_int (128 + term)) else None
      | _ \<Rightarrow> None)"

text \<open>The inner loop: reaps until nothing is left (None) or the init is (its code).\<close>

fun reap :: "'w os \<Rightarrow> pid \<Rightarrow> nat \<Rightarrow> ('w, u8 option) io" where
  "reap os init 0 = throw Out_Of_Fuel"
| "reap os init (Suc n) =
     bind (perform (os_wait os) (Proc Waitpid_Any)) (\<lambda>r.
       case r of
         Inr st \<Rightarrow>
           (case exit_code init st of
              Some code \<Rightarrow> ret (Some code)
            | None \<Rightarrow> if st = Still_Alive then ret None else reap os init n)
       | Inl e \<Rightarrow> if e = ECHILD then ret None else throw (Syscall e))"

fun supervise :: "'w os \<Rightarrow> signal list \<Rightarrow> pid \<Rightarrow> nat \<Rightarrow> ('w, u8) io" where
  "supervise os blocked init 0 = throw Out_Of_Fuel"
| "supervise os blocked init (Suc n) =
     bind (checked raw_syscall (os_num os) (Proc (Sig_Wait blocked))) (\<lambda>signal.
       if signal \<noteq> SIGCHLD
       then bind (ignore (checked raw_syscall (os_unit os) (Proc (Kill init signal)))) (\<lambda>_.
              supervise os blocked init n)
       else bind (reap os init n) (\<lambda>done_code.
              case done_code of Some code \<Rightarrow> ret code | None \<Rightarrow> supervise os blocked init n))"

subsection \<open>What supervising returns\<close>

lemma reap_code:
  "reap os init n s = (Inr (Some code), s') \<Longrightarrow>
     \<exists>w st. fst (os_wait os (Proc Waitpid_Any) w) = Inr st \<and> exit_code init st = Some code"
proof (induction n arbitrary: s)
  case (Suc n)
  obtain q w where q: "os_wait os (Proc Waitpid_Any) (st_world s) = (q, w)" by fastforce
  show ?case
  proof (cases q)
    case (Inr st)
    with q have "fst (os_wait os (Proc Waitpid_Any) (st_world s)) = Inr st" by simp
    moreover have "exit_code init st = Some code \<or> (\<exists>s1. reap os init n s1 = (Inr (Some code), s'))"
      using Inr Suc.prems q by (auto simp: bind_def perform_def ret_def split: if_splits option.splits)
    ultimately show ?thesis using Suc.IH by blast
  qed (use Suc.prems q in \<open>auto simp: bind_def perform_def ret_def throw_def split: if_splits\<close>)
qed (simp add: throw_def)

lemma reap_more:
  "reap os init n s = (r, s') \<Longrightarrow> r \<noteq> Inl Out_Of_Fuel \<Longrightarrow> reap os init (n + k) s = (r, s')"
proof (induction n arbitrary: s)
  case (Suc n)
  then show ?case
    by (auto simp: bind_def perform_def split: prod.splits sum.splits option.splits if_splits)
qed (simp add: throw_def)

lemma ignore_run: "\<exists>s'. ignore m s = (Inr (), s')"
  by (simp add: ignore_def bind_def attempt_def ret_def split: prod.split)

lemma supervise_more:
  "supervise os blocked init n s = (r, s') \<Longrightarrow> r \<noteq> Inl Out_Of_Fuel \<Longrightarrow> supervise os blocked init (n + k) s = (r, s')"
proof (induction n arbitrary: s)
  case (Suc n)
  obtain q s1 where m: "checked raw_syscall (os_num os) (Proc (Sig_Wait blocked)) s = (q, s1)" by fastforce
  show ?case
  proof (cases q)
    case (Inl e)
    with Suc.prems m show ?thesis by (simp add: bind_def)
  next
    case (Inr sig)
    obtain s2 where kill: "ignore (checked raw_syscall (os_unit os) (Proc (Kill init sig))) s1 = (Inr (), s2)"
      using ignore_run by blast
    obtain rr s3 where reap: "reap os init n s1 = (rr, s3)" by fastforce
    show ?thesis
    proof (cases "sig = SIGCHLD")
      case True
      have "rr \<noteq> Inl Out_Of_Fuel"
        using Suc.prems m Inr True reap by (auto simp: bind_def)
      with Suc m Inr True reap reap_more [OF reap] show ?thesis
        by (cases rr) (auto simp: bind_def split: option.splits)
    next
      case False
      with Suc m Inr kill show ?thesis by (simp add: bind_def)
    qed
  qed
qed (simp add: throw_def)

lemma supervise_code:
  "supervise os blocked init n s = (Inr code, s') \<Longrightarrow>
     \<exists>w st. fst (os_wait os (Proc Waitpid_Any) w) = Inr st \<and> exit_code init st = Some code"
proof (induction n arbitrary: s)
  case (Suc n)
  then obtain sig s1 where "checked raw_syscall (os_num os) (Proc (Sig_Wait blocked)) s = (Inr sig, s1)"
    by (auto simp: bind_Inr)
  with Suc show ?case
    by (auto simp: bind_Inr ignore_def ret_Inr split: if_splits option.splits dest!: reap_code) 
qed (simp add: throw_def)

lemma only_supervise: "only (\<lambda>c. c = Proc (Sig_Wait blocked) \<or> c = Proc Waitpid_Any \<or> (\<exists>sig. sig \<noteq> SIGCHLD \<and> c = Proc (Kill init sig)))
    (supervise os blocked init n)"
proof -
  let ?P = "\<lambda>c. c = Proc (Sig_Wait blocked) \<or> c = Proc Waitpid_Any \<or> (\<exists>sig. sig \<noteq> SIGCHLD \<and> c = Proc (Kill init sig))"
  have reap: "only ?P (reap os init k)" for k
    by (induction k) (auto intro!: hoare split: sum.split option.split)
  show ?thesis
    by (induction n) (auto intro!: hoare reap split: option.split)
qed

text \<open>C29: supervising returns the init's own end and nothing else: a code is the low byte of the exit status, or
  128 plus the signal, of a child whose number is the init's. Until then it does nothing but wait,
  reap and pass signals on to the init, never \<open>SIGCHLD\<close>. The bound on the loop only cuts it short: a
  run that ends within some bound ends the same with every larger one.\<close>

theorem supervise_returns_exit:
  assumes "supervise os blocked init n s = (r, s')" "r \<noteq> Inl Out_Of_Fuel"
  shows "(\<forall>code. r = Inr code \<longrightarrow> (\<exists>w c. fst (os_wait os (Proc Waitpid_Any) w) = Inr (Exited init c) \<and> code = word_of_int c
           \<or> fst (os_wait os (Proc Waitpid_Any) w) = Inr (Signaled init c) \<and> code = word_of_int (128 + c)))
    \<and> supervise os blocked init (n + k) s = (r, s')
    \<and> (\<exists>tr. st_trace s' = st_trace s @ tr \<and> list_all (\<lambda>ev. fst ev = Proc (Sig_Wait blocked) \<or> fst ev = Proc Waitpid_Any
         \<or> (\<exists>sig. sig \<noteq> SIGCHLD \<and> fst ev = Proc (Kill init sig))) tr)"
proof (intro conjI allI impI)
  fix code assume "r = Inr code"
  with assms(1) supervise_code obtain w st where
    "fst (os_wait os (Proc Waitpid_Any) w) = Inr st" "exit_code init st = Some code" by blast
  then show "\<exists>w c. fst (os_wait os (Proc Waitpid_Any) w) = Inr (Exited init c) \<and> code = word_of_int c
           \<or> fst (os_wait os (Proc Waitpid_Any) w) = Inr (Signaled init c) \<and> code = word_of_int (128 + c)"
    by (auto simp: exit_code_def split: wait_status.splits if_splits)
next
  show "supervise os blocked init (n + k) s = (r, s')" by (rule supervise_more [OF assms])
qed (rule onlyD [OF only_supervise assms(1)])

text \<open>A system on which a terminating signal is followed by the end of the init.\<close>

definition exiting_os :: "unit os" where
  "exiting_os = (fixed_os Kind_File [] 17)\<lparr>os_wait := \<lambda>c w. (Inr (Exited 7 3), w)\<rparr>"

lemma supervise_returns_exit_witness:
  "fst (supervise exiting_os [15] 7 (2 + 3) start_state) = Inr 3"
proof -
  have "fst (supervise exiting_os [15] 7 2 start_state) = Inr 3"
    by (simp add: numeral_2_eq_2 exiting_os_def fixed_os_def io_simps SIGCHLD_def exit_code_def)
  from supervise_returns_exit [OF run_eq [of "supervise exiting_os [15] 7 2", OF this], of 3] show ?thesis by simp
qed

end
