(* ===== verification/Sync.thy ===== *)
theory Sync
  imports Codec
begin

section \<open>The handshake channel (sync.rs)\<close>

text \<open>
  One socket pair joins the creating process with its children: a message is one packet of JSON.
  Which end a process uses is clear from the process, so the calls carry no descriptor. The reply of
  \<open>Sock_Recv n\<close> is what \<^verbatim>\<open>read\<close> puts into a buffer of \<open>n\<close> bytes, empty when the peer closed.
\<close>

definition MAX_MESSAGE :: nat where "MAX_MESSAGE = 16 * 1024"

definition sync_pair :: "'w os \<Rightarrow> ('w, unit) io" where
  "sync_pair os = checked raw_syscall (os_unit os) (Sync_Call Socketpair)"

definition sync_send :: "'w os \<Rightarrow> codec \<Rightarrow> message \<Rightarrow> ('w, unit) io" where
  "sync_send os cd m =
     bind (json (enc_msg cd m)) (\<lambda>buf. checked raw_syscall (os_unit os) (Sync_Call (Sock_Send buf)))"

definition sync_recv :: "'w os \<Rightarrow> codec \<Rightarrow> ('w, message) io" where
  "sync_recv os cd =
     bind (checked raw_syscall (os_text os) (Sync_Call (Sock_Recv MAX_MESSAGE))) (\<lambda>buf.
       if buf = [] then throw SyncClosed else json (dec_msg cd buf))"

text \<open>The name a message is expected by.\<close>

definition message_name :: "message \<Rightarrow> string" where
  "message_name m =
     (case m of
        RequestUserMapping \<Rightarrow> ''RequestUserMapping'' | UserMappingDone \<Rightarrow> ''UserMappingDone''
      | InitPid _ _ \<Rightarrow> ''InitPid'' | CgroupApplied _ \<Rightarrow> ''CgroupApplied''
      | InitReady _ \<Rightarrow> ''InitReady'' | Failed _ \<Rightarrow> ''Failed'')"

definition accept :: "string \<Rightarrow> message \<Rightarrow> error + message" where
  "accept want m =
     (case m of
        Failed reason \<Rightarrow> Inl (InitFailed reason)
      | _ \<Rightarrow> if message_name m = want then Inr m else Inl (Sync_Expected want m))"

definition sync_expect :: "'w os \<Rightarrow> codec \<Rightarrow> string \<Rightarrow> ('w, message) io" where
  "sync_expect os cd want = bind (sync_recv os cd) (\<lambda>m. lift (accept want m))"

lemma accept_Inr: "accept want m = Inr n \<longleftrightarrow> n = m \<and> message_name m = want \<and> (\<forall>reason. m \<noteq> Failed reason)"
  by (cases m) (auto simp: accept_def message_name_def)

lemma expect_Inr: "sync_expect os cd want s = (Inr m, s') \<Longrightarrow> message_name m = want \<and> (\<forall>reason. m \<noteq> Failed reason)"
  by (auto simp: sync_expect_def bind_Inr lift_run accept_Inr dest: sym)

lemma only_sync_send [hoare]: "(\<And>b. P (Sync_Call (Sock_Send b))) \<Longrightarrow> only P (sync_send os cd m)"
  unfolding sync_send_def by (intro only_bind only_json only_checked)

lemma only_sync_recv [hoare]: "P (Sync_Call (Sock_Recv MAX_MESSAGE)) \<Longrightarrow> only P (sync_recv os cd)"
  unfolding sync_recv_def by (intro only_bind only_checked only_if only_throw only_json)

lemma only_sync_expect [hoare]: "P (Sync_Call (Sock_Recv MAX_MESSAGE)) \<Longrightarrow> only P (sync_expect os cd want)"
  unfolding sync_expect_def by (intro only_bind only_sync_recv only_lift)

end
