(* ===== verification/Rootfs.thy ===== *)
theory Rootfs
  imports Mounts
begin

section \<open>Root file system: hardening, pivot, sysctl, devices (rootfs/)\<close>

text \<open>
  The remaining steps that build the container's root: masked and read-only paths (\<^verbatim>\<open>harden.rs\<close>), the
  change of root (\<^verbatim>\<open>pivot.rs\<close>), kernel parameters (\<^verbatim>\<open>sysctl.rs\<close>) and device nodes (\<^verbatim>\<open>devices.rs\<close>).
\<close>

subsection \<open>Hardening\<close>

definition mask_one :: "'w os \<Rightarrow> path \<Rightarrow> ('w, unit) io" where
  "mask_one os p =
     bind (perform (os_kind os) (Fs (Lstat p))) (\<lambda>r.
       case r of
         Inl e \<Rightarrow> ret ()
       | Inr k \<Rightarrow>
           if k = Kind_Dir
           then nix_mount os (Mount (Some ''tmpfs'') p (Some ''tmpfs'') MS_RDONLY (Some ''size=0k''))
           else nix_mount os (Mount (Some ''/dev/null'') p None MS_BIND None))"

definition mask_paths :: "'w os \<Rightarrow> string list \<Rightarrow> ('w, unit) io" where
  "mask_paths os = for_each (mask_one os)"

definition readonly_one :: "'w os \<Rightarrow> path \<Rightarrow> ('w, unit) io" where
  "readonly_one os p =
     bind (lexists os p) (\<lambda>there.
       if \<not> there then ret ()
       else bind (nix_mount os (Mount (Some p) p None (MS_BIND OR MS_REC) None)) (\<lambda>_.
              nix_mount os (Mount (Some p) p None
                (MS_BIND OR MS_REC OR MS_REMOUNT OR MS_RDONLY OR MS_NOSUID OR MS_NODEV OR MS_NOEXEC) None)))"

definition readonly_paths :: "'w os \<Rightarrow> string list \<Rightarrow> ('w, unit) io" where
  "readonly_paths os = for_each (readonly_one os)"

definition readonly_rootfs :: "'w os \<Rightarrow> ('w, unit) io" where
  "readonly_rootfs os = nix_mount os (Mount None ''/'' None (MS_BIND OR MS_REMOUNT OR MS_RDONLY) None)"

definition remount_one :: "'w os \<Rightarrow> mount_spec \<Rightarrow> ('w, unit) io" where
  "remount_one os m =
     (let opts = parse_options (opt_or [] (mnt_options m)) in
      if \<not> contains_flag (mo_flags opts) MS_RDONLY then ret ()
      else if opt_or '''' (mnt_typ m) \<noteq> ''tmpfs'' then ret ()
      else nix_mount os (Mount None (mnt_destination m) None (mo_flags opts OR MS_REMOUNT) None))"

definition remount_readonly_mounts :: "'w os \<Rightarrow> mount_spec list \<Rightarrow> ('w, unit) io" where
  "remount_readonly_mounts os = for_each (remount_one os)"

subsection \<open>Changing the root\<close>

definition make_root_private :: "'w os \<Rightarrow> ('w, unit) io" where
  "make_root_private os = nix_mount os (Mount None ''/'' None (MS_PRIVATE OR MS_REC) None)"

definition make_mount_point :: "'w os \<Rightarrow> path \<Rightarrow> ('w, unit) io" where
  "make_mount_point os rootfs = nix_mount os (Mount (Some rootfs) rootfs None (MS_BIND OR MS_REC) None)"

definition pivot :: "'w os \<Rightarrow> path \<Rightarrow> ('w, unit) io" where
  "pivot os rootfs =
     bind (checked Nix (os_num os) (Fd (Open_Dir ''/''))) (\<lambda>oldroot.
     bind (checked Nix (os_num os) (Fd (Open_Dir rootfs))) (\<lambda>newroot.
     bind (checked Nix (os_unit os) (Fd (Fchdir newroot))) (\<lambda>_.
     bind (nix_mount os (Pivot_Root ''.'' ''.'')) (\<lambda>_.
     bind (checked Nix (os_unit os) (Fd (Fchdir oldroot))) (\<lambda>_.
     bind (nix_mount os (Mount None ''.'' None (MS_PRIVATE OR MS_REC) None)) (\<lambda>_.
     bind (nix_mount os (Umount_Detach ''.'')) (\<lambda>_.
       checked Nix (os_unit os) (Proc (Chdir ''/'')))))))))"

definition propagation_flag :: "string \<Rightarrow> error + ms_flags" where
  "propagation_flag requested =
     (if requested = ''shared'' then Inr MS_SHARED
      else if requested = ''slave'' then Inr MS_SLAVE
      else if requested = ''private'' then Inr MS_PRIVATE
      else if requested = ''unbindable'' then Inr MS_UNBINDABLE
      else Inl (Invalid (Config (Bad_Propagation requested))))"

definition set_propagation :: "'w os \<Rightarrow> string option \<Rightarrow> ('w, unit) io" where
  "set_propagation os requested =
     (case requested of
        None \<Rightarrow> ret ()
      | Some name \<Rightarrow>
          bind (lift (propagation_flag name)) (\<lambda>flag.
            nix_mount os (Mount None ''/'' None (flag OR MS_REC) None)))"

subsection \<open>Kernel parameters\<close>

definition BASE :: path where "BASE = ''/proc/sys''"

definition sysctl_resolve :: "string \<Rightarrow> error + path" where
  "sysctl_resolve key =
     (if key = [] then Inl (Invalid (Runtime Empty_Sysctl_Key))
      else
        let relative = replace_char dot ''/'' key in
        if list_all (\<lambda>c. normal_part c \<noteq> None) (components relative) then Inr (join_path BASE relative)
        else Inl (Invalid (Runtime (Sysctl_Escapes key))))"

definition sysctl_apply :: "'w os \<Rightarrow> (string \<times> string) list \<Rightarrow> ('w, unit) io" where
  "sysctl_apply os settings =
     for_each (\<lambda>(key, v). bind (lift (sysctl_resolve key)) (\<lambda>target. io_unit os (Write_File target v))) settings"

lemma split_on_subset: "x \<in> set (split_on c s) \<Longrightarrow> set x \<subseteq> set s"
  by (induction s arbitrary: x) (fastforce split: list.splits if_splits)+

lemma base_ne [simp]: "BASE \<noteq> []"
  by (simp add: BASE_def)

lemma all_normal: "list_all (\<lambda>c. normal_part c \<noteq> None) cs \<Longrightarrow> \<exists>names. cs = map Normal names"
proof (induction cs)
  case (Cons c cs)
  then obtain names n where "cs = map Normal names" "c = Normal n" by auto
  then show ?case by (intro exI [of _ "n # names"]) simp
qed simp

lemma sysctl_resolve_Inr:
  assumes "sysctl_resolve key = Inr p"
  shows "\<exists>names. components p = components BASE @ map Normal names"
proof -
  let ?rel = "replace_char dot ''/'' key"
  from assms have all: "list_all (\<lambda>c. normal_part c \<noteq> None) (components ?rel)"
    and p: "p = join_path BASE ?rel"
    by (auto simp: sysctl_resolve_def Let_def split: if_splits)
  have r: "\<not> has_root ?rel" using all by (auto simp: components_rooted_iff)
  have "CurDir \<notin> set (components ?rel)" using all by (auto simp: list_all_iff)
  from components_relative [OF r this] have "components p = components BASE @ components ?rel"
    using components_join [OF base_ne r] p by simp
  with all_normal [OF all] show ?thesis by auto
qed

lemma undotted_normal:
  assumes "\<not> has_root q" "dot \<notin> set q"
  shows "list_all (\<lambda>c. normal_part c \<noteq> None) (components q)"
proof -
  have seg: "\<forall>c\<in>set (seg_comp x). \<exists>n. c = Normal n" if "x \<in> set (split_on slash q)" for x
  proof -
    have "set x \<subseteq> set q" using that by (rule split_on_subset)
    with assms(2) have "x \<noteq> [dot]" "x \<noteq> [dot, dot]" by auto
    then show ?thesis by (simp add: seg_comp_def)
  qed
  obtain s ss where ss: "split_on slash q = s # ss" by (cases "split_on slash q") auto
  have "s \<noteq> [dot]" using assms(2) ss split_on_subset [of s slash q] by auto
  then have "components q = comps_of (s # ss)"
    using assms(1) ss by (simp add: components_def path_segs_def)
  moreover have "\<forall>c\<in>set (comps_of (s # ss)). \<exists>n. c = Normal n"
    using seg ss by (fastforce simp: comps_of_def)
  ultimately show ?thesis by (simp add: list_all_iff)
qed

lemma sysctl_resolve_Inl: "sysctl_resolve key = Inl e \<Longrightarrow> key = [] \<or> hd key = dot \<or> hd key = slash"
proof (rule ccontr)
  assume err: "sysctl_resolve key = Inl e" and c: "\<not> (key = [] \<or> hd key = dot \<or> hd key = slash)"
  let ?rel = "replace_char dot ''/'' key"
  from c have "\<not> has_root ?rel" by (cases key) (auto simp: has_root_def)
  moreover have "dot \<notin> set ?rel" by (auto simp: replace_char_def)
  ultimately have "list_all (\<lambda>c. normal_part c \<noteq> None) (components ?rel)" by (rule undotted_normal)
  with err c show False by (simp add: sysctl_resolve_def Let_def)
qed

text \<open>\<open>sysctl::apply\<close> writes below \<open>/proc/sys\<close> only, for every key: one that would resolve elsewhere
  (a leading separator or dot) is an error before anything is written for it.\<close>

theorem sysctl_writes_below_base:
  "only (below BASE) (sysctl_apply os settings)
   \<and> (case sysctl_resolve key of
        Inr p \<Rightarrow> (\<exists>names. components p = components BASE @ map Normal names)
      | Inl e \<Rightarrow> key = [] \<or> hd key = dot \<or> hd key = slash)"
proof
  have "only (below BASE) (bind (lift (sysctl_resolve k)) (\<lambda>target. io_unit os (Write_File target v)))" for k v
  proof (cases "sysctl_resolve k")
    case (Inr p)
    from sysctl_resolve_Inr [OF Inr] show ?thesis
      using Inr by (auto intro!: only_checked simp: starts_with_iff)
  qed (simp add: only_throw)
  then show "only (below BASE) (sysctl_apply os settings)"
    unfolding sysctl_apply_def by (auto intro!: only_for_each)
  show "case sysctl_resolve key of
        Inr p \<Rightarrow> (\<exists>names. components p = components BASE @ map Normal names)
      | Inl e \<Rightarrow> key = [] \<or> hd key = dot \<or> hd key = slash"
    using sysctl_resolve_Inr [of key] sysctl_resolve_Inl [of key] by (auto split: sum.split)
qed

subsection \<open>Device nodes\<close>

record default_device =
  dd_path :: path
  dd_major :: u64
  dd_minor :: u64
  dd_mode :: u32

abbreviation char_device :: "path \<Rightarrow> u64 \<Rightarrow> u64 \<Rightarrow> default_device" where
  "char_device p major minor \<equiv> \<lparr>dd_path = p, dd_major = major, dd_minor = minor, dd_mode = 0x1B6\<rparr>"

definition DEFAULT_DEVICES :: "default_device list" where
  "DEFAULT_DEVICES =
     [char_device ''dev/null'' 1 3, char_device ''dev/zero'' 1 5, char_device ''dev/full'' 1 7,
      char_device ''dev/tty'' 5 0, char_device ''dev/random'' 1 8, char_device ''dev/urandom'' 1 9]"

definition SYMLINKS :: "(path \<times> path) list" where
  "SYMLINKS =
     [(''/proc/self/fd'', ''dev/fd''), (''/proc/self/fd/0'', ''dev/stdin''),
      (''/proc/self/fd/1'', ''dev/stdout''), (''/proc/self/fd/2'', ''dev/stderr'')]"

definition sflag_for :: "device_type \<Rightarrow> node_kind" where
  "sflag_for kind = (case kind of Dev_B \<Rightarrow> Node_Blk | Dev_P \<Rightarrow> Node_Fifo | _ \<Rightarrow> Node_Chr)"

definition bind_device :: "'w os \<Rightarrow> path \<Rightarrow> path \<Rightarrow> ('w, unit) io" where
  "bind_device os target host =
     bind (path_exists os host) (\<lambda>there.
       if \<not> there then throw (Invalid (Runtime (Host_Lacks_Device target host)))
       else bind (path_exists os target) (\<lambda>present.
            bind (do_when (\<not> present) (io_unit os (Create_File target))) (\<lambda>_.
              nix_mount os (Mount (Some host) target None MS_BIND None))))"

text \<open>\<^verbatim>\<open>Mode::from_bits_truncate\<close> keeps the permission bits.\<close>

definition node :: "'w os \<Rightarrow> path \<Rightarrow> path \<Rightarrow> node_kind \<Rightarrow> u32 \<Rightarrow> u64 \<Rightarrow> u64 \<Rightarrow> bool \<Rightarrow> ('w, unit) io" where
  "node os target host kind mode major minor user_namespace =
     bind (lexists os target) (\<lambda>there.
       if there then ret ()
       else bind (case parent target of None \<Rightarrow> ret () | Some p \<Rightarrow> io_unit os (Create_Dir_All p)) (\<lambda>_.
         if user_namespace then bind_device os target host
         else
           let c = Mnt (Mknod target kind (mode AND 0xFFF) major minor) in
           bind (perform (os_unit os) c) (\<lambda>r.
             case r of
               Inr _ \<Rightarrow> io_unit os (Set_Mode target mode)
             | Inl e \<Rightarrow>
                 if e = EPERM \<or> e = EOVERFLOW then bind_device os target host
                 else throw (Nix c e))))"

definition link_one :: "'w os \<Rightarrow> path \<Rightarrow> path \<times> path \<Rightarrow> ('w, unit) io" where
  "link_one os rootfs sl =
     (let target = join_path rootfs (snd sl) in
      bind (lexists os target) (\<lambda>there.
        if there then ret () else io_unit os (Symlink (fst sl) target)))"

definition default_node :: "'w os \<Rightarrow> path \<Rightarrow> bool \<Rightarrow> default_device \<Rightarrow> ('w, unit) io" where
  "default_node os rootfs user_namespace d =
     node os (join_path rootfs (dd_path d)) (join_path ''/'' (dd_path d)) Node_Chr (dd_mode d)
       (dd_major d) (dd_minor d) user_namespace"

definition extra_node :: "'w os \<Rightarrow> path \<Rightarrow> bool \<Rightarrow> linux_device \<Rightarrow> ('w, unit) io" where
  "extra_node os rootfs user_namespace d =
     (let target = resolve rootfs (dev_path d) in
      bind (node os target (dev_path d) (sflag_for (dev_typ d)) (opt_or 0x1B6 (dev_mode d))
              (word_of_int (dev_major d)) (word_of_int (dev_minor d)) user_namespace) (\<lambda>_.
        do_when (dev_uid d \<noteq> None \<or> dev_gid d \<noteq> None)
          (nix_mount os (Chown target (dev_uid d) (dev_gid d)))))"

definition devices_create :: "'w os \<Rightarrow> path \<Rightarrow> linux_device list \<Rightarrow> bool \<Rightarrow> ('w, unit) io" where
  "devices_create os rootfs extra user_namespace =
     bind (for_each (default_node os rootfs user_namespace) DEFAULT_DEVICES) (\<lambda>_.
     bind (for_each (link_one os rootfs) SYMLINKS) (\<lambda>_.
       for_each (extra_node os rootfs user_namespace) extra))"

fun is_mknod :: "call \<Rightarrow> bool" where
  "is_mknod (Mnt (Mknod p k m a b)) = True"
| "is_mknod _ = False"

definition device_call_ok :: "path \<Rightarrow> bool \<Rightarrow> call \<Rightarrow> bool" where
  "device_call_ok rootfs user_namespace c \<longleftrightarrow>
     (below rootfs c \<or> (\<exists>p. c = Fs (Create_Dir_All p) \<and> components p = butlast (components rootfs)))
     \<and> (user_namespace \<longrightarrow> \<not> is_mknod c)"

lemma only_node:
  assumes "has_root target" "starts_with target rootfs"
  shows "only (device_call_ok rootfs ns) (node os target host kind mode major minor ns)"
  using assms parent_below [OF assms]
  unfolding node_def bind_device_def Let_def
  by (auto intro!: only_bind only_if only_option only_sum only_ret only_throw only_checked only_perform
      only_stat only_do_when simp: device_call_ok_def)

lemma join_below: "has_root rootfs \<Longrightarrow> \<not> has_root p \<Longrightarrow>
    has_root (join_path rootfs p) \<and> starts_with (join_path rootfs p) rootfs"
  using starts_with_join [of rootfs p] has_root_join [of rootfs p] by (auto simp: has_root_def)

text \<open>C36: device nodes are made inside the container's root only, and in a user namespace, where the
  kernel refuses it, \<open>mknod\<close> is never called at all: every node is bound from the host.\<close>

theorem devices_in_rootfs_no_mknod_in_userns:
  assumes "has_root rootfs"
  shows "only (device_call_ok rootfs user_namespace) (devices_create os rootfs extra user_namespace)"
proof -
  have rel: "\<not> has_root p" if "p \<in> dd_path ` set DEFAULT_DEVICES \<union> snd ` set SYMLINKS" for p
    using that by (auto simp: DEFAULT_DEVICES_def SYMLINKS_def has_root_def)
  have defaults: "only (device_call_ok rootfs user_namespace) (default_node os rootfs user_namespace d)"
    if "d \<in> set DEFAULT_DEVICES" for d
    using join_below [OF assms rel, of "dd_path d"] that
    unfolding default_node_def by (intro only_node) auto
  have links: "only (device_call_ok rootfs user_namespace) (link_one os rootfs sl)" if "sl \<in> set SYMLINKS" for sl
    using join_below [OF assms rel, of "snd sl"] that
    unfolding link_one_def Let_def
    by (auto intro!: only_bind only_if only_ret only_checked only_stat simp: device_call_ok_def)
  have extras: "only (device_call_ok rootfs user_namespace) (extra_node os rootfs user_namespace d)" for d
    using resolve_below [OF assms, of "dev_path d"]
    unfolding extra_node_def Let_def
    by (auto intro!: only_bind only_node only_do_when only_checked simp: device_call_ok_def)
  show ?thesis
    unfolding devices_create_def
    by (intro only_bind only_for_each defaults links extras)
qed

lemma devices_witness:
  "\<exists>tr. st_trace (snd (devices_create (fixed_os Kind_Dir [] 0) ''/r'' [] True start_state)) = [] @ tr
     \<and> list_all (\<lambda>ev. \<not> is_mknod (fst ev)) tr"
proof -
  have "has_root ''/r''" by (simp add: has_root_def)
  from only_trace [OF devices_in_rootfs_no_mknod_in_userns [OF this, of True "fixed_os Kind_Dir [] 0" "[]"], of start_state]
  show ?thesis by (auto simp: device_call_ok_def start_state_def list_all_iff)
qed

end
