(* ===== verification/Telemetry.thy ===== *)
theory Telemetry
  imports Codec "HOL-Library.Sublist"
begin

section \<open>Start-up telemetry (telemetry.rs)\<close>

text \<open>
  A recorder collects the phases of a start: a name with its start and end in microseconds since the
  recorder was made. One phase is open at a time. The recorder is part of the process state
  (\<open>st_clock\<close>); reading the clock is a call. \<^verbatim>\<open>export\<close> sends the phases as spans to a collector.
\<close>

definition ENDPOINT_ENV :: string where "ENDPOINT_ENV = ''MARS_OTLP_ENDPOINT''"
definition SERVICE :: string where "SERVICE = ''mars''"
definition PKG_VERSION :: string where "PKG_VERSION = ''0.1.0''"

subsection \<open>The recorder\<close>

text \<open>The reply of \<open>Monotonic_Us\<close> is the time since the recorder's origin; \<^verbatim>\<open>Instant\<close> cannot fail.\<close>

definition elapsed_us :: "'w os \<Rightarrow> ('w, u64) io" where
  "elapsed_us os = bind (perform (os_num os) (Misc Monotonic_Us)) (\<lambda>r. ret (word_of_int (unwrap_or 0 r)))"

text \<open>A new recorder: its origin is now on both clocks.\<close>

definition rec_new :: "'w os \<Rightarrow> ('w, unit) io" where
  "rec_new os = bind (perform (os_num os) (Misc Wall_Clock_Ns)) (\<lambda>r.
     set_clock (\<lambda>_. \<lparr>rec_phases = [], rec_open = None, rec_wall_origin = word_of_int (unwrap_or 0 r)\<rparr>))"

definition close_phase :: "u64 \<Rightarrow> recorder \<Rightarrow> recorder" where
  "close_phase now r =
     (case rec_open r of
        None \<Rightarrow> r
      | Some (name, start) \<Rightarrow>
          r\<lparr>rec_open := None, rec_phases := rec_phases r @ [\<lparr>ph_name = name, ph_start = start, ph_end = now\<rparr>]\<rparr>)"

definition rec_end :: "'w os \<Rightarrow> ('w, unit) io" where
  "rec_end os =
     bind (gets_clock rec_open) (\<lambda>open_phase.
       case open_phase of
         None \<Rightarrow> ret ()
       | Some _ \<Rightarrow> bind (elapsed_us os) (\<lambda>now. set_clock (close_phase now)))"

definition rec_begin :: "'w os \<Rightarrow> string \<Rightarrow> ('w, unit) io" where
  "rec_begin os name =
     bind (rec_end os) (\<lambda>_.
     bind (elapsed_us os) (\<lambda>now. set_clock (\<lambda>r. r\<lparr>rec_open := Some (name, now)\<rparr>)))"

definition shift_phase :: "string \<Rightarrow> u64 \<Rightarrow> phase \<Rightarrow> phase" where
  "shift_phase pre offset p =
     \<lparr>ph_name = pre @ ''.'' @ ph_name p, ph_start = offset + ph_start p, ph_end = offset + ph_end p\<rparr>"

definition rec_absorb :: "string \<Rightarrow> u64 \<Rightarrow> phase list \<Rightarrow> ('w, unit) io" where
  "rec_absorb pre offset ps =
     set_clock (\<lambda>r. r\<lparr>rec_phases := rec_phases r @ map (shift_phase pre offset) ps\<rparr>)"

definition rec_take :: "'w os \<Rightarrow> ('w, phase list) io" where
  "rec_take os =
     bind (rec_end os) (\<lambda>_.
     bind (gets_clock rec_phases) (\<lambda>ps.
     bind (set_clock (\<lambda>r. r\<lparr>rec_phases := []\<rparr>)) (\<lambda>_. ret ps)))"

subsection \<open>Endpoints\<close>

definition endpoint :: "'w os \<Rightarrow> string option \<Rightarrow> ('w, string option) io" where
  "endpoint os explicit =
     bind (case explicit of
             Some v \<Rightarrow> ret (Some v)
           | None \<Rightarrow> bind (perform (os_text os) (Misc (Env_Var ENDPOINT_ENV))) (\<lambda>r. ret (ok r)))
       (\<lambda>v. ret (case v of Some t \<Rightarrow> if trim t \<noteq> [] then Some t else None | None \<Rightarrow> None))"

text \<open>\<^verbatim>\<open>trim_start_matches\<close>: the prefix as often as it occurs.\<close>

fun trim_start_matches :: "string \<Rightarrow> string \<Rightarrow> string" where
  "trim_start_matches p [] = []"
| "trim_start_matches p (c # s) =
     (if p \<noteq> [] \<and> prefix p (c # s) then trim_start_matches p (drop (length p - 1) s) else c # s)"

definition split_endpoint :: "string \<Rightarrow> error + string \<times> string" where
  "split_endpoint e =
     (let trimmed = trim_start_matches ''https://'' (trim_start_matches ''http://'' (trim e));
          authority = takeWhile (\<lambda>c. c \<noteq> slash) trimmed;
          path = (if slash \<in> set trimmed then dropWhile (\<lambda>c. c \<noteq> slash) trimmed else ''/v1/traces'')
      in if authority = [] then Inl (Invalid (Command (No_Endpoint_Host e)))
         else Inr (if colon \<in> set authority then authority else authority @ '':4318'', path))"

subsection \<open>Spans\<close>

definition quote :: char where "quote = CHR 0x22"

definition json_escape :: "string \<Rightarrow> string" where
  "json_escape v =
     replace_char newline [backslash, CHR ''n'']
       (replace_char quote [backslash, quote] (replace_char backslash [backslash, backslash] v))"

definition quoted :: "string \<Rightarrow> string" where
  "quoted v = [quote] @ v @ [quote]"

definition attribute :: "string \<Rightarrow> string \<Rightarrow> string" where
  "attribute key v =
     ''{'' @ quoted ''key'' @ '':'' @ quoted key @ '','' @ quoted ''value'' @ '':{'' @ quoted ''stringValue''
       @ '':'' @ quoted (json_escape v) @ ''}}''"

definition span_nanos :: "128 word \<Rightarrow> u64 \<Rightarrow> 128 word" where
  "span_nanos origin us = origin + ucast us * 1000"

definition write_span :: "string \<Rightarrow> string \<Rightarrow> string option \<Rightarrow> string \<Rightarrow> 128 word \<Rightarrow> u64 \<Rightarrow> u64 \<Rightarrow> string \<Rightarrow> string" where
  "write_span trace_id span_id par name origin start_us end_us cid =
     ''{'' @ quoted ''traceId'' @ '':'' @ quoted trace_id @ '','' @ quoted ''spanId'' @ '':'' @ quoted span_id @ '',''
     @ (case par of Some p \<Rightarrow> quoted ''parentSpanId'' @ '':'' @ quoted p @ '','' | None \<Rightarrow> '''')
     @ quoted ''name'' @ '':'' @ quoted (json_escape name) @ '','' @ quoted ''kind'' @ '':1,''
     @ quoted ''startTimeUnixNano'' @ '':'' @ quoted (show_nat (unat (span_nanos origin start_us))) @ '',''
     @ quoted ''endTimeUnixNano'' @ '':'' @ quoted (show_nat (unat (span_nanos origin end_us))) @ '',''
     @ quoted ''attributes'' @ '':['' @ attribute ''container.id'' cid @ '']}''"

definition random_hex :: "'w os \<Rightarrow> nat \<Rightarrow> ('w, string) io" where
  "random_hex os bytes = checked Io (os_text os) (Misc (Random_Hex bytes))"

fun phase_spans :: "'w os \<Rightarrow> string \<Rightarrow> string \<Rightarrow> 128 word \<Rightarrow> string \<Rightarrow> phase list \<Rightarrow> string \<Rightarrow> ('w, string) io" where
  "phase_spans os trace_id root_span origin cid [] spans = ret spans"
| "phase_spans os trace_id root_span origin cid (p # ps) spans =
     bind (random_hex os 8) (\<lambda>sid.
       phase_spans os trace_id root_span origin cid ps
         (spans @ '','' @ write_span trace_id sid (Some root_span) (ph_name p) origin (ph_start p) (ph_end p) cid))"

definition resource_attributes :: "'w os \<Rightarrow> ('w, string) io" where
  "resource_attributes os =
     bind (perform (os_text os) (Misc Gethostname)) (\<lambda>r.
       ret (attribute ''service.name'' SERVICE @ '','' @ attribute ''service.version'' PKG_VERSION @ '',''
            @ attribute ''host.name'' (unwrap_or '''' r)))"

definition http_request :: "string \<Rightarrow> string \<Rightarrow> string \<Rightarrow> string" where
  "http_request host_port path body =
     (let crlf = [CHR 0x0D, CHR 0x0A] in
      ''POST '' @ path @ '' HTTP/1.1'' @ crlf @ ''Host: '' @ host_port @ crlf
      @ ''Content-Type: application/json'' @ crlf
      @ ''Content-Length: '' @ show_nat (length body) @ crlf @ ''Connection: close'' @ crlf @ crlf @ body)"

definition accepted :: "string \<Rightarrow> bool" where
  "accepted status \<longleftrightarrow> sublist '' 200'' status \<or> sublist '' 202'' status \<or> sublist '' 204'' status"

definition post :: "'w os \<Rightarrow> string \<Rightarrow> string \<Rightarrow> ('w, unit) io" where
  "post os dest body =
     bind (lift (split_endpoint dest)) (\<lambda>(host_port, path).
     bind (checked Io (os_unit os) (Misc (Tcp_Connect host_port))) (\<lambda>_.
     bind (checked Io (os_unit os) (Misc (Tcp_Send (http_request host_port path body)))) (\<lambda>_.
     bind (perform (os_text os) (Misc Tcp_Read_All)) (\<lambda>r.
       let ls = text_lines (unwrap_or '''' r); status = (if ls = [] then '''' else hd ls) in
       if accepted status then ret ()
       else throw (Invalid (Command (Collector_Answered status)))))))"

definition telemetry_export :: "'w os \<Rightarrow> string \<Rightarrow> string \<Rightarrow> string \<Rightarrow> ('w, unit) io" where
  "telemetry_export os dest root cid =
     bind (rec_take os) (\<lambda>ps.
       if ps = [] then ret ()
       else
         bind (gets_clock rec_wall_origin) (\<lambda>origin.
           let total = Max (set (map ph_end ps)) in
           bind (random_hex os 16) (\<lambda>trace_id.
           bind (random_hex os 8) (\<lambda>root_span.
           bind (phase_spans os trace_id root_span origin cid ps
                   (write_span trace_id root_span None root origin 0 total cid)) (\<lambda>spans.
           bind (resource_attributes os) (\<lambda>attrs.
             post os dest
               (''{'' @ quoted ''resourceSpans'' @ '':[{'' @ quoted ''resource'' @ '':{'' @ quoted ''attributes''
                @ '':['' @ attrs @ '']},'' @ quoted ''scopeSpans'' @ '':[{'' @ quoted ''scope'' @ '':{''
                @ quoted ''name'' @ '':'' @ quoted SERVICE @ '','' @ quoted ''version'' @ '':'' @ quoted PKG_VERSION
                @ ''},'' @ quoted ''spans'' @ '':['' @ spans @ '']}]}]}'')))))))"

end
