(* ===== verification/Init.thy ===== *)
theory Init
  imports Host Bundle Hooks Seccomp Console Fifo Signal Sync Rootfs Telemetry
begin

section \<open>The container's side of a start (container/init.rs)\<close>

text \<open>
  \<open>stage_one\<close> is the intermediate process: it joins and creates the namespaces and forks the init.
  \<open>container_init\<close> is the init: it builds the root file system, restricts itself, waits on the fifo and
  executes the program. \<^verbatim>\<open>fork\<close> replies 0 in the child. A process ends by an exit code or by a new
  image, which is the \<open>Ok\<close> of \<open>container_init\<close>.
\<close>

record plan =
  plan_bundle :: run_bundle
  plan_rootfs :: path
  plan_overlay :: "layers option"
  plan_unshare :: clone_flags
  plan_join :: "(ns_type \<times> path) list"
  plan_cgroup_ns :: bool
  plan_fifo :: fd
  plan_console :: "fd option"
  plan_state :: oci_state

datatype ending = Exits int | Image_Replaced

definition contains_flags :: "clone_flags \<Rightarrow> clone_flags \<Rightarrow> bool" where
  "contains_flags flags flag \<longleftrightarrow> flags AND flag = flag"

definition unshare :: "'w os \<Rightarrow> clone_flags \<Rightarrow> ('w, unit) io" where
  "unshare os flag = checked raw_syscall (os_unit os) (Proc (Unshare flag))"

subsection \<open>Namespaces\<close>

definition unshare_order :: "(string \<times> clone_flags) list" where
  "unshare_order =
     [(''user'', CLONE_NEWUSER), (''mnt'', CLONE_NEWNS), (''uts'', CLONE_NEWUTS), (''ipc'', CLONE_NEWIPC),
      (''pid'', CLONE_NEWPID), (''net'', CLONE_NEWNET), (''time'', CLONE_NEWTIME)]"

definition offset_line :: "string \<times> time_offset \<Rightarrow> string" where
  "offset_line co = (case co of (clock, offset) \<Rightarrow>
     clock @ [blank] @ show_int (opt_or 0 (off_secs offset)) @ [blank] @ show_u32 (opt_or 0 (off_nanosecs offset)) @ [newline])"

definition write_time_offsets :: "'w os \<Rightarrow> (string \<times> time_offset) list \<Rightarrow> ('w, unit) io" where
  "write_time_offsets os offsets =
     (if offsets = [] then ret ()
      else io_unit os (Write_File ''/proc/self/timens_offsets'' (concat (map offset_line offsets))))"

definition become_root_in_namespace :: "'w os \<Rightarrow> ('w, unit) io" where
  "become_root_in_namespace os =
     bind (checked Nix (os_unit os) (Cred (Setresgid 0))) (\<lambda>_. checked Nix (os_unit os) (Cred (Setresuid 0)))"

definition join_one :: "'w os \<Rightarrow> ns_type \<times> path \<Rightarrow> ('w, unit) io" where
  "join_one os kp = (case kp of (kind, path) \<Rightarrow>
     bind (lift (flag_for kind)) (\<lambda>flag.
     bind (checked Nix (os_num os) (Fd (Open_Read path))) (\<lambda>handle.
       checked Nix (os_unit os) (Proc (Setns handle flag)))))"

definition join_existing :: "'w os \<Rightarrow> plan \<Rightarrow> ('w, unit) io" where
  "join_existing os p = for_each (join_one os) (plan_join p)"

definition unshare_one :: "'w os \<Rightarrow> plan \<Rightarrow> string \<times> clone_flags \<Rightarrow> ('w, unit) io" where
  "unshare_one os p nf = (case nf of (name, flag) \<Rightarrow>
     if \<not> contains_flags (plan_unshare p) flag then ret ()
     else
       bind (rec_begin os (''unshare.'' @ name)) (\<lambda>_.
       bind (unshare os flag) (\<lambda>_.
         do_when (name = ''time'') (write_time_offsets os (bun_time_offsets (plan_bundle p))))))"

definition map_user :: "'w os \<Rightarrow> codec \<Rightarrow> plan \<Rightarrow> ('w, unit) io" where
  "map_user os cd p =
     do_when (contains_flags (plan_unshare p) CLONE_NEWUSER)
       (bind (rec_begin os ''unshare.user.map'') (\<lambda>_.
        bind (sync_send os cd RequestUserMapping) (\<lambda>_.
        bind (sync_expect os cd ''UserMappingDone'') (\<lambda>_.
          become_root_in_namespace os))))"

subsection \<open>The steps of the init\<close>

text \<open>The root file system, and the \<^verbatim>\<open>createContainer\<close> hooks between its assembly and the change of root.\<close>

definition init_rootfs :: "'w os \<Rightarrow> host \<Rightarrow> plan \<Rightarrow> oci_state \<Rightarrow> ('w, unit) io" where
  "init_rootfs os h p state =
     (let b = plan_bundle p;
          hooks = hooks_run os (h_codec h) (h_fuel h) (bun_hooks b) CreateContainer state in
      if contains_flags (plan_unshare p) CLONE_NEWNS then
        bind (rec_begin os ''rootfs.mount'') (\<lambda>_.
        bind (make_root_private os) (\<lambda>_.
        bind (case plan_overlay p of
                Some layers \<Rightarrow> mount_at os (plan_rootfs p) layers
              | None \<Rightarrow> make_mount_point os (plan_rootfs p)) (\<lambda>_.
        bind (mounts_apply os (plan_rootfs p) (bun_mounts b)) (\<lambda>_.
        bind (devices_create os (plan_rootfs p) (bun_devices b)
                (contains_flags (plan_unshare p) CLONE_NEWUSER \<or> plan_join p \<noteq> [])) (\<lambda>_.
        bind (rec_begin os ''hooks.createContainer'') (\<lambda>_.
        bind hooks (\<lambda>_.
        bind (rec_begin os ''pivot_root'') (\<lambda>_.
        bind (pivot os (plan_rootfs p)) (\<lambda>_.
        bind (set_propagation os (bun_propagation b)) (\<lambda>_.
          case plan_console p of Some socket \<Rightarrow> console_setup os socket | None \<Rightarrow> ret ()))))))))))
      else hooks)"

definition set_domainname :: "'w os \<Rightarrow> string \<Rightarrow> ('w, unit) io" where
  "set_domainname os name = checked Nix (os_unit os) (Cred (Setdomainname name))"

definition init_identity :: "'w os \<Rightarrow> plan \<Rightarrow> ('w, unit) io" where
  "init_identity os p =
     (let b = plan_bundle p in
      bind (rec_begin os ''identity'') (\<lambda>_.
      bind (case bun_hostname b of
              Some name \<Rightarrow> checked raw_syscall (os_unit os) (Cred (Sethostname name)) | None \<Rightarrow> ret ()) (\<lambda>_.
      bind (case bun_domainname b of Some name \<Rightarrow> set_domainname os name | None \<Rightarrow> ret ()) (\<lambda>_.
        sysctl_apply os (bun_sysctl b)))))"

definition init_harden :: "'w os \<Rightarrow> plan \<Rightarrow> ('w, unit) io" where
  "init_harden os p =
     (let b = plan_bundle p in
      do_when (contains_flags (plan_unshare p) CLONE_NEWNS)
        (bind (rec_begin os ''harden'') (\<lambda>_.
         bind (mask_paths os (bun_masked_paths b)) (\<lambda>_.
         bind (readonly_paths os (bun_readonly_paths b)) (\<lambda>_.
         bind (remount_readonly_mounts os (bun_mounts b)) (\<lambda>_.
           do_when (bun_readonly_rootfs b) (readonly_rootfs os)))))))"

text \<open>The program, its arguments and environment, as \<^verbatim>\<open>execve\<close> will get them.\<close>

definition init_program :: "'w os \<Rightarrow> plan \<Rightarrow> ('w, string \<times> string list \<times> string list) io" where
  "init_program os p =
     (let b = plan_bundle p; env = bun_env b in
      bind (lift (bun_argv b)) (\<lambda>argv.
      bind (resolve_executable os (hd argv) env (contains_flags (plan_unshare p) CLONE_NEWNS)) (\<lambda>program.
      bind (lift (to_cstring program)) (\<lambda>program'.
      bind (lift (to_cstrings argv)) (\<lambda>argv'.
      bind (lift (to_cstrings env)) (\<lambda>env'.
        ret (program', argv', env')))))))"

definition init_limits :: "'w os \<Rightarrow> plan \<Rightarrow> ('w, unit) io" where
  "init_limits os p =
     bind (case bun_process (plan_bundle p) of
             Some sp \<Rightarrow>
               bind (apply_limits os sp) (\<lambda>_. bind (apply_oom_score_adj os sp) (\<lambda>_. apply_umask os sp))
           | None \<Rightarrow> ret ()) (\<lambda>_.
       checked raw_syscall (os_unit os) (Proc (Chdir
         (case bun_cwd (plan_bundle p) of Some cwd \<Rightarrow> if cwd \<noteq> [] then cwd else ''/'' | None \<Rightarrow> ''/''))))"

definition no_new_privs :: "run_bundle \<Rightarrow> bool" where
  "no_new_privs b = opt_or False (Option.bind (bun_process b) proc_nnp)"

definition load_seccomp :: "'w os \<Rightarrow> host \<Rightarrow> run_bundle \<Rightarrow> ('w, unit) io" where
  "load_seccomp os h b =
     (case bun_seccomp b of
        Some sp \<Rightarrow> bind (seccomp_apply os (h_syscalls h) sp) (\<lambda>rules. ret ())
      | None \<Rightarrow> ret ())"

definition init_credentials :: "'w os \<Rightarrow> host \<Rightarrow> bool \<Rightarrow> process_spec \<Rightarrow> ('w, unit) io" where
  "init_credentials os h nnp sp =
     bind (case proc_caps sp of Some caps \<Rightarrow> drop_bounding os (h_caps h) caps | None \<Rightarrow> ret ()) (\<lambda>_.
     bind (drop_privileges os sp) (\<lambda>_.
     bind (case proc_caps sp of Some caps \<Rightarrow> caps_apply os (h_caps h) caps | None \<Rightarrow> ret ()) (\<lambda>_.
       do_when nnp (set_no_new_privs os))))"

definition init_security :: "'w os \<Rightarrow> host \<Rightarrow> run_bundle \<Rightarrow> ('w, unit) io" where
  "init_security os h b =
     (let nnp = no_new_privs b in
      bind (rec_begin os ''security'') (\<lambda>_.
      bind (do_when (\<not> nnp) (load_seccomp os h b)) (\<lambda>_.
      bind (case bun_process b of Some sp \<Rightarrow> init_credentials os h nnp sp | None \<Rightarrow> ret ()) (\<lambda>_.
        do_when nnp (load_seccomp os h b)))))"

text \<open>Reporting readiness, waiting for the start, and the program.\<close>

definition init_handoff :: "'w os \<Rightarrow> host \<Rightarrow> plan \<Rightarrow> oci_state \<Rightarrow> string \<times> string list \<times> string list \<Rightarrow> ('w, unit) io" where
  "init_handoff os h p state pae = (case pae of (program, argv, env) \<Rightarrow>
     bind (rec_take os) (\<lambda>phases.
     bind (sync_send os (h_codec h) (InitReady phases)) (\<lambda>_.
     bind (fifo_park os (plan_fifo p)) (\<lambda>_.
     bind (hooks_run os (h_codec h) (h_fuel h) (bun_hooks (plan_bundle p)) StartContainer
             (state\<lparr>oci_status := Running\<rparr>)) (\<lambda>_.
     bind (unblock_all os) (\<lambda>_.
       checked raw_syscall (os_unit os) (Proc (Execve program argv env))))))))"

definition container_init :: "'w os \<Rightarrow> host \<Rightarrow> plan \<Rightarrow> ('w, unit) io" where
  "container_init os h p =
     bind (sync_expect os (h_codec h) ''CgroupApplied'') (\<lambda>m.
       case m of
         CgroupApplied host_pid \<Rightarrow>
           (let state = (plan_state p)\<lparr>oci_pid := Some host_pid\<rparr> in
            bind (rec_new os) (\<lambda>_.
            bind (rec_begin os ''unshare.cgroup'') (\<lambda>_.
            bind (do_when (plan_cgroup_ns p) (unshare os CLONE_NEWCGROUP)) (\<lambda>_.
            bind (init_rootfs os h p state) (\<lambda>_.
            bind (init_identity os p) (\<lambda>_.
            bind (init_harden os p) (\<lambda>_.
            bind (init_program os p) (\<lambda>pae.
            bind (init_limits os p) (\<lambda>_.
            bind (init_security os h (plan_bundle p)) (\<lambda>_.
              init_handoff os h p state pae))))))))))
       | _ \<Rightarrow> throw (Sync_Expected ''CgroupApplied'' m))"

subsection \<open>The intermediate process\<close>

definition stage_one :: "'w os \<Rightarrow> host \<Rightarrow> plan \<Rightarrow> ('w, ending) io" where
  "stage_one os h p =
     bind (rec_new os) (\<lambda>_.
     bind (rec_begin os ''join'') (\<lambda>_.
     bind (join_existing os p) (\<lambda>_.
     bind (for_each (unshare_one os p) unshare_order) (\<lambda>_.
     bind (map_user os (h_codec h) p) (\<lambda>_.
     bind (rec_begin os ''fork.init'') (\<lambda>_.
     bind (checked raw_syscall (os_num os) (Proc Fork)) (\<lambda>child.
       if child \<noteq> 0 then
         bind (rec_take os) (\<lambda>phases.
         bind (sync_send os (h_codec h) (InitPid child phases)) (\<lambda>_. ret (Exits 0)))
       else
         bind (attempt (container_init os h p)) (\<lambda>r.
           case r of
             Inr u \<Rightarrow> ret Image_Replaced
           | Inl e \<Rightarrow>
               bind (ignore (sync_send os (h_codec h) (Failed (display (h_codec h) e)))) (\<lambda>_.
                 ret (Exits 1))))))))))"

definition intermediate :: "'w os \<Rightarrow> host \<Rightarrow> plan \<Rightarrow> ('w, ending) io" where
  "intermediate os h p =
     bind (attempt (stage_one os h p)) (\<lambda>r.
       case r of
         Inr ending \<Rightarrow> ret ending
       | Inl e \<Rightarrow>
           bind (ignore (sync_send os (h_codec h) (Failed (display (h_codec h) e)))) (\<lambda>_. ret (Exits 1)))"

subsection \<open>The order of the init's calls\<close>

text \<open>The calls whose order matters, numbered. A process with no new privileges loads its filter last; without
  them loading needs a capability that the later steps give up.\<close>

fun init_stage :: "bool \<Rightarrow> call \<Rightarrow> nat option" where
  "init_stage nnp (Proc (Unshare f)) = Some 0"
| "init_stage nnp (Mnt (Pivot_Root p q)) = Some 1"
| "init_stage nnp (Mnt (Umount_Detach p)) = Some 2"
| "init_stage nnp (Cred (Sethostname n)) = Some 3"
| "init_stage nnp (Cred (Setdomainname n)) = Some 3"
| "init_stage nnp (Cred (Setrlimit r a b)) = Some 4"
| "init_stage nnp (Cred (Umask m)) = Some 5"
| "init_stage nnp (Scmp c) = Some (if nnp then 15 else 6)"
| "init_stage nnp (Cred Cap_Read_Bounding) = Some 7"
| "init_stage nnp (Cred (Cap_Drop_Bounding c)) = Some 7"
| "init_stage nnp (Cred (Setgroups g)) = Some 8"
| "init_stage nnp (Cred (Keep_Caps b)) = Some (if b then 9 else 12)"
| "init_stage nnp (Cred (Setgid g)) = Some 10"
| "init_stage nnp (Cred (Setuid u)) = Some 11"
| "init_stage nnp (Cred (Cap_Set_Effective cs)) = Some 13"
| "init_stage nnp (Cred (Cap_Set_Permitted cs)) = Some 13"
| "init_stage nnp (Cred (Cap_Set_Inheritable cs)) = Some 13"
| "init_stage nnp (Cred Cap_Clear_Ambient) = Some 13"
| "init_stage nnp (Cred (Cap_Raise_Ambient c)) = Some 13"
| "init_stage nnp (Cred No_New_Privs) = Some 14"
| "init_stage nnp (Sync_Call (Sock_Send b)) = Some 16"
| "init_stage nnp (Fd (Open_Write p)) = Some 17"
| "init_stage nnp (Proc (Sig_Setmask m)) = Some 18"
| "init_stage nnp (Proc (Execve p a e)) = Some 19"
| "init_stage nnp c = None"

abbreviation quiet :: "bool \<Rightarrow> ('w, 'a) io \<Rightarrow> bool" where
  "quiet nnp \<equiv> only (\<lambda>c. init_stage nnp c = None)"

lemma hook_call_quiet: "hook_call c \<Longrightarrow> init_stage nnp c = None"
  by (induction c rule: hook_call.induct) simp_all

lemma console_call_quiet: "console_call c \<Longrightarrow> init_stage nnp c = None"
  by (induction c rule: console_call.induct) auto

lemma staged_skip: "quiet nnp m \<Longrightarrow> (\<And>x. staged (init_stage nnp) a c (f x)) \<Longrightarrow> a \<le> c \<Longrightarrow> staged (init_stage nnp) a c (bind m f)"
  by (rule staged_bind [where b = a]) (auto intro: staged_of_only)

lemma staged_step:
  "init_stage nnp c = Some n \<Longrightarrow> a \<le> n \<Longrightarrow> n \<le> b \<Longrightarrow> staged (init_stage nnp) a b (checked wrap f c)"
  by (rule staged_checked) auto

lemma only_rec_begin [hoare]: "P (Misc Monotonic_Us) \<Longrightarrow> only P (rec_begin os name)"
  and only_rec_end [hoare]: "P (Misc Monotonic_Us) \<Longrightarrow> only P (rec_end os)"
  and only_rec_take [hoare]: "P (Misc Monotonic_Us) \<Longrightarrow> only P (rec_take os)"
  and only_rec_new [hoare]: "P (Misc Wall_Clock_Ns) \<Longrightarrow> only P (rec_new os)"
  unfolding rec_begin_def rec_take_def rec_end_def rec_new_def elapsed_us_def by (auto intro!: hoare)

text \<open>Calls that only work on the file system and its mounts.\<close>

fun tree_call :: "call \<Rightarrow> bool" where
  "tree_call (Fs c) = True"
| "tree_call (Mnt (Mount a b c d e)) = True"
| "tree_call (Mnt (Mknod a b c d e)) = True"
| "tree_call (Mnt (Chown a b c)) = True"
| "tree_call (Proc (Chdir p)) = True"
| "tree_call c = False"

lemma tree_call_quiet: "tree_call c \<Longrightarrow> init_stage nnp c = None"
  by (induction c rule: tree_call.induct) simp_all

lemma only_tree_parts:
  "only tree_call (make_root_private os)" "only tree_call (make_mount_point os p)"
  "only tree_call (set_propagation os prop)" "only tree_call (mount_at os p l)"
  "only tree_call (mounts_apply os p ms)" "only tree_call (devices_create os p ds ns)"
  "only tree_call (sysctl_apply os kvs)" "only tree_call (mask_paths os ps)"
  "only tree_call (readonly_paths os ps)" "only tree_call (remount_readonly_mounts os ms)"
  "only tree_call (readonly_rootfs os)"
  unfolding make_root_private_def make_mount_point_def set_propagation_def mount_at_def overlay_mount_def
    mounts_apply_def unified_cgroup_host_def apply_one_def prepare_target_def link_ptmx_def
    devices_create_def default_node_def link_one_def extra_node_def node_def bind_device_def Let_def
    sysctl_apply_def mask_paths_def mask_one_def readonly_paths_def readonly_one_def
    remount_readonly_mounts_def remount_one_def readonly_rootfs_def
  by (auto intro!: hoare split: option.split prod.split sum.split)

lemma tree_quiet: "only tree_call m \<Longrightarrow> quiet nnp m"
  by (erule only_weaken) (rule tree_call_quiet)

lemmas quiet_parts = only_tree_parts [THEN tree_quiet]

lemma staged_pivot: "staged (init_stage nnp) 1 2 (pivot os rootfs)"
  unfolding pivot_def
  by (rule staged_skip, intro hoare, simp, rule staged_skip, intro hoare, simp, rule staged_skip, intro hoare, simp,
      rule staged_bind [where b = 1], rule staged_step, simp, simp, simp,
      rule staged_skip, intro hoare, simp, rule staged_skip, intro hoare, simp,
      rule staged_bind [where b = 2], rule staged_step)
     (auto intro!: staged_of_only hoare)

lemma staged_rootfs: "staged (init_stage nnp) 1 2 (init_rootfs os h p state)"
proof -
  have hooks: "quiet nnp (hooks_run os cd fuel hks phase st)" for cd fuel hks phase st
    by (intro only_hooks_run hook_call_quiet)
  have console: "quiet nnp (case c of Some socket \<Rightarrow> console_setup os socket | None \<Rightarrow> ret ())" for c
    by (auto intro!: only_option only_console_setup only_ret console_call_quiet)
  have overlay: "quiet nnp (case l of Some layers \<Rightarrow> mount_at os q layers | None \<Rightarrow> make_mount_point os q)" for l q
    by (auto intro!: only_option quiet_parts)
  have clock: "quiet nnp (rec_begin os name)" for name by (intro hoare) simp
  show ?thesis
    unfolding init_rootfs_def Let_def
  proof (split if_split, intro conjI impI)
    show "staged (init_stage nnp) 1 2 (hooks_run os (h_codec h) (h_fuel h) (bun_hooks (plan_bundle p)) CreateContainer state)"
      by (rule staged_of_only [OF hooks])
  qed (rule staged_skip, rule clock, rule staged_skip, rule quiet_parts, rule staged_skip, rule overlay,
       rule staged_skip, rule quiet_parts, rule staged_skip, rule quiet_parts, rule staged_skip, rule clock,
       rule staged_skip, rule hooks, rule staged_skip, rule clock, rule staged_bind [where b = 2, OF staged_pivot],
       rule staged_skip, rule quiet_parts, rule staged_of_only, rule console, simp_all)
qed

lemma staged_identity: "staged (init_stage nnp) 3 3 (init_identity os p)"
  unfolding init_identity_def Let_def set_domainname_def
  by (rule staged_of_only_stage)
     (auto intro!: hoare only_weaken [OF only_tree_parts(7)] split: option.split dest: tree_call_quiet)

lemma quiet_harden: "quiet nnp (init_harden os p)"
  unfolding init_harden_def Let_def by (auto intro!: hoare quiet_parts)

lemma quiet_program: "quiet nnp (init_program os p)"
  unfolding init_program_def Let_def by (auto intro!: hoare)

lemma staged_limits: "staged (init_stage nnp) 4 5 (init_limits os p)"
proof -
  have chdir: "staged (init_stage nnp) 5 5 (checked raw_syscall (os_unit os) (Proc (Chdir d)))" for d
    by (intro staged_of_only hoare) simp
  have limits: "staged (init_stage nnp) 4 4 (apply_limits os sp)" for sp
    unfolding apply_limits_def by (intro staged_of_only_stage hoare) auto
  have oom: "quiet nnp (apply_oom_score_adj os sp)" for sp
    unfolding apply_oom_score_adj_def by (auto intro!: hoare split: option.split)
  have umask: "staged (init_stage nnp) 5 5 (apply_umask os sp)" for sp
    unfolding apply_umask_def by (intro staged_of_only_stage) (auto intro!: hoare split: option.split)
  show ?thesis
    unfolding init_limits_def
    by (rule staged_bind [where b = 5, OF _ chdir])
       (auto intro!: staged_bind [where b = 4, OF limits] staged_bind [where b = 5, OF staged_of_only [OF oom]]
          umask staged_ret split: option.split)
qed

lemma staged_seccomp: "staged (init_stage nnp) (if nnp then 15 else 6) (if nnp then 15 else 6) (load_seccomp os h b)"
proof -
  have names: "only (\<lambda>c. \<exists>s. c = Scmp s) (add_names os so v r ns k)" for so v r ns k
    by (induction ns arbitrary: k) (auto simp: scmp_def intro!: hoare split: option.split)
  have rules: "only (\<lambda>c. \<exists>s. c = Scmp s) (add_syscalls os so rs k)" for so rs k
    by (induction rs arbitrary: k) (auto intro!: hoare names)
  have "only (\<lambda>c. \<exists>s. c = Scmp s) (load_seccomp os h b)"
    unfolding load_seccomp_def seccomp_apply_def
    by (auto simp: scmp_def intro!: hoare rules split: option.split)
  then show ?thesis
    by (intro staged_of_only_stage, elim only_weaken) auto
qed

lemma staged_drop: "staged (init_stage nnp) 8 12 (drop_privileges os sp)"
  unfolding drop_privileges_def Let_def keep_caps_across_setuid_def
  by (rule staged_skip, rule only_is_root, simp,
      rule staged_bind [where b = 8], rule staged_step, simp, simp, simp,
      rule staged_bind [where b = 9], rule staged_do_when, rule staged_step, simp, simp, simp,
      rule staged_bind [where b = 10], rule staged_step, simp, simp, simp,
      rule staged_bind [where b = 11], rule staged_step, simp, simp, simp,
      rule staged_do_when, rule staged_step, simp, simp, simp) simp_all

lemma staged_credentials: "staged (init_stage nnp) 7 14 (init_credentials os h nnp sp)"
proof -
  have bounding: "staged (init_stage nnp) 7 7 (case c of Some caps \<Rightarrow> drop_bounding os (h_caps h) caps | None \<Rightarrow> ret ())" for c
    unfolding drop_bounding_def by (intro staged_of_only_stage) (auto intro!: hoare split: option.split)
  have caps: "staged (init_stage nnp) 13 13 (case c of Some caps \<Rightarrow> caps_apply os (h_caps h) caps | None \<Rightarrow> ret ())" for c
    unfolding caps_apply_def raise_ambient_def
    by (intro staged_of_only_stage) (auto intro!: hoare split: option.split)
  have nnp: "staged (init_stage nnp) 14 14 (do_when b (set_no_new_privs os))" for b
    unfolding set_no_new_privs_def by (intro staged_of_only_stage) (auto intro!: hoare)
  show ?thesis
    unfolding init_credentials_def
    by (rule staged_bind [where b = 7, OF bounding], rule staged_bind [where b = 12],
        rule staged_weaken [OF staged_drop], simp, simp,
        rule staged_bind [where b = 13], rule staged_weaken [OF caps], simp, simp, rule staged_weaken [OF nnp])
       simp_all
qed

lemma staged_security: "staged (init_stage (no_new_privs b)) 6 15 (init_security os h b)"
proof -
  let ?nnp = "no_new_privs b"
  have first: "staged (init_stage ?nnp) 6 6 (do_when (\<not> ?nnp) (load_seccomp os h b))"
    using staged_seccomp [of ?nnp os h b] by (cases ?nnp) (simp_all add: do_when_def staged_ret)
  have last: "staged (init_stage ?nnp) 15 15 (do_when ?nnp (load_seccomp os h b))"
    using staged_seccomp [of ?nnp os h b] by (cases ?nnp) (simp_all add: do_when_def staged_ret)
  have mid: "staged (init_stage ?nnp) 7 14 (case q of Some sp \<Rightarrow> init_credentials os h ?nnp sp | None \<Rightarrow> ret ())" for q
    by (cases q) (simp_all add: staged_ret staged_credentials)
  show ?thesis
    unfolding init_security_def Let_def
    by (rule staged_skip, intro hoare, simp, rule staged_bind [where b = 6, OF first],
        rule staged_bind [where b = 14], rule staged_weaken [OF mid], simp, simp, rule staged_weaken [OF last])
       simp_all
qed

lemma staged_handoff: "staged (init_stage nnp) 16 19 (init_handoff os h p state pae)"
proof -
  obtain program argv env where pae: "pae = (program, argv, env)" by (cases pae)
  have send: "staged (init_stage nnp) 16 16 (sync_send os cd m)" for cd m
    by (intro staged_of_only_stage hoare) simp
  have park: "staged (init_stage nnp) 17 17 (fifo_park os handle)" for handle
    unfolding fifo_park_def by (intro staged_of_only_stage hoare) auto
  have hooks: "staged (init_stage nnp) 17 17 (hooks_run os cd fuel hks phase st)" for cd fuel hks phase st
    by (intro staged_of_only only_hooks_run hook_call_quiet)
  have unblock: "staged (init_stage nnp) 18 18 (unblock_all os)"
    unfolding unblock_all_def by (rule staged_step, simp, simp, simp)
  show ?thesis
    unfolding init_handoff_def pae prod.case
    by (rule staged_skip, intro hoare, simp, rule staged_bind [where b = 16, OF send],
        rule staged_bind [where b = 17], rule staged_weaken [OF park], simp, simp,
        rule staged_bind [where b = 17, OF hooks],
        rule staged_bind [where b = 18], rule staged_weaken [OF unblock], simp, simp, rule staged_step, simp, simp, simp)
       simp_all
qed

text \<open>C10: in every run of the init, failed ones included, the steps that restrict the container happen in
  the one order that is safe: the cgroup namespace, the change of root and the detached old root, the
  host names, the limits; then, without no-new-privileges, the seccomp filter; the bounding set,
  the groups, the group, the user (capabilities kept in between), the capability sets,
  no-new-privileges; with it, the filter last; and only then readiness is reported, the fifo waited
  on, the signals unblocked and the program executed.\<close>

theorem container_init_order:
  "staged (init_stage (no_new_privs (plan_bundle p))) 0 19 (container_init os h p)"
proof -
  let ?nnp = "no_new_privs (plan_bundle p)"
  have cg: "staged (init_stage ?nnp) 0 0 (do_when b (unshare os CLONE_NEWCGROUP))" for b
    unfolding unshare_def by (intro staged_of_only_stage) (auto intro!: hoare)
  have main: "staged (init_stage ?nnp) 0 19
      (bind (do_when (plan_cgroup_ns p) (unshare os CLONE_NEWCGROUP)) (\<lambda>_.
       bind (init_rootfs os h p state) (\<lambda>_.
       bind (init_identity os p) (\<lambda>_.
       bind (init_harden os p) (\<lambda>_.
       bind (init_program os p) (\<lambda>pae.
       bind (init_limits os p) (\<lambda>_.
       bind (init_security os h (plan_bundle p)) (\<lambda>_.
         init_handoff os h p state pae))))))))" for state
    by (rule staged_bind [where b = 0, OF cg],
        rule staged_bind [where b = 2], rule staged_weaken [OF staged_rootfs], simp, simp,
        rule staged_bind [where b = 3], rule staged_weaken [OF staged_identity], simp, simp,
        rule staged_skip, rule quiet_harden, rule staged_skip, rule quiet_program,
        rule staged_bind [where b = 5], rule staged_weaken [OF staged_limits], simp, simp,
        rule staged_bind [where b = 15], rule staged_weaken [OF staged_security], simp, simp,
        rule staged_weaken [OF staged_handoff])
       simp_all
  show ?thesis
    unfolding container_init_def Let_def
    by (rule staged_skip, intro hoare, simp)
       (auto split: message.split intro!: staged_throw staged_skip main hoare)
qed

subsection \<open>No readiness and no program without the restrictions\<close>

definition hands_over :: "call \<Rightarrow> bool" where
  "hands_over c \<longleftrightarrow> (\<exists>b. c = Sync_Call (Sock_Send b)) \<or> (\<exists>p a e. c = Proc (Execve p a e))"

lemma ensures_lift: "(\<And>x. q = Inr x \<Longrightarrow> ensures P (f x)) \<Longrightarrow> ensures P (bind (lift q) f)"
  by (cases q) (auto intro: ensures_throw)

lemma staged_excludes:
  assumes "staged rk lo hi m" "\<And>c. Q c \<Longrightarrow> \<exists>n. rk c = Some n \<and> hi < n"
  shows "only (\<lambda>c. \<not> Q c) m"
proof -
  have "\<not> Q (fst ev)" if tr: "in_stages rk lo hi tr" and ev: "ev \<in> set tr" for tr ev
  proof
    assume "Q (fst ev)"
    then obtain n where n: "rk (fst ev) = Some n" "hi < n" using assms(2) by blast
    then have "n \<in> set (List.map_filter (rk \<circ> fst) tr)"
      using ev by (force simp: List.map_filter_def)
    with tr n(2) show False by (auto simp: in_stages_def Let_def list_all_iff)
  qed
  then show ?thesis
    using assms(1) unfolding only_def staged_def by (elim emits_weaken) (auto simp: list_all_iff)
qed

lemma hands_over_stage: "hands_over c \<Longrightarrow> \<exists>n. init_stage nnp c = Some n \<and> 15 < n"
  by (auto simp: hands_over_def)

lemma staged_no_hand_over: "staged (init_stage nnp) lo hi m \<Longrightarrow> hi \<le> 15 \<Longrightarrow> only (\<lambda>c. \<not> hands_over c) m"
  by (erule staged_excludes) (metis hands_over_stage le_less_trans not_le_imp_less not_less_iff_gr_or_eq order_trans)

lemma quiet_no_hand_over: "quiet nnp m \<Longrightarrow> only (\<lambda>c. \<not> hands_over c) m"
  by (rule staged_no_hand_over [where lo = 0 and hi = 0], erule staged_of_only) simp

lemma staged_any: "staged rk lo hi m \<Longrightarrow> only (\<lambda>c. True) m"
  unfolding staged_def only_def by (erule emits_weaken) (simp add: list_all_iff)

lemma guarded_security:
  assumes "ensures P (init_security os h (plan_bundle p))"
  shows "guarded P hands_over (container_init os h p)"
proof -
  let ?nnp = "no_new_privs (plan_bundle p)"
  note free = staged_no_hand_over [THEN guarded_only] quiet_no_hand_over [THEN guarded_only]
  have cg: "only (\<lambda>c. \<not> hands_over c) (do_when b (unshare os CLONE_NEWCGROUP))" for b
    unfolding unshare_def by (intro hoare) (simp add: hands_over_def)
  have handoff: "only (\<lambda>c. True) (init_handoff os h p state pae)" for state pae
    by (rule staged_any [OF staged_handoff])
  have main: "guarded P hands_over
      (bind (do_when (plan_cgroup_ns p) (unshare os CLONE_NEWCGROUP)) (\<lambda>_.
       bind (init_rootfs os h p state) (\<lambda>_.
       bind (init_identity os p) (\<lambda>_.
       bind (init_harden os p) (\<lambda>_.
       bind (init_program os p) (\<lambda>pae.
       bind (init_limits os p) (\<lambda>_.
       bind (init_security os h (plan_bundle p)) (\<lambda>_.
         init_handoff os h p state pae))))))))" for state
    by (rule guarded_bind, rule guarded_only, rule cg,
        rule guarded_bind, rule free(1) [OF staged_rootfs], simp,
        rule guarded_bind, rule free(1) [OF staged_identity], simp,
        rule guarded_bind, rule free(2) [OF quiet_harden], rule guarded_bind, rule free(2) [OF quiet_program],
        rule guarded_bind, rule free(1) [OF staged_limits], simp,
        rule guarded_then, rule free(1) [OF staged_security], simp, rule assms, rule handoff)
  show ?thesis
    unfolding container_init_def Let_def
    by (rule guarded_bind, rule guarded_only, intro hoare, simp add: hands_over_def)
       (auto split: message.split intro!: guarded_only [OF only_throw] guarded_bind [OF guarded_only] main hoare
          simp: hands_over_def)
qed

lemma any_security_part:
  "only (\<lambda>c. True) (load_seccomp os h b)" "only (\<lambda>c. True) (init_credentials os h nnp sp)"
  "only (\<lambda>c. True) (drop_privileges os sp)"
  by (rule staged_any, rule staged_seccomp staged_credentials staged_drop)+

lemma any_caps:
  "only (\<lambda>c. True) (caps_apply os known caps)" "only (\<lambda>c. True) (drop_bounding os known caps)"
  unfolding caps_apply_def raise_ambient_def drop_bounding_def by (auto intro!: hoare)

lemma ensures_load: "bun_seccomp b = Some sp \<Longrightarrow> ensures (\<lambda>ev. ev = (Scmp Scmp_Load, None)) (load_seccomp os h b)"
proof -
  have any: "only (\<lambda>c. True) (add_names os so v r ns k)" for so v r ns k
    by (induction ns arbitrary: k) (auto simp: scmp_def intro!: hoare split: option.split)
  have rules: "only (\<lambda>c. True) (add_syscalls os so rs k)" for so rs k
    by (induction rs arbitrary: k) (auto intro!: hoare any)
  have load: "ensures (\<lambda>ev. ev = (Scmp Scmp_Load, None)) (seccomp_apply os so sp)" for so
    unfolding seccomp_apply_def scmp_def
    by (rule ensures_bind2, intro hoare, rule ensures_bind2, intro hoare, simp, rule ensures_bind2,
        (intro hoare; simp), rule ensures_bind2, (intro hoare; simp), rule ensures_bind2, (intro hoare; simp),
        rule ensures_bind2, rule rules, rule ensures_bind1, rule ensures_checked, simp, rule only_ret)
  assume "bun_seccomp b = Some sp"
  then show ?thesis
    unfolding load_seccomp_def by (auto intro!: ensures_bind1 load hoare)
qed

lemma ensures_process:
  assumes "\<And>sp. bun_process b = Some sp \<Longrightarrow> ensures P (init_credentials os h (no_new_privs b) sp)" "bun_process b \<noteq> None"
  shows "ensures P (init_security os h b)"
proof -
  from assms have creds: "ensures P (case bun_process b of Some sp \<Rightarrow> init_credentials os h (no_new_privs b) sp | None \<Rightarrow> ret ())"
    by auto
  show ?thesis
    unfolding init_security_def Let_def
    by (rule ensures_bind2, intro hoare, simp, rule ensures_bind2, intro hoare any_security_part,
        rule ensures_bind1 [OF creds]) (intro hoare any_security_part)
qed

lemma ensures_keep_user:
  "P (Cred (Setuid (usr_uid (proc_user sp))), None) \<or> P (Cred (Setgid (usr_gid (proc_user sp))), None)
     \<or> P (Cred (Setgroups (opt_or [] (usr_groups (proc_user sp)))), None) \<Longrightarrow>
   ensures P (drop_privileges os sp)"
proof -
  have keep: "only (\<lambda>c. True) (keep_caps_across_setuid os b)" for b
    unfolding keep_caps_across_setuid_def by (intro hoare) simp
  note rest = hoare keep
  show "P (Cred (Setuid (usr_uid (proc_user sp))), None) \<or> P (Cred (Setgid (usr_gid (proc_user sp))), None)
     \<or> P (Cred (Setgroups (opt_or [] (usr_groups (proc_user sp)))), None) \<Longrightarrow> ?thesis"
    unfolding drop_privileges_def Let_def
    apply (rule ensures_bind2, intro hoare, simp)
    apply (elim disjE)
      apply (rule ensures_bind2, (intro hoare; simp), rule ensures_bind2, intro rest,
             rule ensures_bind2, (intro hoare; simp), rule ensures_bind1, erule ensures_checked, intro rest)
     apply (rule ensures_bind2, (intro hoare; simp), rule ensures_bind2, intro rest,
            rule ensures_bind1, erule ensures_checked, auto intro!: rest)[1]
    apply (rule ensures_bind1, erule ensures_checked, auto intro!: rest)
    done
qed

lemma ensures_credentials:
  "ensures P (drop_privileges os sp) \<Longrightarrow> ensures P (init_credentials os h nnp sp)"
  "proc_caps sp = Some caps \<Longrightarrow> ensures P (caps_apply os (h_caps h) caps) \<Longrightarrow> ensures P (init_credentials os h nnp sp)"
  "nnp \<Longrightarrow> ensures P (set_no_new_privs os) \<Longrightarrow> ensures P (init_credentials os h nnp sp)"
proof -
  have opt: "only (\<lambda>c. True) (case q of Some caps \<Rightarrow> drop_bounding os (h_caps h) caps | None \<Rightarrow> ret ())"
    "only (\<lambda>c. True) (case q of Some caps \<Rightarrow> caps_apply os (h_caps h) caps | None \<Rightarrow> ret ())" for q
    by (auto intro!: only_option any_caps only_ret)
  have nnp: "only (\<lambda>c. True) (do_when b (set_no_new_privs os))" for b
    unfolding set_no_new_privs_def by (intro hoare) simp
  show "ensures P (drop_privileges os sp) \<Longrightarrow> ensures P (init_credentials os h nnp sp)"
    unfolding init_credentials_def
    by (rule ensures_bind2, rule opt, rule ensures_bind1, assumption, intro hoare opt nnp)
  show "proc_caps sp = Some caps \<Longrightarrow> ensures P (caps_apply os (h_caps h) caps) \<Longrightarrow> ensures P (init_credentials os h nnp sp)"
    unfolding init_credentials_def
    by (rule ensures_bind2, rule opt, rule ensures_bind2, rule any_security_part, rule ensures_bind1, simp, rule nnp)
  show "nnp \<Longrightarrow> ensures P (set_no_new_privs os) \<Longrightarrow> ensures P (init_credentials os h nnp sp)"
    unfolding init_credentials_def
    by (rule ensures_bind2, rule opt, rule ensures_bind2, rule any_security_part, rule ensures_bind2, rule opt)
       (simp add: do_when_def)
qed


definition sample_process :: process_spec where
  "sample_process = \<lparr>proc_terminal = None, proc_user = \<lparr>usr_uid = 1000, usr_gid = 1000, usr_umask = None, usr_groups = Some [5]\<rparr>,
     proc_args = Some [''/bin/sh''], proc_env = None, proc_cwd = ''/'', proc_caps = Some sample_caps,
     proc_rlimits = None, proc_oom = None, proc_nnp = Some True\<rparr>"

definition sample_linux :: linux_spec where
  "sample_linux = \<lparr>lin_namespaces = Some [\<lparr>ns_typ = Ns_Mount, ns_path = None\<rparr>], lin_devices = None, lin_resources = None,
     lin_cgroups_path = None, lin_masked_paths = None, lin_readonly_paths = None, lin_seccomp = Some sample_seccomp,
     lin_uid_mappings = None, lin_gid_mappings = None, lin_time_offsets = None, lin_sysctl = None, lin_propagation = None\<rparr>"

definition sample_spec :: spec where
  "sample_spec = \<lparr>spec_version = ''1.0.2'', spec_root = Some \<lparr>root_path = ''rootfs'', root_readonly = None\<rparr>,
     spec_mounts = None, spec_process = Some sample_process, spec_hostname = None, spec_domainname = None,
     spec_hooks = None, spec_annotations = None, spec_linux = Some sample_linux, spec_solaris = False,
     spec_windows = False, spec_vm = False, spec_zos = False\<rparr>"

definition sample_plan :: plan where
  "sample_plan = \<lparr>plan_bundle = \<lparr>bun_dir = ''/b'', bun_spec = sample_spec\<rparr>, plan_rootfs = ''/b/rootfs'', plan_overlay = None,
     plan_unshare = CLONE_NEWNS, plan_join = [], plan_cgroup_ns = False, plan_fifo = 5, plan_console = None,
     plan_state = sample_oci\<rparr>"

definition sample_host :: host where
  "sample_host = \<lparr>h_codec = sample_codec, h_caps = \<lambda>c. True, h_syscalls = \<lambda>n. None, h_signals = [],
     h_default_spec = sample_spec, h_fuel = 10\<rparr>"


end
