(* ===== verification/Container.thy ===== *)
theory Container
  imports Init State Userns
begin

section \<open>The life cycle of a container (container/mod.rs)\<close>

text \<open>
  The operations behind the commands. \<open>create\<close> prepares the directory, the root file system and the
  control group, forks the intermediate process and runs the parent's side of the handshake; every
  failure undoes what was made. The waits take the fuel of \<open>h_fuel\<close> where the source has no bound.
\<close>

record create_options =
  cr_id :: string
  cr_pid_file :: "path option"
  cr_console_socket :: "path option"
  cr_rootless :: bool

text \<open>What a program gives to the process that ran it: in the parent a value, in the forked child its end.\<close>

datatype 'a forked = In_Parent 'a | In_Child ending

subsection \<open>Helpers\<close>

definition prepare_merged :: "'w os \<Rightarrow> path \<Rightarrow> ('w, unit) io" where
  "prepare_merged os rootfs =
     bind (io_unit os (Create_Dir_All rootfs)) (\<lambda>_.
     bind (checked Io (os_names os) (Fs (Read_Dir rootfs))) (\<lambda>entries.
       if entries \<noteq> [] then throw (Overlay (Mountpoint_Not_Empty rootfs)) else ret ()))"

text \<open>Reaping every child that has ended: until none is left that has, or on any error.\<close>

fun drain :: "'w os \<Rightarrow> nat \<Rightarrow> ('w, unit) io" where
  "drain os 0 = throw Out_Of_Fuel"
| "drain os (Suc n) =
     bind (perform (os_wait os) (Proc Waitpid_Any)) (\<lambda>r.
       case r of
         Inl e \<Rightarrow> ret ()
       | Inr st \<Rightarrow> if st = Still_Alive then ret () else drain os n)"

fun await_empty :: "'w os \<Rightarrow> nat \<Rightarrow> cgroup \<Rightarrow> nat \<Rightarrow> ('w, unit) io" where
  "await_empty os fuel cg 0 = ret ()"
| "await_empty os fuel cg (Suc n) =
     bind (drain os fuel) (\<lambda>_.
     bind (attempt (cg_procs os cg)) (\<lambda>procs.
       if (case procs of Inr ps \<Rightarrow> ps = [] | Inl e \<Rightarrow> True) then ret ()
       else bind (ignore (checked Io (os_unit os) (Proc (Sleep_Ms 20)))) (\<lambda>_. await_empty os fuel cg n)))"

definition send_signal :: "'w os \<Rightarrow> signal \<Rightarrow> pid \<Rightarrow> ('w, unit) io" where
  "send_signal os sig p = checked raw_syscall (os_unit os) (Proc (Kill p sig))"

definition kill_all_ignoring :: "'w os \<Rightarrow> cgroup \<Rightarrow> ('w, unit) io" where
  "kill_all_ignoring os cg =
     bind (attempt (cg_procs os cg)) (\<lambda>procs.
       for_each (\<lambda>p. ignore (send_signal os SIGKILL p)) (unwrap_or [] procs))"

definition teardown :: "'w os \<Rightarrow> nat \<Rightarrow> cgroup \<Rightarrow> ('w, unit) io" where
  "teardown os fuel cg = bind (kill_all_ignoring os cg) (\<lambda>_. await_empty os fuel cg 250)"

definition container_hooks :: "'w os \<Rightarrow> codec \<Rightarrow> container \<Rightarrow> ('w, hooks option) io" where
  "container_hooks os cd c =
     bind (attempt (bundle_load os cd (per_bundle (con_state c)))) (\<lambda>r.
       ret (case r of Inr b \<Rightarrow> bun_hooks b | Inl e \<Rightarrow> None))"

subsection \<open>The parent's side of the handshake\<close>

definition map_intermediate :: "'w os \<Rightarrow> codec \<Rightarrow> plan \<Rightarrow> pid \<Rightarrow> message \<Rightarrow> ('w, message) io" where
  "map_intermediate os cd p child m =
     (if m = RequestUserMapping then
        bind (is_root os) (\<lambda>privileged.
        bind (userns_write os child (bun_id_mappings (plan_bundle p)) privileged) (\<lambda>_.
        bind (sync_send os cd UserMappingDone) (\<lambda>_.
          sync_recv os cd)))
      else ret m)"

definition init_pid :: "u64 \<Rightarrow> message \<Rightarrow> ('w, pid) io" where
  "init_pid forked_at m =
     (case m of
        InitPid init phases \<Rightarrow> bind (rec_absorb ''intermediate'' forked_at phases) (\<lambda>_. ret init)
      | Failed reason \<Rightarrow> throw (InitFailed reason)
      | other \<Rightarrow> throw (Sync_Expected ''InitPid'' other))"

definition persisted_of :: "plan \<Rightarrow> cgroup \<Rightarrow> create_options \<Rightarrow> pid \<Rightarrow> u64 \<Rightarrow> string \<Rightarrow> persisted" where
  "persisted_of p cg opts init start created =
     \<lparr>per_oci_version = OCI_VERSION, per_id = cr_id opts, per_pid = init, per_start_time = start,
      per_bundle = bun_dir (plan_bundle p), per_rootfs = plan_rootfs p, per_cgroup = cg_relative cg,
      per_created = created, per_rootless = cr_rootless opts, per_annotations = bun_annotations (plan_bundle p)\<rparr>"

text \<open>Saving the state, the last step: what comes after the init reported itself ready.\<close>

definition record_container :: "'w os \<Rightarrow> host \<Rightarrow> plan \<Rightarrow> cgroup \<Rightarrow> layout \<Rightarrow> create_options \<Rightarrow> pid \<Rightarrow> ('w, unit) io" where
  "record_container os h p cg l opts init =
     bind (rec_begin os ''state'') (\<lambda>_.
     bind (start_time os init) (\<lambda>start.
     bind (now_rfc3339 os) (\<lambda>created.
     bind (container_save os (h_codec h) l (persisted_of p cg opts init start created)) (\<lambda>_.
       write_pid_file os (cr_pid_file opts) init))))"

definition handshake :: "'w os \<Rightarrow> host \<Rightarrow> pid \<Rightarrow> plan \<Rightarrow> cgroup \<Rightarrow> layout \<Rightarrow> create_options \<Rightarrow> u64 \<Rightarrow> ('w, unit) io" where
  "handshake os h child p cg l opts forked_at =
     (let cd = h_codec h; hks = bun_hooks (plan_bundle p) in
      bind (rec_begin os ''wait.initpid'') (\<lambda>_.
      bind (sync_recv os cd) (\<lambda>m.
      bind (map_intermediate os cd p child m) (\<lambda>m'.
      bind (init_pid forked_at m') (\<lambda>init.
      bind (rec_begin os ''reap.intermediate'') (\<lambda>_.
      bind (checked raw_syscall (os_wait os) (Proc (Waitpid child))) (\<lambda>_.
      bind (rec_begin os ''cgroup.attach'') (\<lambda>_.
      bind (add_process os cg init) (\<lambda>_.
      let state = (plan_state p)\<lparr>oci_pid := Some init\<rparr> in
      bind (rec_begin os ''hooks.createRuntime'') (\<lambda>_.
      bind (hooks_run os cd (h_fuel h) hks Prestart state) (\<lambda>_.
      bind (hooks_run os cd (h_fuel h) hks CreateRuntime state) (\<lambda>_.
      bind (rec_begin os ''init'') (\<lambda>_.
      bind (elapsed_us os) (\<lambda>init_started.
      bind (sync_send os cd (CgroupApplied init)) (\<lambda>_.
      bind (sync_expect os cd ''InitReady'') (\<lambda>ready.
      bind (case ready of InitReady phases \<Rightarrow> ret phases | other \<Rightarrow> throw (Sync_Expected ''InitReady'' other)) (\<lambda>phases.
      bind (record_container os h p cg l opts init) (\<lambda>_.
      bind (rec_end os) (\<lambda>_.
        rec_absorb ''init'' init_started phases)))))))))))))))))))"

subsection \<open>Creating\<close>

definition creating_state :: "run_bundle \<Rightarrow> create_options \<Rightarrow> oci_state" where
  "creating_state b opts =
     \<lparr>oci_version = OCI_VERSION, oci_id = cr_id opts, oci_status = Creating, oci_pid = None, oci_bundle = bun_dir b,
      oci_annotations = (if bun_annotations b = [] then None else Some (bun_annotations b))\<rparr>"

text \<open>The parent after the fork: a failed handshake takes the fifo and every process of the group with it.\<close>

definition spawn_parent :: "'w os \<Rightarrow> host \<Rightarrow> pid \<Rightarrow> plan \<Rightarrow> cgroup \<Rightarrow> layout \<Rightarrow> create_options \<Rightarrow> u64 \<Rightarrow> ('w, unit) io" where
  "spawn_parent os h child p cg l opts forked_at =
     bind (attempt (handshake os h child p cg l opts forked_at)) (\<lambda>r.
       case r of
         Inr u \<Rightarrow> ret ()
       | Inl e \<Rightarrow>
           bind (ignore (io_unit os (Remove_File (exec_fifo l (cr_id opts))))) (\<lambda>_.
           bind (teardown os (h_fuel h) cg) (\<lambda>_. throw e)))"

definition spawn :: "'w os \<Rightarrow> host \<Rightarrow> layout \<Rightarrow> run_bundle \<Rightarrow> create_options \<Rightarrow> path \<Rightarrow> layers option \<Rightarrow>
    clone_flags \<Rightarrow> (ns_type \<times> path) list \<Rightarrow> bool \<Rightarrow> cgroup \<Rightarrow> ('w, unit forked) io" where
  "spawn os h l b opts rootfs overlay unshare_flags join cgroup_ns cg =
     bind (fifo_create os (exec_fifo l (cr_id opts))) (\<lambda>fifo.
     bind (case cr_console_socket opts of
             Some p \<Rightarrow> bind (open_socket os p) (\<lambda>f. ret (Some f)) | None \<Rightarrow> ret None) (\<lambda>console.
     let p = \<lparr>plan_bundle = b, plan_rootfs = rootfs, plan_overlay = overlay, plan_unshare = unshare_flags,
              plan_join = join, plan_cgroup_ns = cgroup_ns, plan_fifo = fifo, plan_console = console,
              plan_state = creating_state b opts\<rparr> in
     bind (checked raw_syscall (os_unit os) (Proc Child_Subreaper)) (\<lambda>_.
     bind (block_forwardable os) (\<lambda>_.
     bind (sync_pair os) (\<lambda>_.
     bind (rec_begin os ''fork'') (\<lambda>_.
     bind (elapsed_us os) (\<lambda>forked_at.
     bind (checked raw_syscall (os_num os) (Proc Fork)) (\<lambda>child.
       if child = 0 then bind (intermediate os h p) (\<lambda>ending. ret (In_Child ending))
       else bind (spawn_parent os h child p cg l opts forked_at) (\<lambda>_. ret (In_Parent ()))))))))))"

definition build_terminal :: "path option \<Rightarrow> bool \<Rightarrow> error + unit" where
  "build_terminal socket terminal =
     (if socket = None \<and> terminal then Inl (Invalid (Runtime No_Console_Socket))
      else if socket \<noteq> None \<and> \<not> terminal then Inl (Invalid (Runtime Console_Without_Terminal))
      else Inr ())"

definition build_overlay :: "'w os \<Rightarrow> clone_flags \<Rightarrow> path \<Rightarrow> layers option \<Rightarrow> ('w, unit) io" where
  "build_overlay os unshare_flags rootfs overlay =
     (case overlay of
        None \<Rightarrow> ret ()
      | Some layers \<Rightarrow>
          if \<not> contains_flags unshare_flags CLONE_NEWNS then throw (Overlay Needs_Mount_Namespace)
          else bind (prepare os layers) (\<lambda>_. prepare_merged os rootfs))"

text \<open>What is done with the control group: limits, then the container; on failure the group goes again.\<close>

definition with_cgroup :: "'w os \<Rightarrow> cgroup \<Rightarrow> resources option \<Rightarrow> ('w, 'a) io \<Rightarrow> ('w, 'a) io" where
  "with_cgroup os cg limits m =
     bind (attempt (case limits of Some r \<Rightarrow> cg_apply os cg r | None \<Rightarrow> ret ())) (\<lambda>applied.
       case applied of
         Inl e \<Rightarrow> bind (ignore (destroy os cg)) (\<lambda>_. throw e)
       | Inr u \<Rightarrow>
           bind (attempt m) (\<lambda>outcome.
             case outcome of
               Inl e \<Rightarrow> bind (ignore (destroy os cg)) (\<lambda>_. throw e)
             | Inr x \<Rightarrow> ret x))"

definition build :: "'w os \<Rightarrow> host \<Rightarrow> layout \<Rightarrow> run_bundle \<Rightarrow> create_options \<Rightarrow> ('w, unit forked) io" where
  "build os h l b opts =
     bind (lift (build_terminal (cr_console_socket opts) (bun_terminal b))) (\<lambda>_.
     bind (rec_begin os ''plan'') (\<lambda>_.
     bind (ns_layout_of os (bun_namespaces b)) (\<lambda>namespaces.
     let cgroup_ns = contains_flags (nsl_create namespaces) CLONE_NEWCGROUP;
         unshare_flags = without (nsl_create namespaces) CLONE_NEWCGROUP in
     bind (lift (bun_rootfs b)) (\<lambda>rootfs.
     bind (lift (bun_overlay b)) (\<lambda>overlay.
     bind (build_overlay os unshare_flags rootfs overlay) (\<lambda>_.
     bind (is_dir os rootfs) (\<lambda>there.
       if \<not> there then throw (RootfsMissing rootfs)
       else
         bind (rec_begin os ''cgroup'') (\<lambda>_.
         bind (cg_create os (relative_path (bun_cgroups_path b) (cr_id opts))) (\<lambda>cg.
           with_cgroup os cg (bun_resources b)
             (spawn os h l b opts rootfs overlay unshare_flags (nsl_join namespaces) cgroup_ns cg))))))))))"

definition container_create :: "'w os \<Rightarrow> host \<Rightarrow> layout \<Rightarrow> run_bundle \<Rightarrow> create_options \<Rightarrow> ('w, unit forked) io" where
  "container_create os h l b opts =
     bind (layout_exists os l (cr_id opts)) (\<lambda>there.
       if there then
         bind (container_load os (h_codec h) l (cr_id opts)) (\<lambda>existing.
         bind (container_status os existing) (\<lambda>st.
           throw (AlreadyExists (cr_id opts) (st = Stopped))))
       else
         let dir = container_dir l (cr_id opts) in
         bind (io_unit os (Create_Dir_All dir)) (\<lambda>_.
         bind (attempt (build os h l b opts)) (\<lambda>r.
           case r of
             Inr x \<Rightarrow> ret x
           | Inl e \<Rightarrow> bind (ignore (io_unit os (Remove_Dir_All dir))) (\<lambda>_. throw e))))"

subsection \<open>Starting and running\<close>

definition container_start :: "'w os \<Rightarrow> host \<Rightarrow> layout \<Rightarrow> string \<Rightarrow> ('w, unit) io" where
  "container_start os h l cid =
     bind (container_load os (h_codec h) l cid) (\<lambda>c.
     bind (require os c [Created]) (\<lambda>_.
     bind (fifo_release os (con_exec_fifo c)) (\<lambda>_.
     bind (container_hooks os (h_codec h) c) (\<lambda>hks.
     bind (oci_state_of os c) (\<lambda>st.
       hooks_run os (h_codec h) (h_fuel h) hks Poststart st)))))"

text \<open>\<^verbatim>\<open>explain_exit\<close> only logs what it reads.\<close>

definition explain_exit :: "'w os \<Rightarrow> cgroup \<Rightarrow> error + u8 \<Rightarrow> ('w, unit) io" where
  "explain_exit os cg outcome =
     (case outcome of
        Inl e \<Rightarrow> ret ()
      | Inr code \<Rightarrow> bind (ignore (memory_events_of os cg)) (\<lambda>_. ignore (cpu_stat_of os cg)))"

definition run_created :: "'w os \<Rightarrow> host \<Rightarrow> layout \<Rightarrow> run_bundle \<Rightarrow> create_options \<Rightarrow> bool \<Rightarrow> bool \<Rightarrow> ('w, unit) io \<Rightarrow>
    signal list \<Rightarrow> ('w, u8) io" where
  "run_created os h l b opts detach keep exported blocked =
     bind (container_load os (h_codec h) l (cr_id opts)) (\<lambda>c.
     bind (fifo_release os (con_exec_fifo c)) (\<lambda>_.
     bind (oci_state_of os c) (\<lambda>st.
     bind (hooks_run os (h_codec h) (h_fuel h) (bun_hooks b) Poststart st) (\<lambda>_.
     bind exported (\<lambda>_.
       if detach then ret 0
       else
         bind (attempt (supervise os blocked (con_pid c) (h_fuel h))) (\<lambda>outcome.
         bind (explain_exit os (con_cgroup c) outcome) (\<lambda>_.
         bind (oci_state_of os c) (\<lambda>st'.
         bind (hooks_run os (h_codec h) (h_fuel h) (bun_hooks b) Poststop st') (\<lambda>_.
         bind (ignore (destroy os (con_cgroup c))) (\<lambda>_.
         bind (do_when (\<not> keep) (ignore (container_remove os c))) (\<lambda>_.
           lift outcome)))))))))))"

definition container_run :: "'w os \<Rightarrow> host \<Rightarrow> layout \<Rightarrow> run_bundle \<Rightarrow> create_options \<Rightarrow> bool \<Rightarrow> bool \<Rightarrow> ('w, unit) io \<Rightarrow>
    ('w, u8 forked) io" where
  "container_run os h l b opts detach keep exported =
     bind (block_forwardable os) (\<lambda>blocked.
     bind (container_create os h l b opts) (\<lambda>made.
       case made of
         In_Child ending \<Rightarrow> ret (In_Child ending)
       | In_Parent u \<Rightarrow>
           bind (run_created os h l b opts detach keep exported blocked) (\<lambda>code. ret (In_Parent code))))"

subsection \<open>Signals, deletion, pause, update\<close>

definition kill_group :: "'w os \<Rightarrow> cgroup \<Rightarrow> signal \<Rightarrow> ('w, unit) io" where
  "kill_group os cg sig =
     bind (is_frozen os cg) (\<lambda>frozen.
     bind (do_when (\<not> frozen) (freeze os cg True)) (\<lambda>_.
     bind (attempt (bind (cg_procs os cg) (for_each (send_signal os sig)))) (\<lambda>result.
     bind (do_when (\<not> frozen) (freeze os cg False)) (\<lambda>_.
       lift result))))"

definition container_kill :: "'w os \<Rightarrow> host \<Rightarrow> layout \<Rightarrow> string \<Rightarrow> signal \<Rightarrow> bool \<Rightarrow> ('w, unit) io" where
  "container_kill os h l cid sig all =
     bind (container_load os (h_codec h) l cid) (\<lambda>c.
     bind (require os c [Created, Running, Paused]) (\<lambda>_.
       if \<not> all then send_signal os sig (con_pid c) else kill_group os (con_cgroup c) sig))"

fun await_dead :: "'w os \<Rightarrow> container \<Rightarrow> nat \<Rightarrow> ('w, unit) io" where
  "await_dead os c 0 = ret ()"
| "await_dead os c (Suc n) =
     bind (alive os c) (\<lambda>live.
       if \<not> live then ret ()
       else bind (ignore (checked Io (os_unit os) (Proc (Sleep_Ms 10)))) (\<lambda>_. await_dead os c n))"

definition force_stop :: "'w os \<Rightarrow> container \<Rightarrow> ('w, unit) io" where
  "force_stop os c =
     (let cg = con_cgroup c in
      bind (is_frozen os cg) (\<lambda>frozen.
      bind (do_when frozen (freeze os cg False)) (\<lambda>_.
      bind (kill_all_ignoring os cg) (\<lambda>_.
        await_dead os c 500))))"

definition delete_loaded :: "'w os \<Rightarrow> host \<Rightarrow> string \<Rightarrow> bool \<Rightarrow> container \<Rightarrow> ('w, unit) io" where
  "delete_loaded os h cid force c =
     bind (container_status os c) (\<lambda>st.
     bind (if st = Stopped then ret ()
           else if \<not> force then throw (BadState cid (status_name st) ''stopped; pass --force to kill it first'')
           else force_stop os c) (\<lambda>_.
     bind (container_hooks os (h_codec h) c) (\<lambda>hks.
     bind (ignore (destroy os (con_cgroup c))) (\<lambda>_.
     bind (oci_state_of os c) (\<lambda>state.
     bind (hooks_run os (h_codec h) (h_fuel h) hks Poststop state) (\<lambda>_.
       container_remove os c))))))"

definition container_delete :: "'w os \<Rightarrow> host \<Rightarrow> layout \<Rightarrow> string \<Rightarrow> bool \<Rightarrow> ('w, unit) io" where
  "container_delete os h l cid force =
     bind (attempt (container_load os (h_codec h) l cid)) (\<lambda>loaded.
       case loaded of
         Inr c \<Rightarrow> delete_loaded os h cid force c
       | Inl e \<Rightarrow> (case e of NotFound name \<Rightarrow> if force then ret () else throw e | _ \<Rightarrow> throw e))"

definition container_pause :: "'w os \<Rightarrow> host \<Rightarrow> layout \<Rightarrow> string \<Rightarrow> bool \<Rightarrow> ('w, unit) io" where
  "container_pause os h l cid paused =
     bind (container_load os (h_codec h) l cid) (\<lambda>c.
     bind (require os c (if paused then [Created, Running] else [Paused])) (\<lambda>_.
       freeze os (con_cgroup c) paused))"

definition container_update :: "'w os \<Rightarrow> host \<Rightarrow> layout \<Rightarrow> string \<Rightarrow> resources \<Rightarrow> ('w, unit) io" where
  "container_update os h l cid r =
     bind (container_load os (h_codec h) l cid) (\<lambda>c.
     bind (require os c [Created, Running, Paused]) (\<lambda>_.
       cg_apply os (con_cgroup c) r))"

subsection \<open>Which calls the operations make\<close>

lemma only_start_time [hoare]: "P (Fs (Read_File (stat_path p))) \<Longrightarrow> only P (start_time os p)"
  unfolding start_time_def by (auto intro!: hoare)

lemma only_now_rfc3339 [hoare]: "P (Misc Wall_Clock_Ns) \<Longrightarrow> only P (now_rfc3339 os)"
  unfolding now_rfc3339_def Let_def by (auto intro!: hoare split: prod.split)

lemma only_container_save [hoare]:
  "P (Fs (Create_Dir_All (container_dir l (per_id st)))) \<Longrightarrow>
   (\<And>v. P (Fs (Write_File (join_path (container_dir l (per_id st)) STAGED_FILE) v))) \<Longrightarrow>
   P (Fs (Rename (join_path (container_dir l (per_id st)) STAGED_FILE) (state_file l (per_id st)))) \<Longrightarrow>
   only P (container_save os cd l st)"
  unfolding container_save_def Let_def by (auto intro!: hoare)

lemma only_write_pid_file [hoare]: "(\<And>f v. path = Some f \<Longrightarrow> P (Fs (Write_File f v))) \<Longrightarrow> only P (write_pid_file os path p)"
  unfolding write_pid_file_def by (auto intro!: hoare split: option.split)

lemma only_elapsed_us [hoare]: "P (Misc Monotonic_Us) \<Longrightarrow> only P (elapsed_us os)"
  unfolding elapsed_us_def by (intro hoare)

lemma only_rec_absorb [hoare]: "only P (rec_absorb pre off ps)"
  unfolding rec_absorb_def by (intro hoare)

lemma only_add_process [hoare]:
  "P (Fs (Write_File (join_path (cg_path cg) ''cgroup.procs'') (show_int i))) \<Longrightarrow> only P (add_process os cg i)"
  unfolding add_process_def by (intro hoare)

end
