(* ===== verification/Exec.thy ===== *)
theory Exec
  imports Host Bundle Console Signal Sync State Ordering
begin

section \<open>Running a process in a container (container/exec.rs)\<close>

text \<open>
  \<^verbatim>\<open>exec\<close> joins the namespaces of a live container, forks, puts the child into the container's group and
  lets it execute the program. Files whose paths stop to mean the host's once the namespaces are
  joined are opened before. The child ends by an exit code or by the new image.
\<close>

definition EXEC_JOIN_ORDER :: "(string \<times> clone_flags) list" where
  "EXEC_JOIN_ORDER =
     [(''user'', CLONE_NEWUSER), (''ipc'', CLONE_NEWIPC), (''uts'', CLONE_NEWUTS), (''net'', CLONE_NEWNET),
      (''pid'', CLONE_NEWPID), (''cgroup'', CLONE_NEWCGROUP), (''mnt'', CLONE_NEWNS)]"

record exec_options =
  ex_argv :: "string list"
  ex_env :: "string list"
  ex_cwd :: "path option"
  ex_process :: "path option"
  ex_user :: "string option"
  ex_gids :: "u32 list"
  ex_console_socket :: "path option"
  ex_tty :: bool
  ex_detach :: bool
  ex_pid_file :: "path option"
  ex_ignore_paused :: bool

record target =
  tg_argv :: "string list"
  tg_env :: "string list"
  tg_cwd :: path
  tg_uid :: "u32 option"
  tg_gid :: "u32 option"
  tg_groups :: "u32 list"
  tg_terminal :: bool

subsection \<open>What to run\<close>

definition parse_user :: "string \<Rightarrow> error + u32 option \<times> u32 option" where
  "parse_user v =
     (let (uid, gid) = (case split_once colon v of Some (u, g) \<Rightarrow> (u, Some g) | None \<Rightarrow> (v, None));
          bad = Invalid (Command (Bad_User v)) in
      rbind (ok_or bad (parse_u32 uid)) (\<lambda>u.
      case gid of
        Some g \<Rightarrow> rbind (ok_or bad (parse_u32 g)) (\<lambda>g'. Inr (Some u, Some g'))
      | None \<Rightarrow> Inr (Some u, None)))"

definition read_process :: "'w os \<Rightarrow> codec \<Rightarrow> path option \<Rightarrow> ('w, process_spec option) io" where
  "read_process os cd path =
     (case path of
        None \<Rightarrow> ret None
      | Some p \<Rightarrow>
          bind (io_text os (Read_File p)) (\<lambda>t. bind (json (dec_process cd t)) (\<lambda>proc. ret (Some proc))))"

definition target_argv :: "process_spec option \<Rightarrow> exec_options \<Rightarrow> error + string list" where
  "target_argv proc opts =
     rbind (case proc of
              Some p \<Rightarrow> Inr (opt_or [] (proc_args p))
            | None \<Rightarrow> if ex_argv opts \<noteq> [] then Inr (ex_argv opts) else Inl (SpecField ''process.args''))
       (\<lambda>argv. if argv = [] then Inl (SpecField ''process.args'') else Inr argv)"

definition target_env :: "process_spec option \<Rightarrow> run_bundle option \<Rightarrow> exec_options \<Rightarrow> error + string list" where
  "target_env proc b opts =
     (let env = (case proc of
                   Some p \<Rightarrow> opt_or [] (proc_env p)
                 | None \<Rightarrow> opt_or [] (map_option bun_env b)) in
      rbind (check_all (\<lambda>entry.
               if CHR ''='' \<notin> set entry then Inl (Invalid (Command (Env_Not_Key_Value entry))) else Inr ()) (ex_env opts))
        (\<lambda>_. Inr (env @ ex_env opts)))"

definition or_else :: "'a option \<Rightarrow> 'a option \<Rightarrow> 'a option" where
  "or_else a b = (case a of None \<Rightarrow> b | Some x \<Rightarrow> Some x)"

definition target_cwd :: "process_spec option \<Rightarrow> run_bundle option \<Rightarrow> exec_options \<Rightarrow> path" where
  "target_cwd proc b opts =
     (case or_else (or_else (ex_cwd opts) (map_option proc_cwd proc)) (Option.bind b bun_cwd) of
        Some cwd \<Rightarrow> if cwd \<noteq> [] then cwd else ''/''
      | None \<Rightarrow> ''/'')"

definition target_ids :: "process_spec option \<Rightarrow> exec_options \<Rightarrow> error + u32 option \<times> u32 option" where
  "target_ids proc opts =
     (case ex_user opts of
        Some v \<Rightarrow> parse_user v
      | None \<Rightarrow> (case proc of
          Some p \<Rightarrow> Inr (Some (usr_uid (proc_user p)), Some (usr_gid (proc_user p)))
        | None \<Rightarrow> Inr (None, None)))"

definition target_groups :: "process_spec option \<Rightarrow> exec_options \<Rightarrow> u32 list" where
  "target_groups proc opts =
     (if ex_gids opts = []
      then (case proc of Some p \<Rightarrow> opt_or [] (usr_groups (proc_user p)) | None \<Rightarrow> [])
      else ex_gids opts)"

definition resolve_target :: "'w os \<Rightarrow> codec \<Rightarrow> container \<Rightarrow> exec_options \<Rightarrow> ('w, target) io" where
  "resolve_target os cd c opts =
     bind (attempt (bundle_load os cd (per_bundle (con_state c)))) (\<lambda>loaded.
     bind (read_process os cd (ex_process opts)) (\<lambda>proc.
     bind (lift (target_argv proc opts)) (\<lambda>argv.
     bind (lift (target_env proc (ok loaded) opts)) (\<lambda>env.
     bind (lift (target_ids proc opts)) (\<lambda>(uid, gid).
       ret \<lparr>tg_argv = argv, tg_env = env, tg_cwd = target_cwd proc (ok loaded) opts, tg_uid = uid, tg_gid = gid,
            tg_groups = target_groups proc opts,
            tg_terminal = (case proc of Some p \<Rightarrow> opt_or False (proc_terminal p) | None \<Rightarrow> ex_tty opts)\<rparr>)))))"

subsection \<open>The steps\<close>

definition single_threaded :: "'w os \<Rightarrow> ('w, unit) io" where
  "single_threaded os =
     bind (checked Io (os_names os) (Fs (Read_Dir ''/proc/self/task''))) (\<lambda>entries.
       if length entries \<le> 1 then ret () else throw (Invalid (Command (Too_Many_Threads (int (length entries))))))"

definition ns_file :: "string \<Rightarrow> string \<Rightarrow> path" where
  "ns_file who name = ''/proc/'' @ who @ ''/ns/'' @ name"

fun collect_joins :: "'w os \<Rightarrow> pid \<Rightarrow> (string \<times> clone_flags) list \<Rightarrow> ('w, (string \<times> clone_flags \<times> fd) list) io" where
  "collect_joins os init [] = ret []"
| "collect_joins os init ((name, flag) # rest) =
     (let theirs = ns_file (show_int init) name in
      bind (path_exists os theirs) (\<lambda>there.
        if \<not> there then collect_joins os init rest
        else
          bind (attempt (io_text os (Read_Link (ns_file ''self'' name)))) (\<lambda>ours.
          bind (attempt (io_text os (Read_Link theirs))) (\<lambda>link.
            if ok ours \<noteq> None \<and> ok ours = ok link then collect_joins os init rest
            else
              bind (checked Nix (os_num os) (Fd (Open_Read theirs))) (\<lambda>handle.
              bind (collect_joins os init rest) (\<lambda>joins. ret ((name, flag, handle) # joins)))))))"

definition open_cgroup_procs :: "'w os \<Rightarrow> container \<Rightarrow> ('w, fd) io" where
  "open_cgroup_procs os c =
     checked Io (os_num os) (Fd (Open_Write (join_path (cg_path (con_cgroup c)) ''cgroup.procs'')))"

definition place :: "'w os \<Rightarrow> fd \<Rightarrow> pid \<Rightarrow> ('w, unit) io" where
  "place os procs child = checked Io (os_unit os) (Fd (Fd_Write procs (show_int child)))"

definition enter :: "'w os \<Rightarrow> target \<Rightarrow> fd option \<Rightarrow> ('w, unit) io" where
  "enter os t console =
     bind (checked Nix (os_unit os) (Proc (Chdir ''/''))) (\<lambda>_.
     bind (case console of Some socket \<Rightarrow> console_setup os socket | None \<Rightarrow> ret ()) (\<lambda>_.
     bind (case tg_gid t of
             Some gid \<Rightarrow>
               bind (do_when (tg_groups t \<noteq> []) (checked Nix (os_unit os) (Cred (Setgroups (tg_groups t))))) (\<lambda>_.
                 checked Nix (os_unit os) (Cred (Setgid gid)))
           | None \<Rightarrow> ret ()) (\<lambda>_.
     bind (case tg_uid t of Some uid \<Rightarrow> checked Nix (os_unit os) (Cred (Setuid uid)) | None \<Rightarrow> ret ()) (\<lambda>_.
     bind (checked Nix (os_unit os) (Proc (Chdir (tg_cwd t)))) (\<lambda>_.
     bind (resolve_executable os (hd (tg_argv t)) (tg_env t) True) (\<lambda>program.
     bind (lift (to_cstring program)) (\<lambda>program'.
     bind (lift (to_cstrings (tg_argv t))) (\<lambda>argv.
     bind (lift (to_cstrings (tg_env t))) (\<lambda>env.
     bind (unblock_all os) (\<lambda>_.
       checked raw_syscall (os_unit os) (Proc (Execve program' argv env))))))))))))"

text \<open>The two checks on the state and on the terminal.\<close>

definition exec_allowed :: "string \<Rightarrow> bool \<Rightarrow> status \<Rightarrow> error + unit" where
  "exec_allowed cid ignore_paused st =
     (if st = Stopped \<or> st = Creating then Inl (BadState cid (status_name st) ''created or running'')
      else if st = Paused \<and> \<not> ignore_paused
      then Inl (BadState cid ''paused'' ''running; pass --ignore-paused to exec anyway'')
      else Inr ())"

definition terminal_consistent :: "path option \<Rightarrow> bool \<Rightarrow> error + unit" where
  "terminal_consistent socket terminal =
     (if socket = None \<and> terminal then Inl (Invalid (Command Exec_No_Console_Socket))
      else if socket \<noteq> None \<and> \<not> terminal then Inl (Invalid (Command Exec_Console_Without_Terminal))
      else Inr ())"

datatype exec_result = Exec_Code u8 | Exec_Child int | Exec_Replaced

definition exec_child :: "'w os \<Rightarrow> codec \<Rightarrow> target \<Rightarrow> fd option \<Rightarrow> ('w, exec_result) io" where
  "exec_child os cd t console =
     bind (attempt (bind (sync_expect os cd ''CgroupApplied'') (\<lambda>_. enter os t console))) (\<lambda>r.
       ret (case r of Inr u \<Rightarrow> Exec_Replaced | Inl e \<Rightarrow> Exec_Child 126))"

definition exec_parent :: "'w os \<Rightarrow> host \<Rightarrow> exec_options \<Rightarrow> fd \<Rightarrow> fd option \<Rightarrow> signal list \<Rightarrow> pid \<Rightarrow> ('w, exec_result) io" where
  "exec_parent os h opts procs pid_handle blocked child =
     bind (place os procs child) (\<lambda>_.
     bind (sync_send os (h_codec h) (CgroupApplied child)) (\<lambda>_.
     bind (case pid_handle of
             Some f \<Rightarrow> checked Io (os_unit os) (Fd (Fd_Write f (show_int child))) | None \<Rightarrow> ret ()) (\<lambda>_.
       if ex_detach opts then ret (Exec_Code 0)
       else bind (supervise os blocked child (h_fuel h)) (\<lambda>code. ret (Exec_Code code)))))"

definition container_exec :: "'w os \<Rightarrow> host \<Rightarrow> layout \<Rightarrow> string \<Rightarrow> exec_options \<Rightarrow> ('w, exec_result) io" where
  "container_exec os h l cid opts =
     bind (container_load os (h_codec h) l cid) (\<lambda>c.
     bind (container_status os c) (\<lambda>st.
     bind (lift (exec_allowed cid (ex_ignore_paused opts) st)) (\<lambda>_.
     bind (resolve_target os (h_codec h) c opts) (\<lambda>t.
     bind (lift (terminal_consistent (ex_console_socket opts) (tg_terminal t))) (\<lambda>_.
     bind (single_threaded os) (\<lambda>_.
     bind (collect_joins os (con_pid c) EXEC_JOIN_ORDER) (\<lambda>joins.
     bind (case ex_console_socket opts of
             Some p \<Rightarrow> bind (open_socket os p) (\<lambda>f. ret (Some f)) | None \<Rightarrow> ret None) (\<lambda>console.
     bind (open_cgroup_procs os c) (\<lambda>procs.
     bind (case ex_pid_file opts of
             Some p \<Rightarrow> bind (checked Io (os_num os) (Fd (Open_Create p))) (\<lambda>f. ret (Some f)) | None \<Rightarrow> ret None) (\<lambda>pid_handle.
     bind (for_each (\<lambda>(name, flag, handle). checked Nix (os_unit os) (Proc (Setns handle flag))) joins) (\<lambda>_.
     bind (block_forwardable os) (\<lambda>blocked.
     bind (sync_pair os) (\<lambda>_.
     bind (checked raw_syscall (os_num os) (Proc Fork)) (\<lambda>child.
       if child = 0 then exec_child os (h_codec h) t console
       else exec_parent os h opts procs pid_handle blocked child))))))))))))))"

subsection \<open>Order and guards\<close>

text \<open>The host's files are opened before the namespaces change what their paths mean; the child is forked
  after the joins; and it changes its groups, group and user in that order before it executes.\<close>

fun exec_stage :: "call \<Rightarrow> nat option" where
  "exec_stage (Fd (Open_Write p)) = Some 1"
| "exec_stage (Fd (Open_Create p)) = Some 2"
| "exec_stage (Proc (Setns f k)) = Some 3"
| "exec_stage (Proc Fork) = Some 4"
| "exec_stage (Sync_Call (Sock_Recv n)) = Some 5"
| "exec_stage (Cred (Setgroups g)) = Some 6"
| "exec_stage (Cred (Setgid g)) = Some 7"
| "exec_stage (Cred (Setuid u)) = Some 8"
| "exec_stage (Proc (Sig_Setmask m)) = Some 9"
| "exec_stage (Proc (Execve p a e)) = Some 10"
| "exec_stage c = None"

fun is_execve :: "call \<Rightarrow> bool" where
  "is_execve (Proc (Execve p a e)) = True"
| "is_execve c = False"

lemma console_unstaged: "console_call c \<Longrightarrow> exec_stage c = None"
  by (induction c rule: console_call.induct) auto

lemma staged_exec_skip:
  "only (\<lambda>c. exec_stage c = None) m \<Longrightarrow> (\<And>x. staged exec_stage a c (f x)) \<Longrightarrow> a \<le> c \<Longrightarrow> staged exec_stage a c (bind m f)"
  by (rule staged_bind [where b = a]) (auto intro: staged_of_only)

lemma staged_exec_step:
  "exec_stage c = Some n \<Longrightarrow> a \<le> n \<Longrightarrow> n \<le> b \<Longrightarrow> staged exec_stage a b (checked wrap f c)"
  by (rule staged_checked) auto

lemma staged_enter: "staged exec_stage 6 10 (enter os t console)"
proof -
  have groups: "staged exec_stage 6 7 (case g of
             Some gid \<Rightarrow>
               bind (do_when b (checked Nix (os_unit os) (Cred (Setgroups gs)))) (\<lambda>_.
                 checked Nix (os_unit os) (Cred (Setgid gid)))
           | None \<Rightarrow> ret ())" for g gs b
    by (cases g) (auto intro!: staged_ret staged_bind [where b = 6] staged_exec_step simp: do_when_def)
  have user: "staged exec_stage 8 8 (case u of Some uid \<Rightarrow> checked Nix (os_unit os) (Cred (Setuid uid)) | None \<Rightarrow> ret ())" for u
    by (cases u) (auto intro!: staged_ret staged_exec_step)
  have console: "only (\<lambda>c. exec_stage c = None) (case co of Some socket \<Rightarrow> console_setup os socket | None \<Rightarrow> ret ())" for co
    by (auto intro!: only_option only_console_setup only_ret console_unstaged)
  have exe: "only (\<lambda>c. exec_stage c = None) (resolve_executable os p env fl)" for p env fl
    by (auto intro!: hoare)
  show ?thesis
    unfolding enter_def unblock_all_def
    by (rule staged_exec_skip, intro hoare, simp, rule staged_exec_skip, rule console,
        rule staged_bind [where b = 7, OF groups], rule staged_bind [where b = 8], rule staged_weaken [OF user], simp, simp,
        rule staged_exec_skip, intro hoare, simp, rule staged_exec_skip, rule exe,
        rule staged_exec_skip, intro hoare, rule staged_exec_skip, intro hoare, rule staged_exec_skip, intro hoare,
        rule staged_bind [where b = 9], rule staged_exec_step, simp, simp, simp, rule staged_exec_step, simp, simp, simp) simp_all
qed

lemma only_exec_reads:
  assumes "\<And>p. P (Fs (Stat p))" "\<And>p. P (Fs (Read_File p))" "\<And>p. P (Fs (Read_Link p))" "\<And>p. P (Fd (Open_Read p))" "\<And>p. P (Fs (Read_Dir p))"
    "\<And>p. P (Fs (Canonicalize p))"
  shows "only P (container_load os cd l cid)" "only P (container_status os c)" "only P (resolve_target os cd c opts)"
    "only P (single_threaded os)" "only P (collect_joins os i nfs)"
proof -
  have loads: "only P (bundle_load os cd d)" for d
    unfolding bundle_load_def Let_def using assms by (auto intro!: hoare)
  have reads: "only P (read_process os cd path)" for path
    unfolding read_process_def using assms by (auto intro!: hoare split: option.split)
  show "only P (container_load os cd l cid)" unfolding container_load_def Let_def using assms by (auto intro!: hoare)
  show "only P (container_status os c)"
    unfolding container_status_def alive_def start_time_def using assms by (auto intro!: hoare split: option.split)
  show "only P (resolve_target os cd c opts)"
    unfolding resolve_target_def by (auto intro!: hoare loads reads split: prod.split)
  show "only P (single_threaded os)" unfolding single_threaded_def using assms by (auto intro!: hoare)
  show "only P (collect_joins os i nfs)"
    by (induction nfs) (use assms in \<open>auto intro!: hoare simp: Let_def\<close>)
qed

lemma staged_exec_branches:
  "staged exec_stage 5 10 (exec_child os cd t console)" "staged exec_stage 5 10 (exec_parent os h opts procs pf blocked child)"
proof -
  have expect: "staged exec_stage 5 5 (sync_expect os cd want)" for want
    by (rule staged_of_only_stage) (auto intro!: hoare)
  show "staged exec_stage 5 10 (exec_child os cd t console)"
    unfolding exec_child_def
    by (rule staged_bind [where b = 10], rule staged_attempt, rule staged_bind [where b = 6], rule staged_weaken [OF expect], simp, simp,
        rule staged_enter) (auto intro: staged_ret)
  have sup: "only (\<lambda>c. exec_stage c = None) (supervise os blocked i n)" for i n
    by (rule only_weaken [OF only_supervise]) auto
  show "staged exec_stage 5 10 (exec_parent os h opts procs pf blocked child)"
    unfolding exec_parent_def place_def
    by (rule staged_of_only) (auto intro!: hoare sup split: option.split)
qed

lemma staged_exec: "staged exec_stage 0 10 (container_exec os h l cid opts)"
proof -
  note reads = only_exec_reads [of "\<lambda>c. exec_stage c = None", simplified]
  have socket: "only (\<lambda>c. exec_stage c = None) (case co of Some p \<Rightarrow> bind (open_socket os p) (\<lambda>f. ret (Some f)) | None \<Rightarrow> ret None)" for co
    unfolding open_socket_def by (auto intro!: hoare split: option.split)
  have pidf: "staged exec_stage 2 2 (case pf of
             Some p \<Rightarrow> bind (checked Io (os_num os) (Fd (Open_Create p))) (\<lambda>f. ret (Some f)) | None \<Rightarrow> ret None)" for pf
    by (auto intro!: staged_of_only_stage hoare split: option.split)
  have joins: "staged exec_stage 3 3 (for_each (\<lambda>(name, flag, handle). checked Nix (os_unit os) (Proc (Setns handle flag))) js)" for js
    by (auto intro!: staged_of_only_stage hoare split: prod.split)
  have block: "only (\<lambda>c. exec_stage c = None) (block_forwardable os)" "only (\<lambda>c. exec_stage c = None) (sync_pair os)"
    unfolding block_forwardable_def sync_pair_def by (auto intro!: hoare)
  show ?thesis
    unfolding container_exec_def open_cgroup_procs_def
    by (rule staged_exec_skip, rule reads, rule staged_exec_skip, rule reads, rule staged_exec_skip, intro hoare,
        rule staged_exec_skip, rule reads, rule staged_exec_skip, intro hoare, rule staged_exec_skip, rule reads,
        rule staged_exec_skip, rule reads, rule staged_exec_skip, rule socket,
        rule staged_bind [where b = 1], rule staged_exec_step, simp, simp, simp,
        rule staged_bind [where b = 2], rule staged_weaken [OF pidf], simp, simp,
        rule staged_bind [where b = 3], rule staged_weaken [OF joins], simp, simp,
        rule staged_exec_skip, rule block, rule staged_exec_skip, rule block,
        rule staged_bind [where b = 4], rule staged_exec_step, simp, simp, simp)
       (auto intro!: staged_weaken [OF staged_exec_branches(1)] staged_weaken [OF staged_exec_branches(2)])
qed

lemma any_enter: "only (\<lambda>c. True) (enter os t co)"
  using staged_enter unfolding staged_def only_def by (rule emits_weaken) (simp add: list_all_iff)

text \<open>The calls that let the new process go on: its program, and the parent's permission to start it.\<close>

fun lets_go :: "call \<Rightarrow> bool" where
  "lets_go (Proc (Execve p a e)) = True"
| "lets_go (Sync_Call (Sock_Send b)) = True"
| "lets_go c = False"

lemma console_no_go: "console_call c \<Longrightarrow> \<not> lets_go c"
  by (induction c rule: console_call.induct) auto

definition placed :: "event \<Rightarrow> bool" where
  "placed ev \<longleftrightarrow> ev = (Sync_Call (Sock_Recv MAX_MESSAGE), None) \<or> (\<exists>procs v. ev = (Fd (Fd_Write procs v), None))"

lemma exec_branches_guarded:
  "guarded placed lets_go (exec_child os cd t console)" "guarded placed lets_go (exec_parent os h opts procs pf blocked child)"
proof -
  have recv: "ensures placed (sync_recv os cd)"
    unfolding sync_recv_def
    by (rule ensures_bind1, rule ensures_checked) (auto simp: placed_def intro!: hoare)
  have expect: "ensures placed (sync_expect os cd want)" for want
    unfolding sync_expect_def by (rule ensures_bind1 [OF recv]) (intro hoare)
  show "guarded placed lets_go (exec_child os cd t console)"
    unfolding exec_child_def
    by (rule guarded_bind, rule guarded_attempt, rule guarded_then, rule guarded_only)
       (auto intro!: hoare expect any_enter guarded_only)
  have sup: "only (\<lambda>c. True) (supervise os blocked i n)" for i n
    by (rule any_call [OF only_supervise])
  show "guarded placed lets_go (exec_parent os h opts procs pf blocked child)"
    unfolding exec_parent_def place_def
    by (rule guarded_then, rule guarded_checked, simp, rule ensures_checked)
       (auto simp: placed_def intro!: hoare sup split: option.split)
qed


text \<open>\<open>exec\<close> runs in a container only when it is alive and not paused, or paused and the caller insists: in
  every other status it fails with an error that names the status, after reading the state and
  nothing else.\<close>

theorem exec_needs_live:
  assumes "container_load os (h_codec h) l cid s = (Inr c, s1)" "container_status os c s1 = (Inr st, s2)"
    and "st = Stopped \<or> st = Paused \<and> \<not> ex_ignore_paused opts"
  shows "\<exists>want. container_exec os h l cid opts s = (Inl (BadState cid (status_name st) want), s2)"
proof -
  have "\<exists>want. exec_allowed cid (ex_ignore_paused opts) st = Inl (BadState cid (status_name st) want)"
    using assms(3) by (auto simp: exec_allowed_def status_name_def)
  with assms(1,2) show ?thesis by (auto simp: container_exec_def bind_def throw_def)
qed

end
