(* ===== verification/Commands.thy ===== *)
theory Commands
  imports Container Exec
begin

section \<open>The command line (cli.rs, commands/)\<close>

text \<open>
  The arguments of every command as \<^verbatim>\<open>cli.rs\<close> declares them (\<^verbatim>\<open>clap\<close>, which parses them, is not modelled),
  and what \<^verbatim>\<open>dispatch\<close> does with each. A command ends with an exit code, or, in a process that was
  forked off, with that process's end. Log output is not modelled; \<^verbatim>\<open>println!\<close> is a call whose failure
  is the source's panic.
\<close>

subsection \<open>Arguments\<close>

datatype rootless_mode = Rootless_True | Rootless_False | Rootless_Auto

datatype log_format = Log_Text | Log_Json

datatype list_format = Format_Table | Format_Json

record create_args =
  ca_bundle :: path
  ca_console_socket :: "path option"
  ca_pid_file :: "path option"
  ca_preserve_fds :: int
  ca_no_pivot :: bool
  ca_no_new_keyring :: bool
  ca_id :: string

record run_args =
  ra_bundle :: path
  ra_console_socket :: "path option"
  ra_pid_file :: "path option"
  ra_detach :: bool
  ra_preserve_fds :: int
  ra_no_pivot :: bool
  ra_no_new_keyring :: bool
  ra_keep :: bool
  ra_id :: string

record exec_args =
  ea_process :: "path option"
  ea_console_socket :: "path option"
  ea_cwd :: "path option"
  ea_env :: "string list"
  ea_tty :: bool
  ea_user :: "string option"
  ea_additional_gids :: "u32 list"
  ea_detach :: bool
  ea_pid_file :: "path option"
  ea_process_label :: "string option"
  ea_apparmor :: "string option"
  ea_no_new_privs :: bool
  ea_cap :: "string list"
  ea_preserve_fds :: int
  ea_cgroup :: "string option"
  ea_ignore_paused :: bool
  ea_id :: string
  ea_argv :: "string list"

record kill_args =
  ka_all :: bool
  ka_id :: string
  ka_signal :: string

record delete_args =
  da_force :: bool
  da_id :: string

record list_args =
  la_format :: list_format
  la_quiet :: bool

record ps_args =
  pa_format :: string
  pa_id :: string
  pa_ps_options :: "string list"

record events_args =
  va_interval :: string
  va_stats :: bool
  va_id :: string

record update_args =
  ua_resources :: "path option"
  ua_memory :: "int option"
  ua_memory_swap :: "int option"
  ua_cpu_quota :: "int option"
  ua_cpu_period :: "u64 option"
  ua_cpu_share :: "u64 option"
  ua_cpuset_cpus :: "string option"
  ua_cpuset_mems :: "string option"
  ua_pids_limit :: "int option"
  ua_id :: string

datatype cli_command =
  Cmd_Create create_args
| Cmd_Start string
| Cmd_Run run_args
| Cmd_Exec exec_args
| Cmd_Kill kill_args
| Cmd_Delete delete_args
| Cmd_State string
| Cmd_List list_args
| Cmd_Ps ps_args
| Cmd_Pause string
| Cmd_Resume string
| Cmd_Events events_args
| Cmd_Update update_args
| Cmd_Spec path
| Cmd_Features

text \<open>\<^verbatim>\<open>systemd_cgroup\<close> is accepted and used nowhere.\<close>

record cli =
  cli_root :: path
  cli_log :: "path option"
  cli_log_format :: log_format
  cli_debug :: bool
  cli_systemd_cgroup :: bool
  cli_rootless :: "rootless_mode option"
  cli_otlp_endpoint :: "string option"
  cli_command :: cli_command

subsection \<open>Output\<close>

text \<open>\<^verbatim>\<open>println!\<close> panics when standard output cannot be written.\<close>

definition println :: "'w os \<Rightarrow> string \<Rightarrow> ('w, unit) io" where
  "println os t =
     bind (perform (os_unit os) (Misc (Print (t @ [newline])))) (\<lambda>r.
       case r of Inl e \<Rightarrow> throw Panicked | Inr u \<Rightarrow> ret ())"

text \<open>Padding counts code points: the bytes that do not continue one.\<close>

definition code_points :: "string \<Rightarrow> nat" where
  "code_points s = length (filter (\<lambda>c. \<not> (digit7 c \<and> \<not> digit6 c)) s)"

definition pad_right :: "nat \<Rightarrow> string \<Rightarrow> string" where
  "pad_right n s = s @ replicate (n - code_points s) blank"

subsection \<open>Creating, running, executing (commands/lifecycle.rs)\<close>

definition reject_unsupported :: "int \<Rightarrow> bool \<Rightarrow> error + unit" where
  "reject_unsupported preserve_fds no_pivot =
     (if preserve_fds \<noteq> 0 then Inl (Unimplemented ''--preserve-fds'')
      else if no_pivot then Inl (Unimplemented ''--no-pivot'')
      else Inr ())"

definition trace :: "'w os \<Rightarrow> string option \<Rightarrow> string \<Rightarrow> string \<Rightarrow> ('w, unit) io" where
  "trace os otlp root cid =
     bind (endpoint os otlp) (\<lambda>dest.
       case dest of
         None \<Rightarrow> rec_end os
       | Some d \<Rightarrow> ignore (telemetry_export os d root cid))"

definition cmd_create :: "'w os \<Rightarrow> host \<Rightarrow> layout \<Rightarrow> create_args \<Rightarrow> bool \<Rightarrow> string option \<Rightarrow> ('w, unit forked) io" where
  "cmd_create os h l args rootless otlp =
     bind (lift (reject_unsupported (ca_preserve_fds args) (ca_no_pivot args))) (\<lambda>_.
     bind (rec_new os) (\<lambda>_.
     bind (rec_begin os ''bundle'') (\<lambda>_.
     bind (bundle_load os (h_codec h) (ca_bundle args)) (\<lambda>b.
     bind (attempt (container_create os h l b
             \<lparr>cr_id = ca_id args, cr_pid_file = ca_pid_file args, cr_console_socket = ca_console_socket args,
              cr_rootless = rootless\<rparr>)) (\<lambda>outcome.
       case outcome of
         Inr (In_Child ending) \<Rightarrow> ret (In_Child ending)
       | _ \<Rightarrow> bind (trace os otlp ''container.create'' (ca_id args)) (\<lambda>_. lift outcome))))))"

definition cmd_run :: "'w os \<Rightarrow> host \<Rightarrow> layout \<Rightarrow> run_args \<Rightarrow> bool \<Rightarrow> string option \<Rightarrow> ('w, u8 forked) io" where
  "cmd_run os h l args rootless otlp =
     bind (lift (reject_unsupported (ra_preserve_fds args) (ra_no_pivot args))) (\<lambda>_.
     bind (rec_new os) (\<lambda>_.
     bind (rec_begin os ''bundle'') (\<lambda>_.
     bind (bundle_load os (h_codec h) (ra_bundle args)) (\<lambda>b.
       container_run os h l b
         \<lparr>cr_id = ra_id args, cr_pid_file = ra_pid_file args, cr_console_socket = ra_console_socket args,
          cr_rootless = rootless\<rparr>
         (ra_detach args) (ra_keep args) (trace os otlp ''container.run'' (ra_id args))))))"

definition exec_options_of :: "exec_args \<Rightarrow> exec_options" where
  "exec_options_of args =
     \<lparr>ex_argv = ea_argv args, ex_env = ea_env args, ex_cwd = ea_cwd args, ex_process = ea_process args,
      ex_user = ea_user args, ex_gids = ea_additional_gids args, ex_console_socket = ea_console_socket args,
      ex_tty = ea_tty args, ex_detach = ea_detach args, ex_pid_file = ea_pid_file args,
      ex_ignore_paused = ea_ignore_paused args\<rparr>"

definition cmd_exec :: "'w os \<Rightarrow> host \<Rightarrow> layout \<Rightarrow> exec_args \<Rightarrow> ('w, exec_result) io" where
  "cmd_exec os h l args =
     (if ea_preserve_fds args \<noteq> 0 then throw (Unimplemented ''exec --preserve-fds'')
      else container_exec os h l (ea_id args) (exec_options_of args))"

definition cmd_kill :: "'w os \<Rightarrow> host \<Rightarrow> layout \<Rightarrow> kill_args \<Rightarrow> ('w, unit) io" where
  "cmd_kill os h l args =
     bind (lift (signal_parse (h_signals h) (ka_signal args))) (\<lambda>sig.
       container_kill os h l (ka_id args) sig (ka_all args))"

definition cmd_state :: "'w os \<Rightarrow> host \<Rightarrow> layout \<Rightarrow> string \<Rightarrow> ('w, unit) io" where
  "cmd_state os h l cid =
     bind (container_load os (h_codec h) l cid) (\<lambda>c.
     bind (oci_state_of os c) (\<lambda>st.
     bind (json (enc_oci (h_codec h) st)) (\<lambda>t.
       checked Io (os_unit os) (Misc (Print (t @ [newline]))))))"

subsection \<open>Updating limits\<close>

definition memory_flags :: "update_args \<Rightarrow> memory_res option" where
  "memory_flags a =
     (if ua_memory a \<noteq> None \<or> ua_memory_swap a \<noteq> None
      then Some \<lparr>mem_limit = ua_memory a, mem_reservation = None, mem_swap = ua_memory_swap a\<rparr>
      else None)"

definition cpu_flags :: "update_args \<Rightarrow> cpu_res option" where
  "cpu_flags a =
     (if ua_cpu_quota a \<noteq> None \<or> ua_cpu_period a \<noteq> None \<or> ua_cpu_share a \<noteq> None
         \<or> ua_cpuset_cpus a \<noteq> None \<or> ua_cpuset_mems a \<noteq> None
      then Some \<lparr>cpu_shares = ua_cpu_share a, cpu_quota = ua_cpu_quota a, cpu_period = ua_cpu_period a,
                 cpu_cpus = ua_cpuset_cpus a, cpu_mems = ua_cpuset_mems a\<rparr>
      else None)"

definition from_flags :: "update_args \<Rightarrow> error + resources" where
  "from_flags a =
     (if memory_flags a = None \<and> cpu_flags a = None \<and> ua_pids_limit a = None
      then Inl (Invalid (Command No_Limits))
      else Inr \<lparr>res_memory = memory_flags a, res_cpu = cpu_flags a, res_pids = ua_pids_limit a,
                res_block_io = None, res_unified = None\<rparr>)"

definition update_resources :: "'w os \<Rightarrow> host \<Rightarrow> update_args \<Rightarrow> ('w, resources) io" where
  "update_resources os h a =
     (case ua_resources a of
        Some path \<Rightarrow>
          bind (if path = ''-'' then checked Io (os_text os) (Misc Read_Stdin) else io_text os (Read_File path)) (\<lambda>t.
            json (dec_resources (h_codec h) t))
      | None \<Rightarrow> lift (from_flags a))"

definition cmd_update :: "'w os \<Rightarrow> host \<Rightarrow> layout \<Rightarrow> update_args \<Rightarrow> ('w, unit) io" where
  "cmd_update os h l a =
     bind (update_resources os h a) (\<lambda>r. container_update os h l (ua_id a) r)"

subsection \<open>Listing (commands/list.rs, commands/ps.rs)\<close>

definition list_header :: string where
  "list_header = pad_right 24 ''ID'' @ pad_right 8 ''PID'' @ pad_right 10 ''STATUS'' @ pad_right 32 ''BUNDLE'' @ ''CREATED''"

definition list_row :: "container \<Rightarrow> status \<Rightarrow> string" where
  "list_row c st =
     pad_right 24 (con_id c) @ pad_right 8 (if st = Stopped then ''0'' else show_int (con_pid c))
     @ pad_right 10 (status_name st) @ pad_right 32 (per_bundle (con_state c)) @ per_created (con_state c)"

fun oci_states :: "'w os \<Rightarrow> container list \<Rightarrow> ('w, oci_state list) io" where
  "oci_states os [] = ret []"
| "oci_states os (c # cs) = bind (oci_state_of os c) (\<lambda>st. bind (oci_states os cs) (\<lambda>sts. ret (st # sts)))"

definition cmd_list :: "'w os \<Rightarrow> host \<Rightarrow> layout \<Rightarrow> list_args \<Rightarrow> ('w, unit) io" where
  "cmd_list os h l args =
     bind (list_containers os (h_codec h) l) (\<lambda>cs.
       if la_quiet args then for_each (\<lambda>c. println os (con_id c)) cs
       else (case la_format args of
         Format_Json \<Rightarrow>
           bind (oci_states os cs) (\<lambda>rows.
           bind (json (enc_states (h_codec h) rows)) (println os))
       | Format_Table \<Rightarrow>
           bind (println os list_header) (\<lambda>_.
             for_each (\<lambda>c. bind (container_status os c) (\<lambda>st. println os (list_row c st))) cs)))"

definition ps_table :: "'w os \<Rightarrow> pid list \<Rightarrow> string list \<Rightarrow> ('w, unit) io" where
  "ps_table os pids ps_options =
     (if pids = [] then println os ''no processes in the container cgroup''
      else
        bind (checked Io (os_wait os) (Proc (Run_Command ''ps''
                ((if ps_options = [] then [''-f''] else ps_options) @ [''-p'', join_with '','' (map show_int pids)])))) (\<lambda>st.
          if succeeded st then ret () else throw (Invalid (Command Ps_Exited))))"

definition cmd_ps :: "'w os \<Rightarrow> host \<Rightarrow> layout \<Rightarrow> ps_args \<Rightarrow> ('w, unit) io" where
  "cmd_ps os h l args =
     bind (container_load os (h_codec h) l (pa_id args)) (\<lambda>c.
     bind (require os c [Created, Running, Paused]) (\<lambda>_.
     bind (cg_procs os (con_cgroup c)) (\<lambda>pids.
       if pa_format args = ''json'' then bind (json (enc_pids (h_codec h) pids)) (println os)
       else if pa_format args = ''table'' then ps_table os pids (pa_ps_options args)
       else throw (Invalid (Command (Unknown_Ps_Format (pa_format args)))))))"

subsection \<open>Events and statistics (commands/events.rs)\<close>

text \<open>An interval in milliseconds. The product is taken on 64 bits, as the source does in a release build.\<close>

definition interval_unit :: "string \<Rightarrow> string \<times> u64" where
  "interval_unit trimmed =
     (case strip_suffix ''ms'' trimmed of
        Some rest \<Rightarrow> (rest, 1)
      | None \<Rightarrow> (case strip_suffix ''s'' trimmed of
          Some rest \<Rightarrow> (rest, 1000)
        | None \<Rightarrow> (case strip_suffix ''m'' trimmed of
            Some rest \<Rightarrow> (rest, 60000)
          | None \<Rightarrow> (trimmed, 1000))))"

definition parse_interval :: "string \<Rightarrow> error + u64" where
  "parse_interval v =
     (case interval_unit (trim v) of (number, multiplier) \<Rightarrow>
       (case parse_u64 number of
          None \<Rightarrow> Inl (Invalid (Command (Bad_Interval v)))
        | Some millis \<Rightarrow>
            if millis = 0 then Inl (Invalid (Command Zero_Interval)) else Inr (millis * multiplier)))"

definition single_value :: "'w os \<Rightarrow> cgroup \<Rightarrow> string \<Rightarrow> ('w, u64) io" where
  "single_value os cg file =
     bind (attempt (cg_read os cg file)) (\<lambda>r.
       ret (opt_or 0 (Option.bind (ok r) (\<lambda>t. parse_u64 (trim t)))))"

definition sample :: "'w os \<Rightarrow> container \<Rightarrow> ('w, stat_event) io" where
  "sample os c =
     (let cg = con_cgroup c in
      bind (attempt (memory_events_of os cg)) (\<lambda>memory.
      bind (attempt (cpu_stat_of os cg)) (\<lambda>cpu.
      bind (single_value os cg ''memory.current'') (\<lambda>usage.
      bind (single_value os cg ''memory.peak'') (\<lambda>peak.
      bind (single_value os cg ''pids.current'') (\<lambda>pids.
        let field = (\<lambda>f r. case r of Inr x \<Rightarrow> f x | Inl e \<Rightarrow> 0) in
        ret \<lparr>evt_kind = ''stats'', evt_id = con_id c, evt_data = Some
          \<lparr>sta_usage = usage, sta_peak = peak, sta_limit_events = field me_max memory,
           sta_oom_kill = field me_oom_kill memory, sta_usage_usec = (case cpu of Inr x \<Rightarrow> cs_usage_usec x | Inl e \<Rightarrow> 0),
           sta_nr_periods = (case cpu of Inr x \<Rightarrow> cs_nr_periods x | Inl e \<Rightarrow> 0),
           sta_nr_throttled = (case cpu of Inr x \<Rightarrow> cs_nr_throttled x | Inl e \<Rightarrow> 0),
           sta_throttled_usec = (case cpu of Inr x \<Rightarrow> cs_throttled_usec x | Inl e \<Rightarrow> 0), sta_pids = pids\<rparr>\<rparr>))))))"

fun watch :: "'w os \<Rightarrow> host \<Rightarrow> container \<Rightarrow> u64 \<Rightarrow> nat \<Rightarrow> ('w, unit) io" where
  "watch os h c interval 0 = throw Out_Of_Fuel"
| "watch os h c interval (Suc n) =
     bind (container_status os c) (\<lambda>st.
       if st = Stopped then
         bind (json (enc_event (h_codec h) \<lparr>evt_kind = ''exit'', evt_id = con_id c, evt_data = None\<rparr>)) (println os)
       else
         bind (sample os c) (\<lambda>e.
         bind (json (enc_event (h_codec h) e)) (\<lambda>t.
         bind (println os t) (\<lambda>_.
         bind (ignore (checked Io (os_unit os) (Proc (Sleep_Ms (unat interval))))) (\<lambda>_.
           watch os h c interval n)))))"

definition cmd_events :: "'w os \<Rightarrow> host \<Rightarrow> layout \<Rightarrow> events_args \<Rightarrow> ('w, unit) io" where
  "cmd_events os h l args =
     bind (container_load os (h_codec h) l (va_id args)) (\<lambda>c.
     bind (require os c [Created, Running, Paused]) (\<lambda>_.
       if va_stats args then
         bind (sample os c) (\<lambda>e. bind (json (enc_event (h_codec h) e)) (println os))
       else
         bind (lift (parse_interval (va_interval args))) (\<lambda>interval. watch os h c interval (h_fuel h))))"

subsection \<open>Features and the default configuration (commands/features.rs, commands/spec.rs)\<close>

definition feature_hooks :: "string list" where
  "feature_hooks = [''prestart'', ''createRuntime'', ''createContainer'', ''startContainer'', ''poststart'', ''poststop'']"

definition feature_mount_options :: "string list" where
  "feature_mount_options =
     [''async'', ''atime'', ''bind'', ''defaults'', ''dev'', ''diratime'', ''dirsync'', ''exec'',
      ''mand'', ''noatime'', ''nodev'', ''nodiratime'', ''noexec'', ''nomand'', ''norelatime'',
      ''nostrictatime'', ''nosuid'', ''private'', ''rbind'', ''relatime'', ''remount'', ''ro'',
      ''rprivate'', ''rshared'', ''rslave'', ''runbindable'', ''rw'', ''shared'', ''slave'',
      ''strictatime'', ''suid'', ''sync'', ''unbindable'']"

definition feature_namespaces :: "string list" where
  "feature_namespaces = [''cgroup'', ''ipc'', ''mount'', ''network'', ''pid'', ''user'', ''uts'']"

definition disabled :: json where
  "disabled = J_Object [(''enabled'', J_Bool False)]"

definition features_document :: json where
  "features_document = J_Object
     [(''ociVersionMin'', J_String ''1.0.0''),
      (''ociVersionMax'', J_String OCI_VERSION),
      (''hooks'', J_List (map J_String feature_hooks)),
      (''mountOptions'', J_List (map J_String feature_mount_options)),
      (''linux'', J_Object
        [(''namespaces'', J_List (map J_String feature_namespaces)),
         (''capabilities'', J_Null),
         (''cgroup'', J_Object [(''v1'', J_Bool False), (''v2'', J_Bool True), (''systemd'', J_Bool False),
            (''systemdUser'', J_Bool False), (''rdma'', J_Bool False)]),
         (''seccomp'', J_Null), (''apparmor'', disabled), (''selinux'', disabled), (''intelRdt'', disabled),
         (''mountExtensions'', J_Object [(''idmap'', disabled)])]),
      (''annotations'', J_Object
        [(''dev.mars.overlay.lowerdir'', J_String ''colon-separated lower layers, topmost first''),
         (''dev.mars.overlay.upperdir'', J_String ''writable layer; omit for a read-only rootfs''),
         (''dev.mars.overlay.workdir'', J_String ''overlayfs scratch space, same filesystem as upperdir'')])]"

definition cmd_features :: "'w os \<Rightarrow> host \<Rightarrow> ('w, unit) io" where
  "cmd_features os h = bind (json (enc_json (h_codec h) features_document)) (println os)"

definition cmd_spec :: "'w os \<Rightarrow> host \<Rightarrow> path \<Rightarrow> bool \<Rightarrow> ('w, unit) io" where
  "cmd_spec os h dir rootless =
     (if rootless then throw (Unimplemented ''spec --rootless'')
      else
        bind (io_unit os (Create_Dir_All dir)) (\<lambda>_.
        let path = join_path dir ''config.json'' in
        bind (path_exists os path) (\<lambda>there.
          if there then throw (Io (Fs (Create_File path)) EEXIST)
          else
            bind (json (enc_spec (h_codec h)
              ((h_default_spec h)\<lparr>spec_version := OCI_VERSION, spec_hostname := Some ''mars''\<rparr>))) (\<lambda>t.
            bind (checked Io (os_num os) (Fd (Open_Create path))) (\<lambda>file.
              checked Io (os_unit os) (Fd (Fd_Write file (t @ [newline]))))))))"

subsection \<open>Dispatch (commands/mod.rs)\<close>

datatype outcome = Code u8 | Child_Ended ending | Exec_Ended exec_result

definition command_id :: "cli_command \<Rightarrow> string option" where
  "command_id c =
     (case c of
        Cmd_Create a \<Rightarrow> Some (ca_id a) | Cmd_Start cid \<Rightarrow> Some cid | Cmd_Run a \<Rightarrow> Some (ra_id a)
      | Cmd_Exec a \<Rightarrow> Some (ea_id a) | Cmd_Kill a \<Rightarrow> Some (ka_id a) | Cmd_Delete a \<Rightarrow> Some (da_id a)
      | Cmd_State cid \<Rightarrow> Some cid | Cmd_Ps a \<Rightarrow> Some (pa_id a) | Cmd_Pause cid \<Rightarrow> Some cid
      | Cmd_Resume cid \<Rightarrow> Some cid | Cmd_Events a \<Rightarrow> Some (va_id a) | Cmd_Update a \<Rightarrow> Some (ua_id a)
      | Cmd_List a \<Rightarrow> None | Cmd_Spec p \<Rightarrow> None | Cmd_Features \<Rightarrow> None)"

definition finish :: "('w, unit) io \<Rightarrow> ('w, outcome) io" where
  "finish m = bind m (\<lambda>_. ret (Code 0))"

definition is_rootless :: "'w os \<Rightarrow> rootless_mode option \<Rightarrow> ('w, bool) io" where
  "is_rootless os mode =
     (if mode = Some Rootless_True then ret True
      else if mode = Some Rootless_Auto then bind (is_root os) (\<lambda>root. ret (\<not> root))
      else ret False)"

definition with_id :: "string \<Rightarrow> ('w, 'a) io \<Rightarrow> ('w, 'a) io" where
  "with_id cid m = bind (lift (validate_id cid)) (\<lambda>_. m)"

definition dispatch :: "'w os \<Rightarrow> host \<Rightarrow> cli \<Rightarrow> ('w, outcome) io" where
  "dispatch os h c =
     (let l = \<lparr>lay_root = cli_root c\<rparr>; otlp = cli_otlp_endpoint c in
      bind (is_rootless os (cli_rootless c)) (\<lambda>rootless.
      case cli_command c of
        Cmd_Spec path \<Rightarrow> finish (cmd_spec os h path rootless)
      | Cmd_Features \<Rightarrow> finish (cmd_features os h)
      | Cmd_List a \<Rightarrow> finish (cmd_list os h l a)
      | Cmd_Create a \<Rightarrow> with_id (ca_id a)
          (bind (cmd_create os h l a rootless otlp) (\<lambda>r.
             ret (case r of In_Child e \<Rightarrow> Child_Ended e | In_Parent u \<Rightarrow> Code 0)))
      | Cmd_Start cid \<Rightarrow> with_id cid (finish (container_start os h l cid))
      | Cmd_Run a \<Rightarrow> with_id (ra_id a)
          (bind (cmd_run os h l a rootless otlp) (\<lambda>r.
             ret (case r of In_Child e \<Rightarrow> Child_Ended e | In_Parent code \<Rightarrow> Code code)))
      | Cmd_Exec a \<Rightarrow> with_id (ea_id a)
          (bind (cmd_exec os h l a) (\<lambda>r. ret (case r of Exec_Code code \<Rightarrow> Code code | _ \<Rightarrow> Exec_Ended r)))
      | Cmd_Kill a \<Rightarrow> with_id (ka_id a) (finish (cmd_kill os h l a))
      | Cmd_Delete a \<Rightarrow> with_id (da_id a) (finish (container_delete os h l (da_id a) (da_force a)))
      | Cmd_State cid \<Rightarrow> with_id cid (finish (cmd_state os h l cid))
      | Cmd_Ps a \<Rightarrow> with_id (pa_id a) (finish (cmd_ps os h l a))
      | Cmd_Pause cid \<Rightarrow> with_id cid (finish (container_pause os h l cid True))
      | Cmd_Resume cid \<Rightarrow> with_id cid (finish (container_pause os h l cid False))
      | Cmd_Events a \<Rightarrow> with_id (va_id a) (finish (cmd_events os h l a))
      | Cmd_Update a \<Rightarrow> with_id (ua_id a) (finish (cmd_update os h l a))))"

subsection \<open>Dispatch looks at the identifier first\<close>

lemma is_rootless_calls: "only (\<lambda>c. c = Proc Geteuid) (is_rootless os mode)"
  unfolding is_rootless_def by (auto intro!: hoare)

lemma is_rootless_total: "\<exists>b s'. is_rootless os mode s = (Inr b, s')"
  by (auto simp: is_rootless_def is_root_def ret_def bind_def perform_def checked_def throw_def split: prod.splits sum.splits)

text \<open>C30: no command gets past a bad identifier: with an identifier that \<open>validate_id\<close> refuses, every command
  that names a container fails with \<open>InvalidId\<close> before it has made any call on the file system; all
  it may have asked is its own user.\<close>

theorem dispatch_checks_id:
  assumes "command_id (cli_command c) = Some cid" "validate_id cid \<noteq> Inr ()"
  shows "\<exists>tr. fst (dispatch os h c s) = Inl (InvalidId cid)
    \<and> st_trace (snd (dispatch os h c s)) = st_trace s @ tr \<and> list_all (\<lambda>ev. fst ev = Proc Geteuid) tr"
proof -
  have bad: "validate_id cid = Inl (InvalidId cid)"
    using assms(2) by (simp add: validate_id_def split: if_splits)
  obtain b s1 where root: "is_rootless os (cli_rootless c) s = (Inr b, s1)"
    using is_rootless_total by blast
  from onlyD [OF is_rootless_calls root] obtain tr where
    "st_trace s1 = st_trace s @ tr" "list_all (\<lambda>ev. fst ev = Proc Geteuid) tr" by blast
  moreover have "dispatch os h c s = (Inl (InvalidId cid), s1)"
    using assms(1) bad root
    by (cases "cli_command c") (auto simp: dispatch_def Let_def command_id_def bind_def with_id_def throw_def)
  ultimately show ?thesis by simp
qed

lemma dispatch_checks_id_witness:
  "fst (dispatch (fixed_os Kind_File [] 0) sample_host
     \<lparr>cli_root = ''/run'', cli_log = None, cli_log_format = Log_Text, cli_debug = False,
      cli_systemd_cgroup = False, cli_rootless = None, cli_otlp_endpoint = None, cli_command = Cmd_State ''../x''\<rparr> start_state)
   = Inl (InvalidId ''../x'')"
proof -
  have "validate_id ''../x'' \<noteq> Inr ()"
    by (simp add: validate_id_def id_char_def is_alphanumeric_def is_alpha_def is_digit_def char_code_def)
  with dispatch_checks_id [of "\<lparr>cli_root = ''/run'', cli_log = None, cli_log_format = Log_Text, cli_debug = False,
      cli_systemd_cgroup = False, cli_rootless = None, cli_otlp_endpoint = None,
      cli_command = Cmd_State ''../x''\<rparr>" "''../x''" "fixed_os Kind_File [] 0" sample_host start_state]
  show ?thesis by (auto simp: command_id_def)
qed

subsection \<open>Intervals\<close>

lemma trim_no_ws: "(\<And>c. c \<in> set s \<Longrightarrow> \<not> is_ws c) \<Longrightarrow> trim s = s"
proof -
  assume ws: "\<And>c. c \<in> set s \<Longrightarrow> \<not> is_ws c"
  then have "dropWhile is_ws s = s" "dropWhile is_ws (rev s) = rev s"
    using hd_in_set [of "rev s"] by (auto simp: dropWhile_eq_self_iff)
  then show ?thesis by (simp add: trim_def)
qed

lemma digits_no_suffix:
  assumes "list_all is_digit w" "\<not> is_digit c"
  shows "strip_suffix (p @ [c]) w = None" "d \<noteq> c \<Longrightarrow> strip_suffix (p @ [c]) (w @ [d]) = None"
    "\<not> is_digit e \<Longrightarrow> strip_suffix (p @ [e, c]) (w @ [c]) = None"
proof -
  have last: "\<not> is_digit (last (u @ [c]))" for u using assms(2) by simp
  show "strip_suffix (p @ [c]) w = None"
    using assms by (cases "strip_suffix (p @ [c]) w") (auto simp: strip_suffix_Some)
  show "strip_suffix (p @ [c]) (w @ [d]) = None" if "d \<noteq> c"
    using that by (cases "strip_suffix (p @ [c]) (w @ [d])") (auto simp: strip_suffix_Some)
  show "strip_suffix (p @ [e, c]) (w @ [c]) = None" if "\<not> is_digit e"
  proof (cases "strip_suffix (p @ [e, c]) (w @ [c])")
    case (Some t)
    then have "w = t @ p @ [e]" by (simp add: strip_suffix_Some)
    with assms(1) that show ?thesis by simp
  qed simp
qed

lemma strip_suffix_append: "strip_suffix u (w @ u) = Some w"
  by (simp add: strip_suffix_Some)

lemma unit_chars: "\<not> is_digit (CHR ''s'')" "\<not> is_digit (CHR ''m'')" "\<not> is_ws (CHR ''s'')" "\<not> is_ws (CHR ''m'')"
  by (simp_all add: is_digit_def is_ws_def char_code_def)

lemma trim_number: "set u \<subseteq> {CHR ''m'', CHR ''s''} \<Longrightarrow> trim (show_u64 n @ u) = show_u64 n @ u"
  using show_nat_not_ws [of "unat n"] unit_chars by (intro trim_no_ws) (auto simp: show_u64_def list_all_iff)

lemma interval_units:
  "interval_unit (show_u64 n @ ''ms'') = (show_u64 n, 1)" "interval_unit (show_u64 n @ ''s'') = (show_u64 n, 1000)"
  "interval_unit (show_u64 n @ ''m'') = (show_u64 n, 60000)" "interval_unit (show_u64 n) = (show_u64 n, 1000)"
proof -
  have d: "list_all is_digit (show_u64 n)" by (simp add: show_u64_def show_nat_digits)
  note none = digits_no_suffix [OF d]
  show "interval_unit (show_u64 n @ ''ms'') = (show_u64 n, 1)"
    using strip_suffix_append [of "''ms''" "show_u64 n"] by (simp add: interval_unit_def)
  show "interval_unit (show_u64 n @ ''s'') = (show_u64 n, 1000)"
    using none(3) [OF unit_chars(1,2), of "[]"] strip_suffix_append [of "''s''" "show_u64 n"] by (simp add: interval_unit_def)
  show "interval_unit (show_u64 n @ ''m'') = (show_u64 n, 60000)"
    using none(2) [OF unit_chars(1), of "CHR ''m''" "''m''"] none(2) [OF unit_chars(1), of "CHR ''m''" "[]"]
      strip_suffix_append [of "''m''" "show_u64 n"] by (simp add: interval_unit_def)
  show "interval_unit (show_u64 n) = (show_u64 n, 1000)"
    using none(1) [OF unit_chars(1), of "''m''"] none(1) [OF unit_chars(1), of "[]"] none(1) [OF unit_chars(2), of "[]"]
    by (simp add: interval_unit_def)
qed

text \<open>C40: an interval is a positive number of milliseconds, seconds or minutes, exact as long as the product
  fits 64 bits; beyond that it wraps around, so a long interval becomes a short one.\<close>

theorem interval_exact:
  assumes "n \<noteq> 0"
  shows "parse_interval (show_u64 n @ ''ms'') = Inr n
    \<and> parse_interval (show_u64 n @ ''s'') = Inr (n * 1000) \<and> parse_interval (show_u64 n) = Inr (n * 1000)
    \<and> parse_interval (show_u64 n @ ''m'') = Inr (n * 60000)
    \<and> (unat n * 60000 < 2 ^ 64 \<longrightarrow> unat (n * 1000) = unat n * 1000 \<and> unat (n * 60000) = unat n * 60000)
    \<and> parse_interval (show_u64 18446744073709552 @ ''s'') = Inr 384"
proof (intro conjI impI)
  note parse = parse_interval_def trim_number trim_number [of "[]", simplified] interval_units parse_u64_show
  show "parse_interval (show_u64 n @ ''ms'') = Inr n" "parse_interval (show_u64 n @ ''s'') = Inr (n * 1000)"
    "parse_interval (show_u64 n) = Inr (n * 1000)" "parse_interval (show_u64 n @ ''m'') = Inr (n * 60000)"
    "parse_interval (show_u64 18446744073709552 @ ''s'') = Inr 384"
    using assms by (simp_all add: parse)
  assume "unat n * 60000 < 2 ^ 64"
  then show "unat (n * 1000) = unat n * 1000" "unat (n * 60000) = unat n * 60000"
    by (simp_all add: unat_word_ariths)
qed

lemma interval_exact_witness: "parse_interval (show_u64 5 @ ''m'') = Inr 300000 \<and> unat ((5 :: u64) * 60000) = 300000"
  using interval_exact [of 5] by simp

subsection \<open>Features\<close>

text \<open>the features document names what the runtime implements: the mount options are exactly those the
  option parser knows, in order and without repetition, and the hooks are exactly the phases that
  are run.\<close>

theorem features_are_implemented:
  "set feature_mount_options = fst ` set option_arms \<and> sorted feature_mount_options \<and> distinct feature_mount_options
   \<and> set feature_hooks = range phase_name \<and> distinct feature_hooks"
proof (intro conjI)
  have phases: "(UNIV :: hook_phase set) = {Prestart, CreateRuntime, CreateContainer, StartContainer, Poststart, Poststop}"
    using hook_phase.exhaust by auto
  show "set feature_hooks = range phase_name"
    by (auto simp: feature_hooks_def phases phase_name_def)
  show "set feature_mount_options = fst ` set option_arms"
    by (auto simp: feature_mount_options_def option_arms_def)
  show "sorted feature_mount_options" by code_simp
  show "distinct feature_mount_options" by code_simp
  show "distinct feature_hooks" by code_simp
qed

end
