(* ===== verification/Protocol.thy ===== *)
theory Protocol
  imports Sync
begin

section \<open>The handshake of create as a protocol\<close>

text \<open>
  Three processes share the socket pair: the creating parent, the intermediate process and the init.
  Each is an automaton over its own messages (\<open>parent_act\<close>, \<open>mid_act\<close>, \<open>init_act\<close>); the theory
  \<open>Handshake\<close> shows that the code of each process follows its automaton. Here the automata run
  interleaved over the two directions of the channel, with the failures the processes can have.
\<close>

datatype act = Sends message | Receives message | Forks pid

subsection \<open>The processes\<close>

datatype parent_loc =
  Awaits_First | Maps | Awaits_Pid | Reaps pid | Awaits_Ready pid | Has_Created pid | Gave_Up | Parent_Confused

fun take_pid :: "message \<Rightarrow> parent_loc" where
  "take_pid (InitPid i phases) = Reaps i"
| "take_pid (Failed reason) = Gave_Up"
| "take_pid m = Parent_Confused"

fun take_ready :: "pid \<Rightarrow> message \<Rightarrow> parent_loc" where
  "take_ready i (InitReady phases) = Has_Created i"
| "take_ready i (Failed reason) = Gave_Up"
| "take_ready i m = Parent_Confused"

fun parent_act :: "parent_loc \<Rightarrow> act \<Rightarrow> parent_loc option" where
  "parent_act Awaits_First (Receives m) = Some (if m = RequestUserMapping then Maps else take_pid m)"
| "parent_act Maps (Sends UserMappingDone) = Some Awaits_Pid"
| "parent_act Awaits_Pid (Receives m) = Some (take_pid m)"
| "parent_act (Reaps i) (Sends (CgroupApplied j)) = (if j = i then Some (Awaits_Ready i) else None)"
| "parent_act (Awaits_Ready i) (Receives m) = Some (take_ready i m)"
| "parent_act l a = None"

text \<open>The intermediate process asks for a mapping when it made a user namespace (\<open>user\<close>).\<close>

datatype mid_loc = Unsharing | Awaits_Mapping | Mapped | Has_Forked pid | Mid_Ended | Mid_Confused

fun mid_act :: "bool \<Rightarrow> mid_loc \<Rightarrow> act \<Rightarrow> mid_loc option" where
  "mid_act user Unsharing (Sends RequestUserMapping) = (if user then Some Awaits_Mapping else None)"
| "mid_act user Unsharing (Forks i) = (if user then None else Some (Has_Forked i))"
| "mid_act user Awaits_Mapping (Receives m) = Some (if m = UserMappingDone then Mapped else Mid_Confused)"
| "mid_act user Mapped (Forks i) = Some (Has_Forked i)"
| "mid_act user (Has_Forked i) (Sends (InitPid j phases)) = (if j = i then Some Mid_Ended else None)"
| "mid_act user l (Sends (Failed reason)) = (if l = Mid_Ended then None else Some Mid_Ended)"
| "mid_act user l a = None"

datatype init_loc = Absent | Awaits_Group | Builds | Parked | Init_Ended | Init_Confused

fun init_act :: "init_loc \<Rightarrow> act \<Rightarrow> init_loc option" where
  "init_act Awaits_Group (Receives (CgroupApplied i)) = Some Builds"
| "init_act Awaits_Group (Receives m) = Some Init_Confused"
| "init_act Builds (Sends (InitReady phases)) = Some Parked"
| "init_act l (Sends (Failed reason)) = (if l \<in> {Absent, Init_Ended} then None else Some Init_Ended)"
| "init_act l a = None"

subsection \<open>The interleaving\<close>

text \<open>\<open>hs_kid\<close> records the process number of the forked init. In mode \<open>Smooth\<close> nothing fails of its own
  accord; in \<open>Reported\<close> a failing child sends \<open>Failed\<close> first, as the code does; in \<open>Crashing\<close> a child
  may also die without a word (a kill, or a failed send of the report).\<close>

datatype mode = Smooth | Reported | Crashing

record handshake_state =
  hs_parent :: parent_loc
  hs_mid :: mid_loc
  hs_init :: init_loc
  hs_up :: "message list"
  hs_down :: "message list"
  hs_kid :: "pid option"

definition hs_start :: handshake_state where
  "hs_start = \<lparr>hs_parent = Awaits_First, hs_mid = Unsharing, hs_init = Absent, hs_up = [], hs_down = [], hs_kid = None\<rparr>"

definition parent_open :: "handshake_state \<Rightarrow> bool" where
  "parent_open s \<longleftrightarrow> (case hs_parent s of Has_Created i \<Rightarrow> False | Gave_Up \<Rightarrow> False | Parent_Confused \<Rightarrow> False | _ \<Rightarrow> True)"

definition child_open :: "handshake_state \<Rightarrow> bool" where
  "child_open s \<longleftrightarrow> hs_mid s \<noteq> Mid_Ended \<or> hs_init s \<notin> {Absent, Init_Ended}"

definition parent_reads :: "handshake_state \<Rightarrow> bool" where
  "parent_reads s \<longleftrightarrow> (case hs_parent s of Awaits_First \<Rightarrow> True | Awaits_Pid \<Rightarrow> True | Awaits_Ready i \<Rightarrow> True | _ \<Rightarrow> False)"

text \<open>The parent waits for the end of the intermediate process before it attaches the init.\<close>

definition has_reaped :: "handshake_state \<Rightarrow> bool" where
  "has_reaped s \<longleftrightarrow> (case hs_parent s of Reaps i \<Rightarrow> hs_mid s = Mid_Ended | _ \<Rightarrow> True)"

text \<open>The intermediate process is about to send, or waits for a message that is not there.\<close>

definition mid_hangs :: "bool \<Rightarrow> handshake_state \<Rightarrow> bool" where
  "mid_hangs user s \<longleftrightarrow>
     (case hs_mid s of Unsharing \<Rightarrow> user | Awaits_Mapping \<Rightarrow> hs_down s = [] | Has_Forked i \<Rightarrow> True | _ \<Rightarrow> False)"

inductive hs_step :: "bool \<Rightarrow> mode \<Rightarrow> handshake_state \<Rightarrow> handshake_state \<Rightarrow> bool" for user mode where
  parent_receives: "hs_up s = m # q \<Longrightarrow> parent_act (hs_parent s) (Receives m) = Some l \<Longrightarrow>
    hs_step user mode s (s\<lparr>hs_parent := l, hs_up := q\<rparr>)"
| parent_sends: "parent_act (hs_parent s) (Sends m) = Some l \<Longrightarrow> has_reaped s \<Longrightarrow> child_open s \<Longrightarrow>
    hs_step user mode s (s\<lparr>hs_parent := l, hs_down := hs_down s @ [m]\<rparr>)"
| parent_broken: "parent_act (hs_parent s) (Sends m) = Some l \<Longrightarrow> has_reaped s \<Longrightarrow> \<not> child_open s \<Longrightarrow>
    hs_step user mode s (s\<lparr>hs_parent := Gave_Up\<rparr>)"
| parent_closed: "parent_reads s \<Longrightarrow> hs_up s = [] \<Longrightarrow> \<not> child_open s \<Longrightarrow>
    hs_step user mode s (s\<lparr>hs_parent := Gave_Up\<rparr>)"
| parent_fails: "mode \<noteq> Smooth \<Longrightarrow> parent_open s \<Longrightarrow> hs_step user mode s (s\<lparr>hs_parent := Gave_Up\<rparr>)"
| mid_sends: "mid_act user (hs_mid s) (Sends m) = Some l \<Longrightarrow> (\<forall>reason. m \<noteq> Failed reason) \<Longrightarrow> parent_open s \<Longrightarrow>
    hs_step user mode s (s\<lparr>hs_mid := l, hs_up := hs_up s @ [m]\<rparr>)"
| mid_receives: "hs_down s = m # q \<Longrightarrow> mid_act user (hs_mid s) (Receives m) = Some l \<Longrightarrow>
    hs_step user mode s (s\<lparr>hs_mid := l, hs_down := q\<rparr>)"
| mid_forks: "mid_act user (hs_mid s) (Forks i) = Some l \<Longrightarrow>
    hs_step user mode s (s\<lparr>hs_mid := l, hs_init := Awaits_Group, hs_kid := Some i\<rparr>)"
| mid_broken: "\<not> parent_open s \<Longrightarrow> mid_hangs user s \<Longrightarrow>
    hs_step user mode s (s\<lparr>hs_mid := Mid_Ended\<rparr>)"
| mid_fails: "mode \<noteq> Smooth \<Longrightarrow> mid_act user (hs_mid s) (Sends (Failed reason)) = Some l \<Longrightarrow>
    hs_step user mode s (s\<lparr>hs_mid := l, hs_up := hs_up s @ [Failed reason]\<rparr>)"
| mid_dies: "mode = Crashing \<Longrightarrow> hs_mid s \<noteq> Mid_Ended \<Longrightarrow> hs_step user mode s (s\<lparr>hs_mid := Mid_Ended\<rparr>)"
| init_receives: "hs_down s = m # q \<Longrightarrow> init_act (hs_init s) (Receives m) = Some l \<Longrightarrow>
    hs_step user mode s (s\<lparr>hs_init := l, hs_down := q\<rparr>)"
| init_sends: "init_act (hs_init s) (Sends m) = Some l \<Longrightarrow> (\<forall>reason. m \<noteq> Failed reason) \<Longrightarrow> parent_open s \<Longrightarrow>
    hs_step user mode s (s\<lparr>hs_init := l, hs_up := hs_up s @ [m]\<rparr>)"
| init_broken: "\<not> parent_open s \<Longrightarrow> hs_init s = Builds \<or> hs_init s = Awaits_Group \<and> hs_down s = [] \<Longrightarrow>
    hs_step user mode s (s\<lparr>hs_init := Init_Ended\<rparr>)"
| init_fails: "mode \<noteq> Smooth \<Longrightarrow> init_act (hs_init s) (Sends (Failed reason)) = Some l \<Longrightarrow>
    hs_step user mode s (s\<lparr>hs_init := l, hs_up := hs_up s @ [Failed reason]\<rparr>)"
| init_dies: "mode = Crashing \<Longrightarrow> hs_init s \<notin> {Absent, Init_Ended} \<Longrightarrow>
    hs_step user mode s (s\<lparr>hs_init := Init_Ended\<rparr>)"

inductive_cases hs_stepE: "hs_step user mode s t"

definition hs_reach :: "bool \<Rightarrow> mode \<Rightarrow> handshake_state \<Rightarrow> bool" where
  "hs_reach user mode = (hs_step user mode)\<^sup>*\<^sup>* hs_start"

subsection \<open>The invariant\<close>

text \<open>The messages under way to the parent, but for reports of failures.\<close>

definition news :: "message list \<Rightarrow> message list" where
  "news q = filter (\<lambda>m. \<forall>reason. m \<noteq> Failed reason) q"

text \<open>The configurations the protocol can be in: the three locations, the news for the parent, the messages
  for the children, and the number of the init.\<close>

inductive config :: "parent_loc \<Rightarrow> mid_loc \<Rightarrow> init_loc \<Rightarrow> message list \<Rightarrow> message list \<Rightarrow> pid option \<Rightarrow> bool" where
  "config Awaits_First Unsharing Absent [] [] k"
| "M \<in> {Awaits_Mapping, Mid_Ended} \<Longrightarrow> config Awaits_First M Absent [RequestUserMapping] [] k"
| "I \<in> {Awaits_Group, Init_Ended} \<Longrightarrow> config Awaits_First (Has_Forked i) I [] [] (Some i)"
| "I \<in> {Absent, Awaits_Group, Init_Ended} \<Longrightarrow> config Awaits_First Mid_Ended I [] [] k"
| "I \<in> {Awaits_Group, Init_Ended} \<Longrightarrow> config Awaits_First Mid_Ended I [InitPid i phases] [] (Some i)"
| "M \<in> {Awaits_Mapping, Mid_Ended} \<Longrightarrow> config Maps M Absent [] [] k"
| "M \<in> {Awaits_Mapping, Mid_Ended} \<Longrightarrow> config Awaits_Pid M Absent [] [UserMappingDone] k"
| "config Awaits_Pid Mapped Absent [] [] k"
| "I \<in> {Awaits_Group, Init_Ended} \<Longrightarrow> config Awaits_Pid (Has_Forked i) I [] [] (Some i)"
| "I \<in> {Absent, Awaits_Group, Init_Ended} \<Longrightarrow> config Awaits_Pid Mid_Ended I [] [] k"
| "I \<in> {Awaits_Group, Init_Ended} \<Longrightarrow> config Awaits_Pid Mid_Ended I [InitPid i phases] [] (Some i)"
| "I \<in> {Awaits_Group, Init_Ended} \<Longrightarrow> config (Reaps i) Mid_Ended I [] [] (Some i)"
| "I \<in> {Awaits_Group, Init_Ended} \<Longrightarrow> config (Awaits_Ready i) Mid_Ended I [] [CgroupApplied i] (Some i)"
| "I \<in> {Builds, Init_Ended} \<Longrightarrow> config (Awaits_Ready i) Mid_Ended I [] [] (Some i)"
| "I \<in> {Parked, Init_Ended} \<Longrightarrow> config (Awaits_Ready i) Mid_Ended I [InitReady phases] [] (Some i)"
| "I \<in> {Parked, Init_Ended} \<Longrightarrow> config (Has_Created i) Mid_Ended I [] [] (Some i)"
| "M \<in> {Unsharing, Awaits_Mapping, Mapped} \<Longrightarrow> config Gave_Up M Absent n [] k"
| "I \<in> {Awaits_Group, Init_Ended} \<Longrightarrow> config Gave_Up (Has_Forked i) I n [] (Some i)"
| "I \<noteq> Init_Confused \<Longrightarrow> config Gave_Up Mid_Ended I n [] k"
| "M \<in> {Awaits_Mapping, Mid_Ended} \<Longrightarrow> config Gave_Up M Absent n [UserMappingDone] k"
| "I \<in> {Awaits_Group, Init_Ended} \<Longrightarrow> config Gave_Up Mid_Ended I n [CgroupApplied i] k"

definition hs_config :: "handshake_state \<Rightarrow> bool" where
  "hs_config s \<longleftrightarrow> config (hs_parent s) (hs_mid s) (hs_init s) (news (hs_up s)) (hs_down s) (hs_kid s)"

text \<open>Unless a child died silently, a parent that waits for the process number of the init will hear.\<close>

definition heard_inv :: "handshake_state \<Rightarrow> bool" where
  "heard_inv s \<longleftrightarrow>
     (hs_mid s = Mid_Ended \<and> hs_parent s \<in> {Awaits_First, Maps, Awaits_Pid} \<longrightarrow>
        (\<exists>reason. Failed reason \<in> set (hs_up s)) \<or> (\<exists>i phases. InitPid i phases \<in> set (hs_up s)))"

definition smooth_inv :: "handshake_state \<Rightarrow> bool" where
  "smooth_inv s \<longleftrightarrow>
     (\<forall>reason. Failed reason \<notin> set (hs_up s)) \<and> hs_parent s \<noteq> Gave_Up \<and> hs_init s \<noteq> Init_Ended
     \<and> (hs_mid s = Mid_Ended \<longrightarrow> hs_init s \<noteq> Absent)"

lemma news_simps [simp]:
  "news [] = []" "news (Failed r # q) = news q" "news (q @ [Failed r]) = news q"
  "news (RequestUserMapping # q) = RequestUserMapping # news q" "news (InitPid i phases # q) = InitPid i phases # news q"
  "news (InitReady phases # q) = InitReady phases # news q" "news (UserMappingDone # q) = UserMappingDone # news q"
  "news (CgroupApplied i # q) = CgroupApplied i # news q"
  "news (q @ [RequestUserMapping]) = news q @ [RequestUserMapping]"
  "news (q @ [InitPid i phases]) = news q @ [InitPid i phases]"
  "news (q @ [InitReady phases]) = news q @ [InitReady phases]"
  by (simp_all add: news_def)

lemma parent_act_sends:
  "parent_act l (Sends m) = Some l' \<longleftrightarrow>
     l = Maps \<and> m = UserMappingDone \<and> l' = Awaits_Pid
     \<or> (\<exists>i. l = Reaps i \<and> m = CgroupApplied i \<and> l' = Awaits_Ready i)"
  by (cases "(l, Sends m)" rule: parent_act.cases) auto

lemma mid_act_receives:
  "mid_act user l (Receives m) = Some l' \<longleftrightarrow>
     l = Awaits_Mapping \<and> l' = (if m = UserMappingDone then Mapped else Mid_Confused)"
  by (cases l) auto

lemma mid_act_forks:
  "mid_act user l (Forks i) = Some l' \<longleftrightarrow> (l = Unsharing \<and> \<not> user \<or> l = Mapped) \<and> l' = Has_Forked i"
  by (cases l) auto

lemma mid_act_sends:
  "mid_act user l (Sends m) = Some l' \<longleftrightarrow>
     l = Unsharing \<and> user \<and> m = RequestUserMapping \<and> l' = Awaits_Mapping
     \<or> (\<exists>i phases. l = Has_Forked i \<and> m = InitPid i phases \<and> l' = Mid_Ended)
     \<or> (\<exists>reason. m = Failed reason) \<and> l \<noteq> Mid_Ended \<and> l' = Mid_Ended"
  by (cases "(user, l, Sends m)" rule: mid_act.cases) auto

lemma init_act_receives:
  "init_act l (Receives m) = Some l' \<longleftrightarrow>
     l = Awaits_Group \<and> l' = (if \<exists>i. m = CgroupApplied i then Builds else Init_Confused)"
  by (cases "(l, Receives m)" rule: init_act.cases) auto

lemma init_act_sends:
  "init_act l (Sends m) = Some l' \<longleftrightarrow>
     l = Builds \<and> (\<exists>phases. m = InitReady phases) \<and> l' = Parked
     \<or> (\<exists>reason. m = Failed reason) \<and> l \<notin> {Absent, Init_Ended} \<and> l' = Init_Ended"
  by (cases "(l, Sends m)" rule: init_act.cases) auto

lemmas act_simps = parent_act_sends mid_act_receives mid_act_forks mid_act_sends init_act_receives init_act_sends

lemma config_receives:
  "config p M I (news (m # q)) D k \<Longrightarrow> parent_act p (Receives m) = Some l \<Longrightarrow> config l M I (news q) D k"
  by (cases m; erule config.cases) (auto intro: config.intros)
lemma config_sends:
  "config p M I n D k \<Longrightarrow> parent_act p (Sends m) = Some l \<Longrightarrow> (\<And>i. p = Reaps i \<Longrightarrow> M = Mid_Ended) \<Longrightarrow> config l M I n (D @ [m]) k"
  unfolding act_simps by (erule config.cases) (auto intro: config.intros)

lemma config_mid_sends:
  "config p M I n D k \<Longrightarrow> mid_act user M (Sends m) = Some l \<Longrightarrow> \<forall>reason. m \<noteq> Failed reason \<Longrightarrow> config p l I (n @ [m]) D k \<or> p = Gave_Up"
  unfolding act_simps by (erule config.cases) (auto intro: config.intros)

lemma config_mid_receives:
  "config p M I n (m # D) k \<Longrightarrow> mid_act user M (Receives m) = Some l \<Longrightarrow> config p l I n D k"
  unfolding act_simps by (erule config.cases) (auto intro: config.intros)

lemma config_mid_forks:
  "config p M I n D k \<Longrightarrow> mid_act user M (Forks i) = Some l \<Longrightarrow> config p l Awaits_Group n D (Some i)"
  unfolding act_simps by (erule config.cases) (auto intro: config.intros)

lemma config_mid_ends:
  "config p M I n D k \<Longrightarrow> config p Mid_Ended I n D k"
  by (erule config.cases) (auto intro: config.intros)

lemma config_init_receives:
  "config p M I n (m # D) k \<Longrightarrow> init_act I (Receives m) = Some l \<Longrightarrow> config p M l n D k"
  unfolding act_simps by (erule config.cases) (auto intro: config.intros)

lemma config_init_sends:
  "config p M I n D k \<Longrightarrow> init_act I (Sends m) = Some l \<Longrightarrow> \<forall>reason. m \<noteq> Failed reason \<Longrightarrow> config p M l (n @ [m]) D k \<or> p = Gave_Up"
  unfolding act_simps by (erule config.cases) (auto intro: config.intros)

lemma config_init_ends:
  "config p M I n D k \<Longrightarrow> I \<noteq> Absent \<Longrightarrow> config p M Init_Ended n D k"
  by (erule config.cases) (auto intro: config.intros)

lemma config_gives_up:
  "config p M I n D k \<Longrightarrow> config Gave_Up M I n D k"
  by (erule config.cases) (auto intro: config.intros)

lemmas config_steps = config_receives config_sends config_mid_sends config_mid_receives config_mid_forks
  config_mid_ends config_init_receives config_init_sends config_init_ends config_gives_up

lemma hs_config_start: "hs_config hs_start"
  by (simp add: hs_config_def hs_start_def config.intros)

lemma parent_open_not: "parent_open s \<Longrightarrow> hs_parent s \<noteq> Gave_Up"
  by (auto simp: parent_open_def)

lemma news_send: "(\<forall>reason. m \<noteq> Failed reason) \<Longrightarrow> news (q @ [m]) = news q @ [m]"
  by (simp add: news_def)

lemma hs_config_step:
  assumes "hs_step user mode s t" "hs_config s"
  shows "hs_config t"
  using assms(1)
proof cases
  case (parent_receives m q l)
  with assms(2) config_receives show ?thesis by (simp add: hs_config_def)
next
  case (parent_sends m l)
  with assms(2) show ?thesis
    by (auto simp: hs_config_def has_reaped_def intro!: config_sends)
next
  case (mid_sends m l)
  with assms(2) parent_open_not config_mid_sends [of "hs_parent s" "hs_mid s"] show ?thesis
    by (fastforce simp: hs_config_def news_send)
next
  case (mid_receives m q l)
  with assms(2) show ?thesis by (simp add: hs_config_def config_mid_receives)
next
  case (mid_forks i l)
  with assms(2) show ?thesis by (simp add: hs_config_def config_mid_forks)
next
  case (init_receives m q l)
  with assms(2) show ?thesis by (simp add: hs_config_def config_init_receives)
next
  case (init_sends m l)
  with assms(2) parent_open_not config_init_sends [of "hs_parent s" "hs_mid s" "hs_init s"] show ?thesis
    by (fastforce simp: hs_config_def news_send)
qed (use assms(2) in \<open>auto simp: hs_config_def mid_act_sends init_act_sends split: if_splits intro: config_gives_up config_mid_ends config_init_ends\<close>)

lemma heard_step:
  assumes "hs_step user mode s t" "heard_inv s" "mode \<noteq> Crashing"
  shows "heard_inv t"
  using assms(1)
proof cases
  case (parent_receives m q l)
  with assms(2) show ?thesis by (cases m; cases "hs_parent s") (auto simp: heard_inv_def)
next
  case (parent_sends m l)
  with assms(2) show ?thesis by (auto simp: heard_inv_def parent_act_sends)
next
  case mid_broken
  then show ?thesis by (auto simp: heard_inv_def parent_open_def)
qed (use assms(2,3) in \<open>auto simp: heard_inv_def mid_act_sends mid_act_receives mid_act_forks\<close>)

lemma smooth_child_open: "smooth_inv s \<Longrightarrow> child_open s"
  by (auto simp: smooth_inv_def child_open_def)

lemma smooth_closed:
  "smooth_inv s \<Longrightarrow> hs_config s \<Longrightarrow> \<not> parent_open s \<Longrightarrow>
     (\<exists>i. hs_parent s = Has_Created i) \<and> hs_mid s = Mid_Ended \<and> hs_init s = Parked"
  unfolding hs_config_def parent_open_def smooth_inv_def
  by (erule config.cases) auto

lemma smooth_step:
  assumes "hs_step user Smooth s t" "smooth_inv s" "hs_config s"
  shows "smooth_inv t"
  using assms(1)
proof cases
  case (parent_receives m q l)
  with assms(2) show ?thesis by (cases m; cases "hs_parent s") (auto simp: smooth_inv_def)
next
  case (parent_sends m l)
  with assms(2) show ?thesis by (auto simp: smooth_inv_def parent_act_sends)
next
  case (mid_broken)
  with assms smooth_closed show ?thesis by (fastforce simp: mid_hangs_def)
next
  case (init_broken)
  with assms smooth_closed show ?thesis by fastforce
next
  case (mid_sends m l)
  with assms(2,3) show ?thesis 
    unfolding hs_config_def smooth_inv_def mid_act_sends by (elim config.cases) auto
next
  case (init_receives m q l)
  with assms(2) show ?thesis by (auto simp: smooth_inv_def init_act_receives)
next
  case (init_sends m l)
  with assms(2) show ?thesis by (auto simp: smooth_inv_def init_act_sends)
next
  case (mid_receives m q l)
  with assms(2) show ?thesis by (auto simp: smooth_inv_def mid_act_receives)
next
  case (mid_forks i l)
  with assms(2) show ?thesis by (auto simp: smooth_inv_def mid_act_forks)
qed (use smooth_child_open [OF assms(2)] in auto)

lemma hs_reach_inv:
  assumes "hs_reach user mode s"
  shows "hs_config s \<and> (mode \<noteq> Crashing \<longrightarrow> heard_inv s) \<and> (mode = Smooth \<longrightarrow> smooth_inv s)"
  using assms unfolding hs_reach_def
proof (induction rule: rtranclp_induct)
  case base
  show ?case using hs_config_start by (simp add: heard_inv_def smooth_inv_def hs_start_def)
next
  case (step s t)
  then show ?case using hs_config_step heard_step smooth_step by blast
qed

lemma config_locs:
  "config p M I n D k \<Longrightarrow> p \<noteq> Parent_Confused \<and> M \<noteq> Mid_Confused \<and> I \<noteq> Init_Confused"
  by (erule config.cases) auto

lemma config_agree:
  "config p M I n D k \<Longrightarrow>
     (I \<in> {Builds, Parked} \<longrightarrow> M = Mid_Ended \<and> (\<exists>i. p \<in> {Awaits_Ready i, Has_Created i, Gave_Up}))
     \<and> (\<forall>i. p \<in> {Reaps i, Awaits_Ready i, Has_Created i} \<longrightarrow> k = Some i)
     \<and> (\<forall>i. p = Has_Created i \<longrightarrow> I \<in> {Parked, Init_Ended})"
  by (erule config.cases) auto


subsection \<open>Termination\<close>

fun parent_rest :: "parent_loc \<Rightarrow> nat" where
  "parent_rest Awaits_First = 5"
| "parent_rest Maps = 4"
| "parent_rest Awaits_Pid = 3"
| "parent_rest (Reaps i) = 2"
| "parent_rest (Awaits_Ready i) = 1"
| "parent_rest _ = 0"

fun mid_rest :: "mid_loc \<Rightarrow> nat" where
  "mid_rest Unsharing = 9"
| "mid_rest Awaits_Mapping = 8"
| "mid_rest Mapped = 7"
| "mid_rest (Has_Forked i) = 2"
| "mid_rest Mid_Ended = 0"
| "mid_rest Mid_Confused = 1"

fun init_rest :: "init_loc \<Rightarrow> nat" where
  "init_rest Awaits_Group = 4"
| "init_rest Builds = 3"
| "init_rest Parked = 2"
| "init_rest Init_Confused = 1"
| "init_rest _ = 0"

definition hs_rest :: "handshake_state \<Rightarrow> nat" where
  "hs_rest s = parent_rest (hs_parent s) + mid_rest (hs_mid s) + init_rest (hs_init s)"

lemma take_rest [simp]: "parent_rest (take_pid m) \<le> 2" "parent_rest (take_ready i m) = 0"
  by (cases m; simp)+

lemma receive_rest: "parent_act p (Receives m) = Some l \<Longrightarrow> parent_rest l < parent_rest p"
  by (cases p; cases m) (auto split: if_splits)

lemma open_rest: "parent_open s \<or> parent_reads s \<Longrightarrow> 0 < parent_rest (hs_parent s)"
  by (cases "hs_parent s") (auto simp: parent_open_def parent_reads_def)

lemma ended_rest: "M \<noteq> Mid_Ended \<Longrightarrow> 0 < mid_rest M" "I \<notin> {Absent, Init_Ended} \<Longrightarrow> 0 < init_rest I"
  by (cases M; simp) (cases I; simp)

lemma step_rest: "hs_step user mode s t \<Longrightarrow> hs_rest t < hs_rest s"
proof (induction rule: hs_step.induct)
  case (parent_receives s m q l)
  then show ?case using receive_rest by (simp add: hs_rest_def)
next
  case (parent_closed s)
  then show ?case using open_rest by (simp add: hs_rest_def)
next
  case (parent_fails s)
  then show ?case using open_rest by (simp add: hs_rest_def)
next
  case (mid_broken s)
  then show ?case by (auto simp: hs_rest_def mid_hangs_def split: mid_loc.splits)
next
  case (init_receives s m q l)
  then show ?case by (auto simp: hs_rest_def init_act_receives)
next
  case (init_fails s reason l)
  then show ?case using ended_rest(2) [of "hs_init s"] by (auto simp: hs_rest_def init_act_sends split: if_splits)
next
  case (mid_fails s reason l)
  then show ?case using ended_rest(1) [of "hs_mid s"] by (auto simp: hs_rest_def mid_act_sends split: if_splits)
qed (auto simp: hs_rest_def parent_act_sends mid_act_sends mid_act_receives mid_act_forks init_act_sends ended_rest)

lemma steps_rest: "(hs_step user mode ^^ n) s t \<Longrightarrow> n + hs_rest t \<le> hs_rest s"
  by (induction n arbitrary: t) (fastforce dest: step_rest)+

text \<open>C9: the handshake terminates under every failure and interleaving: no run is infinite, and none has more
  than fourteen steps.\<close>

theorem handshake_terminates:
  "wfP (\<lambda>t s. hs_step user mode s t) \<and> \<not> (hs_step user mode ^^ 15) hs_start s"
proof
  show "wfP (\<lambda>t s. hs_step user mode s t)"
    unfolding wfp_def by (rule wf_subset [OF wf_measure [of hs_rest]]) (auto dest: step_rest)
  show "\<not> (hs_step user mode ^^ 15) hs_start s"
    using steps_rest [of 15 user mode hs_start s] by (auto simp: hs_rest_def hs_start_def)
qed

subsection \<open>Progress\<close>

definition hs_finished :: "handshake_state \<Rightarrow> bool" where
  "hs_finished s \<longleftrightarrow> \<not> parent_open s \<and> hs_mid s = Mid_Ended \<and> hs_init s \<in> {Absent, Parked, Init_Ended}"

definition moves :: "bool \<Rightarrow> handshake_state \<Rightarrow> bool" where
  "moves user s \<longleftrightarrow> (\<exists>t. hs_step user Smooth s t)"

lemma up_moves: "hs_up s \<noteq> [] \<Longrightarrow> parent_reads s \<Longrightarrow> moves user s"
proof -
  assume "hs_up s \<noteq> []" "parent_reads s"
  then obtain m q where "hs_up s = m # q" by (cases "hs_up s") auto
  moreover from \<open>parent_reads s\<close> obtain l where "parent_act (hs_parent s) (Receives m) = Some l"
    by (cases "hs_parent s") (auto simp: parent_reads_def)
  ultimately show ?thesis unfolding moves_def by (blast intro: parent_receives)
qed

lemma closed_moves: "hs_up s = [] \<Longrightarrow> parent_reads s \<Longrightarrow> \<not> child_open s \<Longrightarrow> moves user s"
  unfolding moves_def by (blast intro: parent_closed)

lemma sends_moves:
  assumes "hs_parent s = Maps \<or> (\<exists>i. hs_parent s = Reaps i) \<and> hs_mid s = Mid_Ended"
  shows "moves user s"
proof -
  from assms obtain m l where "parent_act (hs_parent s) (Sends m) = Some l" "has_reaped s"
    by (auto simp: parent_act_sends has_reaped_def)
  then show ?thesis
    unfolding moves_def by (cases "child_open s") (blast intro: parent_sends parent_broken)+
qed

lemma mid_hanging_moves: "mid_hangs user s \<Longrightarrow> \<not> parent_open s \<Longrightarrow> moves user s"
  unfolding moves_def by (blast intro: mid_broken)

lemma fork_moves: "hs_mid s = Unsharing \<and> \<not> user \<or> hs_mid s = Mapped \<Longrightarrow> moves user s"
  unfolding moves_def by (rule exI, rule mid_forks [of user s 0 "Has_Forked 0"]) (auto simp: mid_act_forks)

lemma mid_sends_moves:
  assumes "parent_open s" "hs_mid s = Unsharing \<and> user \<or> (\<exists>i. hs_mid s = Has_Forked i)"
  shows "moves user s"
proof -
  from assms(2) obtain m l where "mid_act user (hs_mid s) (Sends m) = Some l" "\<forall>reason. m \<noteq> Failed reason"
    by (auto simp: mid_act_sends)
  with assms(1) show ?thesis unfolding moves_def by (blast intro: mid_sends)
qed

lemma unsharing_moves: "hs_mid s = Unsharing \<Longrightarrow> moves user s" and forked_moves: "hs_mid s = Has_Forked i \<Longrightarrow> moves user s"
  using mid_sends_moves fork_moves mid_hanging_moves by (cases "parent_open s"; cases user; fastforce simp: mid_hangs_def)+

lemma mapping_moves: "hs_mid s = Awaits_Mapping \<Longrightarrow> hs_down s = [UserMappingDone] \<Longrightarrow> moves user s"
  unfolding moves_def by (rule exI, rule mid_receives [of s UserMappingDone "[]" user Mapped]) simp_all

lemma group_moves: "hs_init s = Awaits_Group \<Longrightarrow> hs_down s = [CgroupApplied i] \<Longrightarrow> moves user s"
  unfolding moves_def by (rule exI, rule init_receives [of s "CgroupApplied i" "[]" Builds]) simp_all

lemma builds_moves: "hs_init s = Builds \<Longrightarrow> moves user s"
  unfolding moves_def
  by (cases "parent_open s") (use init_sends [of s "InitReady []" Parked user Smooth] init_broken [of s user Smooth] in auto)

lemma waiting_moves: "hs_init s = Awaits_Group \<Longrightarrow> hs_down s = [] \<Longrightarrow> \<not> parent_open s \<Longrightarrow> moves user s"
  unfolding moves_def by (auto intro: exI init_broken)

lemma heard_up:
  "heard_inv s \<Longrightarrow> hs_mid s = Mid_Ended \<Longrightarrow> hs_parent s \<in> {Awaits_First, Awaits_Pid} \<Longrightarrow> moves user s"
  by (rule up_moves) (auto simp: heard_inv_def parent_reads_def)

lemma news_up: "news (hs_up s) \<noteq> [] \<Longrightarrow> hs_up s \<noteq> []"
  by auto

lemma config_moves:
  assumes "config (hs_parent s) (hs_mid s) (hs_init s) (news (hs_up s)) (hs_down s) (hs_kid s)" "heard_inv s"
  shows "hs_finished s \<or> moves user s"
  using assms
proof cases
  case (13 i)
  then show ?thesis
    by (cases "hs_up s = []") (auto intro: up_moves closed_moves group_moves simp: parent_reads_def child_open_def)
next
  case (14 i)
  then show ?thesis
    by (cases "hs_up s = []") (auto intro: up_moves closed_moves builds_moves simp: parent_reads_def child_open_def)
next
  case (17)
  then show ?thesis
    by (auto intro: unsharing_moves fork_moves mid_hanging_moves simp: parent_open_def mid_hangs_def)
next
  case 19
  then show ?thesis
    by (cases "hs_init s") (auto intro: builds_moves waiting_moves simp: parent_open_def hs_finished_def)
qed (use assms(2) in \<open>auto intro: unsharing_moves forked_moves fork_moves mapping_moves group_moves sends_moves heard_up
       up_moves [OF news_up] simp: parent_reads_def hs_finished_def parent_open_def\<close>)


subsection \<open>Examples\<close>

definition created_state :: handshake_state where
  "created_state = \<lparr>hs_parent = Has_Created 7, hs_mid = Mid_Ended, hs_init = Parked, hs_up = [], hs_down = [], hs_kid = Some 7\<rparr>"

lemma reach_step: "hs_reach user mode s \<Longrightarrow> hs_step user mode s t \<Longrightarrow> hs_reach user mode t"
  unfolding hs_reach_def by (rule rtranclp.rtrancl_into_rtrancl)

lemma hs_reach_start: "hs_reach user mode hs_start"
  by (simp add: hs_reach_def)

lemma created_reachable: "hs_reach False Smooth created_state"
proof -
  have "hs_reach False Smooth \<lparr>hs_parent = Awaits_First, hs_mid = Has_Forked 7, hs_init = Awaits_Group, hs_up = [], hs_down = [], hs_kid = Some 7\<rparr>"
    using mid_forks [of False hs_start 7 "Has_Forked 7" Smooth] reach_step [OF hs_reach_start] by (simp add: hs_start_def)
  from mid_sends [of False _ "InitPid 7 []" Mid_Ended Smooth, THEN reach_step [OF this], simplified, simplified parent_open_def]
  have "hs_reach False Smooth \<lparr>hs_parent = Awaits_First, hs_mid = Mid_Ended, hs_init = Awaits_Group, hs_up = [InitPid 7 []], hs_down = [], hs_kid = Some 7\<rparr>"
    by simp
  from parent_receives [of _ "InitPid 7 []" "[]" "Reaps 7" False Smooth, THEN reach_step [OF this], simplified]
  have "hs_reach False Smooth \<lparr>hs_parent = Reaps 7, hs_mid = Mid_Ended, hs_init = Awaits_Group, hs_up = [], hs_down = [], hs_kid = Some 7\<rparr>"
    by simp
  from parent_sends [of _ "CgroupApplied 7" "Awaits_Ready 7" False Smooth, THEN reach_step [OF this], simplified]
  have "hs_reach False Smooth \<lparr>hs_parent = Awaits_Ready 7, hs_mid = Mid_Ended, hs_init = Awaits_Group, hs_up = [], hs_down = [CgroupApplied 7], hs_kid = Some 7\<rparr>"
    by (simp add: has_reaped_def child_open_def)
  from init_receives [of _ "CgroupApplied 7" "[]" Builds False Smooth, THEN reach_step [OF this], simplified]
  have "hs_reach False Smooth \<lparr>hs_parent = Awaits_Ready 7, hs_mid = Mid_Ended, hs_init = Builds, hs_up = [], hs_down = [], hs_kid = Some 7\<rparr>"
    by simp
  from init_sends [of _ "InitReady []" Parked False Smooth, THEN reach_step [OF this], simplified, simplified parent_open_def]
  have "hs_reach False Smooth \<lparr>hs_parent = Awaits_Ready 7, hs_mid = Mid_Ended, hs_init = Parked, hs_up = [InitReady []], hs_down = [], hs_kid = Some 7\<rparr>"
    by simp
  from parent_receives [of _ "InitReady []" "[]" "Has_Created 7" False Smooth, THEN reach_step [OF this], simplified]
  show ?thesis by (simp add: created_state_def)
qed



text \<open>An intermediate process that dies after its fork without a word leaves the parent and the init
  waiting for each other: the init holds the other end of the channel, so nobody sees it close.\<close>

definition hung_state :: handshake_state where
  "hung_state = \<lparr>hs_parent = Awaits_First, hs_mid = Mid_Ended, hs_init = Awaits_Group, hs_up = [], hs_down = [], hs_kid = Some 7\<rparr>"

theorem silent_death_hangs:
  "hs_reach False Crashing hung_state \<and> \<not> hs_finished hung_state \<and> \<not> (\<exists>t. hs_step False Smooth hung_state t)"
proof (intro conjI)
  have "hs_reach False Crashing \<lparr>hs_parent = Awaits_First, hs_mid = Has_Forked 7, hs_init = Awaits_Group, hs_up = [], hs_down = [], hs_kid = Some 7\<rparr>"
    using mid_forks [of False hs_start 7 "Has_Forked 7" Crashing] reach_step [OF hs_reach_start] by (simp add: hs_start_def)
  from mid_dies [of Crashing _ False, THEN reach_step [OF this], simplified]
  show "hs_reach False Crashing hung_state" by (simp add: hung_state_def)
  show "\<not> (\<exists>t. hs_step False Smooth hung_state t)"
    by (auto simp: hung_state_def parent_open_def child_open_def mid_hangs_def mid_act_sends init_act_sends elim!: hs_stepE)
qed (simp add: hung_state_def hs_finished_def parent_open_def)

end
