(* ===== verification/Handshake.thy ===== *)
theory Handshake
  imports Container Protocol
begin

section \<open>The code follows the handshake protocol\<close>

text \<open>
  The traces of \<open>handshake\<close>, \<open>container_init\<close> and \<open>stage_one\<close> against the automata of \<open>Protocol\<close>. An act is
  matched by a successful call: a send of the message's encoding, a receive whose packet decodes to the
  message, a fork. A run that fails may end with one exchange that brought no message.
\<close>

fun sync_call :: "call \<Rightarrow> bool" where
  "sync_call (Sync_Call c) = True"
| "sync_call (Proc Fork) = True"
| "sync_call c = False"

fun act_event :: "codec \<Rightarrow> act \<Rightarrow> event \<Rightarrow> bool" where
  "act_event cd (Sends m) ev \<longleftrightarrow> (\<exists>buf. enc_msg cd m = Some buf \<and> ev = (Sync_Call (Sock_Send buf), None))"
| "act_event cd (Receives m) ev \<longleftrightarrow> ev = (Sync_Call (Sock_Recv MAX_MESSAGE), None)"
| "act_event cd (Forks i) ev \<longleftrightarrow> ev = (Proc Fork, None)"

fun run_act :: "('l \<Rightarrow> act \<Rightarrow> 'l option) \<Rightarrow> 'l \<Rightarrow> act list \<Rightarrow> 'l option" where
  "run_act A l [] = Some l"
| "run_act A l (a # acts) = Option.bind (A l a) (\<lambda>l'. run_act A l' acts)"

lemma run_act_append: "run_act A l (xs @ ys) = Option.bind (run_act A l xs) (\<lambda>l'. run_act A l' ys)"
  by (induction xs arbitrary: l) (auto simp: Option.bind_assoc)

definition sync_events :: "event list \<Rightarrow> event list" where
  "sync_events tr = filter (sync_call \<circ> fst) tr"

text \<open>\<open>matched cd A l tr l' k\<close>: but for the last \<open>k\<close> events the exchanges in \<open>tr\<close> lead the automaton from \<open>l\<close> to \<open>l'\<close>.\<close>

definition matched :: "codec \<Rightarrow> ('l \<Rightarrow> act \<Rightarrow> 'l option) \<Rightarrow> 'l \<Rightarrow> event list \<Rightarrow> 'l \<Rightarrow> nat \<Rightarrow> bool" where
  "matched cd A l tr l' k \<longleftrightarrow>
     (\<exists>acts t1 t2. sync_events tr = t1 @ t2 \<and> length t2 = k \<and> list_all2 (act_event cd) acts t1 \<and> run_act A l acts = Some l')"

definition speaks :: "codec \<Rightarrow> ('l \<Rightarrow> act \<Rightarrow> 'l option) \<Rightarrow> 'l \<Rightarrow> ('w, 'a) io \<Rightarrow> ('a \<Rightarrow> 'l \<Rightarrow> nat \<Rightarrow> event list \<Rightarrow> bool) \<Rightarrow> bool" where
  "speaks cd A l m Q \<longleftrightarrow>
     emits m (\<lambda>r tr. case r of
        Inr x \<Rightarrow> \<exists>l' k. matched cd A l tr l' k \<and> Q x l' k tr
      | Inl e \<Rightarrow> \<exists>l' k. k \<le> 1 \<and> matched cd A l tr l' k)"

definition follows :: "codec \<Rightarrow> ('l \<Rightarrow> act \<Rightarrow> 'l option) \<Rightarrow> 'l \<Rightarrow> ('w, 'a) io \<Rightarrow> ('a \<Rightarrow> 'l \<Rightarrow> bool) \<Rightarrow> bool" where
  "follows cd A l m Q \<longleftrightarrow> speaks cd A l m (\<lambda>x l' k tr. k = 0 \<and> Q x l')"

lemma follows_emits:
  "follows cd A l m Q \<longleftrightarrow>
     emits m (\<lambda>r tr. case r of
        Inr x \<Rightarrow> \<exists>l'. matched cd A l tr l' 0 \<and> Q x l'
      | Inl e \<Rightarrow> \<exists>l' k. k \<le> 1 \<and> matched cd A l tr l' k)"
  by (simp add: follows_def speaks_def cong: sum.case_cong)

lemma sync_events_append [simp]: "sync_events (t1 @ t2) = sync_events t1 @ sync_events t2"
  by (simp add: sync_events_def)

lemma matched_Nil: "sync_events tr = [] \<Longrightarrow> matched cd A l tr l 0"
  by (auto simp: matched_def intro: exI [of _ "[]"])

lemma matched_one: "sync_events tr = [ev] \<Longrightarrow> act_event cd a ev \<Longrightarrow> A l a = Some l' \<Longrightarrow> matched cd A l tr l' 0"
  unfolding matched_def by (intro exI [of _ "[a]"] exI [of _ "[ev]"] exI [of _ "[]"]) simp

lemma matched_lost: "length (sync_events tr) = k \<Longrightarrow> matched cd A l tr l k"
  unfolding matched_def
  by (intro exI [of _ "[]"] exI [of _ "[]"] exI [of _ "sync_events tr"]) simp

lemma matched_append:
  assumes "matched cd A l t1 l1 0" "matched cd A l1 t2 l2 k"
  shows "matched cd A l (t1 @ t2) l2 k"
proof -
  from assms(1) obtain a1 where a1: "list_all2 (act_event cd) a1 (sync_events t1)" "run_act A l a1 = Some l1"
    by (auto simp: matched_def)
  from assms(2) obtain a2 u v where a2: "sync_events t2 = u @ v" "length v = k" "list_all2 (act_event cd) a2 u"
    "run_act A l1 a2 = Some l2"
    by (auto simp: matched_def)
  show ?thesis
    unfolding matched_def
    using a1 a2 by (intro exI [of _ "a1 @ a2"] exI [of _ "sync_events t1 @ u"] exI [of _ v])
      (auto simp: run_act_append intro: list_all2_appendI)
qed

lemma speaks_bind:
  assumes "follows cd A l m R" "\<And>x l'. R x l' \<Longrightarrow> speaks cd A l' (f x) Q"
    "\<And>x l' k t1 t2. Q x l' k t2 \<Longrightarrow> Q x l' k (t1 @ t2)"
  shows "speaks cd A l (bind m f) Q"
  unfolding speaks_def emits_def
proof (intro allI impI)
  fix s r s' assume run: "bind m f s = (r, s')"
  obtain r1 s1 where m: "m s = (r1, s1)" by fastforce
  from emitsD [OF assms(1) [unfolded follows_emits] m] obtain t1 where
    t1: "st_trace s1 = st_trace s @ t1" and q1: "case r1 of Inr x \<Rightarrow> \<exists>l'. matched cd A l t1 l' 0 \<and> R x l'
      | Inl e \<Rightarrow> \<exists>l' k. k \<le> 1 \<and> matched cd A l t1 l' k"
    by blast
  show "\<exists>tr. st_trace s' = st_trace s @ tr \<and> (case r of Inr x \<Rightarrow> \<exists>l' k. matched cd A l tr l' k \<and> Q x l' k tr
      | Inl e \<Rightarrow> \<exists>l' k. k \<le> 1 \<and> matched cd A l tr l' k)"
  proof (cases r1)
    case (Inl e)
    with run m have "s' = s1" "r = Inl e" by (simp_all add: bind_def)
    with Inl t1 q1 show ?thesis by auto
  next
    case (Inr x)
    with q1 obtain l1 where l1: "matched cd A l t1 l1 0" "R x l1" by auto
    from Inr run m have "f x s1 = (r, s')" by (simp add: bind_def)
    from emitsD [OF assms(2) [OF l1(2), unfolded speaks_def] this] obtain t2 where
      "st_trace s' = st_trace s1 @ t2" "case r of Inr x \<Rightarrow> \<exists>l' k. matched cd A l1 t2 l' k \<and> Q x l' k t2
        | Inl e \<Rightarrow> \<exists>l' k. k \<le> 1 \<and> matched cd A l1 t2 l' k"
      by blast
    with t1 matched_append [OF l1(1)] assms(3) [where ?t1.0 = t1] show ?thesis
      by (cases r) (fastforce intro!: exI [of _ "t1 @ t2"])+
  qed
qed

lemma follows_bind:
  "follows cd A l m R \<Longrightarrow> (\<And>x l'. R x l' \<Longrightarrow> follows cd A l' (f x) Q) \<Longrightarrow> follows cd A l (bind m f) Q"
  unfolding follows_def [where Q = Q] by (rule speaks_bind [where R = R]) simp_all

lemma follows_quiet: "only (\<lambda>c. \<not> sync_call c) m \<Longrightarrow> follows cd A l m (\<lambda>x l'. l' = l)"
  unfolding follows_emits only_def
proof (erule emits_weaken)
  fix r and tr :: "event list" assume "list_all (\<lambda>ev. \<not> sync_call (fst ev)) tr"
  then have "sync_events tr = []" by (simp add: sync_events_def list_all_iff)
  then show "case r of Inr x \<Rightarrow> \<exists>l'. matched cd A l tr l' 0 \<and> l' = l | Inl e \<Rightarrow> \<exists>l' k. k \<le> 1 \<and> matched cd A l tr l' k"
    by (auto intro: matched_Nil split: sum.split)
qed

lemma follows_throw: "follows cd A l (throw e) Q"
  unfolding follows_emits by (rule emits_throw) (auto intro!: exI [of _ l] exI [of _ 0] matched_Nil simp: sync_events_def)

lemma follows_ret: "Q x l \<Longrightarrow> follows cd A l (ret x) Q"
  unfolding follows_emits by (rule emits_ret) (auto intro!: exI [of _ l] matched_Nil simp: sync_events_def)

lemma follows_weaken: "follows cd A l m R \<Longrightarrow> (\<And>x l'. R x l' \<Longrightarrow> Q x l') \<Longrightarrow> follows cd A l m Q"
  unfolding follows_emits by (erule emits_weaken) (auto split: sum.splits)

lemma follows_call:
  assumes "A l a = Some l'" "act_event cd a (c, None)" "sync_call c"
  shows "follows cd A l (checked wrap f c) (\<lambda>x l''. l'' = l')"
  unfolding follows_emits
proof (rule emits_checked)
  show "case Inr x of Inr x \<Rightarrow> \<exists>l''. matched cd A l [(c, None)] l'' 0 \<and> l'' = l'
      | Inl e \<Rightarrow> \<exists>l' k. k \<le> 1 \<and> matched cd A l [(c, None)] l' k" for x
    using assms by (auto intro: matched_one [where a = a] simp: sync_events_def)
  have "matched cd A l [(c, Some e)] l 1" for e
    using assms(3) by (intro matched_lost) (simp add: sync_events_def)
  then show "case Inl (wrap c e) of Inr x \<Rightarrow> \<exists>l''. matched cd A l [(c, Some e)] l'' 0 \<and> l'' = l'
      | Inl e' \<Rightarrow> \<exists>l' k. k \<le> 1 \<and> matched cd A l [(c, Some e)] l' k" for e
    by fastforce
qed

lemma follows_send:
  assumes "A l (Sends m) = Some l'"
  shows "follows cd A l (sync_send os cd m) (\<lambda>x l''. l'' = l')"
proof (cases "enc_msg cd m")
  case (Some buf)
  then have "follows cd A l (checked raw_syscall (os_unit os) (Sync_Call (Sock_Send buf))) (\<lambda>x l''. l'' = l')"
    by (intro follows_call [where a = "Sends m"]) (simp_all add: assms)
  with Some show ?thesis by (simp add: sync_send_def json_def)
qed (simp add: sync_send_def json_def follows_throw)

lemma follows_recv:
  assumes "\<And>m. A l (Receives m) = Some (g m)"
  shows "follows cd A l (sync_recv os cd) (\<lambda>m l'. l' = g m)"
proof -
  have ok: "matched cd A l [(Sync_Call (Sock_Recv MAX_MESSAGE), e)] (g m) 0" if "e = None" for m e
    using that assms by (intro matched_one [where a = "Receives m"]) (simp_all add: sync_events_def)
  have lost: "matched cd A l [(Sync_Call (Sock_Recv MAX_MESSAGE), e)] l 1" for e
    by (rule matched_lost) (simp add: sync_events_def)
  show ?thesis
    unfolding follows_emits emits_def sync_recv_def checked_def
  proof (intro allI impI)
    fix s r s'
    assume "bind (bind (perform (os_text os) (Sync_Call (Sock_Recv MAX_MESSAGE)))
        (\<lambda>r. case r of Inl e \<Rightarrow> throw (Syscall e) | Inr x \<Rightarrow> ret x))
        (\<lambda>buf. if buf = [] then throw SyncClosed else json (dec_msg cd buf)) s = (r, s')"
    then obtain e where "st_trace s' = st_trace s @ [(Sync_Call (Sock_Recv MAX_MESSAGE), e)]"
      "e \<noteq> None \<Longrightarrow> \<exists>x. r = Inl x"
      by (auto simp: bind_def perform_def throw_def ret_def json_def split: prod.splits sum.splits if_splits option.splits)
    with ok lost show "\<exists>tr. st_trace s' = st_trace s @ tr \<and> (case r of
          Inr m \<Rightarrow> \<exists>l'. matched cd A l tr l' 0 \<and> l' = g m
        | Inl e \<Rightarrow> \<exists>l' k. k \<le> 1 \<and> matched cd A l tr l' k)"
      by (cases r) (fastforce intro!: exI [of _ "[(Sync_Call (Sock_Recv MAX_MESSAGE), e)]"])+
  qed
qed

lemma follows_lift: "(\<And>x. q = Inr x \<Longrightarrow> Q x l) \<Longrightarrow> follows cd A l (lift q) Q"
  by (cases q) (auto intro: follows_throw follows_ret)

lemma follows_expect:
  assumes "\<And>m. A l (Receives m) = Some (g m)"
  shows "follows cd A l (sync_expect os cd want) (\<lambda>m l'. l' = g m \<and> message_name m = want \<and> (\<forall>reason. m \<noteq> Failed reason))"
  unfolding sync_expect_def
  by (rule follows_bind, rule follows_recv, rule assms) (auto intro!: follows_lift hoare simp: accept_Inr)

lemma follows_skip:
  assumes "only (\<lambda>c. \<not> sync_call c) m" "\<And>x. follows cd A l (f x) Q"
  shows "follows cd A l (bind m f) Q"
  by (rule follows_bind [OF follows_quiet [OF assms(1)]]) (use assms(2) in auto)

subsection \<open>The parent\<close>

lemma hook_call_sync: "hook_call c \<Longrightarrow> \<not> sync_call c"
  by (induction c rule: hook_call.induct) simp_all

lemma quiet_hooks: "only (\<lambda>c. \<not> sync_call c) (hooks_run os cd fuel hks ph st)"
  by (intro only_hooks_run hook_call_sync)

lemma quiet_record: "only (\<lambda>c. \<not> sync_call c) (record_container os h p cg l opts i)"
  unfolding record_container_def by (auto intro!: hoare)

lemma follows_mapping:
  "follows cd parent_act (if m = RequestUserMapping then Maps else take_pid m) (map_intermediate os cd p child m)
     (\<lambda>m' l. l = take_pid m')"
proof (cases "m = RequestUserMapping")
  case True
  have "follows cd parent_act Maps (bind (is_root os) (\<lambda>privileged.
      bind (userns_write os child (bun_id_mappings (plan_bundle p)) privileged) (\<lambda>_.
      bind (sync_send os cd UserMappingDone) (\<lambda>_. sync_recv os cd)))) (\<lambda>m' l. l = take_pid m')"
    by (rule follows_skip, intro hoare, simp, rule follows_skip, intro hoare, simp, simp, simp,
        rule follows_bind, rule follows_send, simp, simp, rule follows_recv, simp)
  with True show ?thesis by (simp add: map_intermediate_def)
qed (simp add: map_intermediate_def follows_ret)

lemma follows_init_pid: "follows cd parent_act (take_pid m) (init_pid forked_at m) (\<lambda>i l. l = Reaps i)"
  unfolding init_pid_def
  by (cases m) (auto intro!: follows_throw follows_skip follows_ret hoare)

lemma follows_ready_expect:
  "follows cd parent_act (Awaits_Ready i) (sync_expect os cd ''InitReady'')
     (\<lambda>m l. l = take_ready i m \<and> message_name m = ''InitReady'' \<and> (\<forall>reason. m \<noteq> Failed reason))"
  by (rule follows_expect) simp

lemma follows_ready:
  "l = take_ready i m \<and> message_name m = ''InitReady'' \<and> (\<forall>reason. m \<noteq> Failed reason) \<Longrightarrow>
   follows cd parent_act l (case m of InitReady phases \<Rightarrow> ret phases | other \<Rightarrow> throw (Sync_Expected ''InitReady'' other))
     (\<lambda>ph l'. l' = Has_Created i)"
  by (cases m) (auto intro: follows_throw follows_ret)

lemma handshake_parts_quiet:
  "only (\<lambda>c. \<not> sync_call c) (rec_begin os n)" "only (\<lambda>c. \<not> sync_call c) (rec_end os)"
  "only (\<lambda>c. \<not> sync_call c) (elapsed_us os)" "only (\<lambda>c. \<not> sync_call c) (rec_absorb pre off ps)"
  "only (\<lambda>c. \<not> sync_call c) (checked raw_syscall (os_wait os) (Proc (Waitpid child)))"
  "only (\<lambda>c. \<not> sync_call c) (add_process os cg i)"
  by (intro hoare; simp)+

lemma follows_handshake:
  "follows (h_codec h) parent_act Awaits_First (handshake os h child p cg l opts forked_at) (\<lambda>u loc. \<exists>i. loc = Has_Created i)"
  unfolding handshake_def Let_def
  by (rule follows_skip, rule handshake_parts_quiet, rule follows_bind, rule follows_recv, simp, simp only:,
      rule follows_bind, rule follows_mapping, simp only:, rule follows_bind, rule follows_init_pid, simp only:,
      (rule follows_skip, rule handshake_parts_quiet)+, (rule follows_skip, rule quiet_hooks)+,
      (rule follows_skip, rule handshake_parts_quiet)+, rule follows_bind, rule follows_send, simp, simp only:,
      rule follows_bind, rule follows_ready_expect, rule follows_bind, erule follows_ready, simp only:,
      rule follows_skip, rule quiet_record, rule follows_skip, rule handshake_parts_quiet,
      rule follows_weaken, rule follows_quiet, rule handshake_parts_quiet, simp)

subsection \<open>The init\<close>

lemma tree_sync: "tree_call c \<Longrightarrow> \<not> sync_call c"
  by (induction c rule: tree_call.induct) simp_all

lemma console_sync: "console_call c \<Longrightarrow> \<not> sync_call c"
  by (induction c rule: console_call.induct) auto

lemmas tree_parts_quiet = only_tree_parts [THEN only_weaken, OF tree_sync]

lemma security_quiet: "only (\<lambda>c. \<not> sync_call c) (init_security os h b)"
proof -
  have names: "only (\<lambda>c. \<not> sync_call c) (add_names os so v r ns k)" for so v r ns k
    by (induction ns arbitrary: k) (auto simp: scmp_def intro!: hoare split: option.split)
  have rules: "only (\<lambda>c. \<not> sync_call c) (add_syscalls os so rs k)" for so rs k
    by (induction rs arbitrary: k) (auto intro!: hoare names)
  have load: "only (\<lambda>c. \<not> sync_call c) (load_seccomp os h b)"
    unfolding load_seccomp_def seccomp_apply_def
    by (auto simp: scmp_def intro!: hoare rules split: option.split)
  show ?thesis
    unfolding init_security_def Let_def init_credentials_def drop_bounding_def drop_privileges_def caps_apply_def
      raise_ambient_def keep_caps_across_setuid_def set_no_new_privs_def
    by (auto intro!: hoare load split: option.split)
qed

lemma init_parts_quiet:
  "only (\<lambda>c. \<not> sync_call c) (init_rootfs os h p state)" "only (\<lambda>c. \<not> sync_call c) (init_identity os p)"
  "only (\<lambda>c. \<not> sync_call c) (init_harden os p)" "only (\<lambda>c. \<not> sync_call c) (init_program os p)"
  "only (\<lambda>c. \<not> sync_call c) (init_limits os p)"
  unfolding init_rootfs_def init_identity_def init_harden_def init_program_def init_limits_def Let_def pivot_def
    set_domainname_def apply_limits_def apply_oom_score_adj_def apply_umask_def
  by (auto intro!: hoare tree_parts_quiet quiet_hooks only_console_setup dest: console_sync split: option.split)

lemma follows_init:
  "follows (h_codec h) init_act Awaits_Group (container_init os h p) (\<lambda>u l. l = Parked)"
proof -
  have handoff: "follows (h_codec h) init_act Builds (init_handoff os h p state pae) (\<lambda>u l. l = Parked)" for state pae
    unfolding init_handoff_def fifo_park_def unblock_all_def
    by (cases pae) (simp, rule follows_skip, intro hoare, simp, rule follows_bind, rule follows_send, simp, simp only:,
        rule follows_weaken, rule follows_quiet, auto intro!: hoare quiet_hooks)
  have main: "follows (h_codec h) init_act Builds (bind (rec_new os) (\<lambda>_.
            bind (rec_begin os ''unshare.cgroup'') (\<lambda>_.
            bind (do_when (plan_cgroup_ns p) (unshare os CLONE_NEWCGROUP)) (\<lambda>_.
            bind (init_rootfs os h p state) (\<lambda>_.
            bind (init_identity os p) (\<lambda>_.
            bind (init_harden os p) (\<lambda>_.
            bind (init_program os p) (\<lambda>pae.
            bind (init_limits os p) (\<lambda>_.
            bind (init_security os h (plan_bundle p)) (\<lambda>_.
              init_handoff os h p state pae)))))))))) (\<lambda>u l. l = Parked)" for state
    unfolding unshare_def
    by (rule follows_skip, intro hoare, simp, rule follows_skip, intro hoare, simp, rule follows_skip, intro hoare, simp,
        (rule follows_skip, rule init_parts_quiet)+, rule follows_skip, rule security_quiet, rule handoff)
  show ?thesis
    unfolding container_init_def Let_def
    by (rule follows_bind, rule follows_expect [where g = "\<lambda>m. if \<exists>i. m = CgroupApplied i then Builds else Init_Confused"])
       (auto simp: init_act_receives intro: main follows_throw split: message.split)
qed

subsection \<open>The intermediate process, and the init it becomes the parent of\<close>

text \<open>\<^verbatim>\<open>stage_one\<close> goes on in two processes after its fork; reply 0 of the fork makes this one the init.\<close>

fun child_act :: "bool \<Rightarrow> mid_loc + init_loc \<Rightarrow> act \<Rightarrow> (mid_loc + init_loc) option" where
  "child_act user (Inl l) (Forks i) =
     map_option (\<lambda>l'. if i = 0 then Inr Awaits_Group else Inl l') (mid_act user l (Forks i))"
| "child_act user (Inl l) a = map_option Inl (mid_act user l a)"
| "child_act user (Inr l) a = map_option Inr (init_act l a)"

text \<open>The last event is the report of a failure, if it can be encoded.\<close>

definition reported :: "codec \<Rightarrow> event list \<Rightarrow> bool" where
  "reported cd tr \<longleftrightarrow> (\<exists>e. \<forall>buf. enc_msg cd (Failed (display cd e)) = Some buf \<longrightarrow>
     (\<exists>err. tr \<noteq> [] \<and> last tr = (Sync_Call (Sock_Send buf), err)))"

definition child_end :: "codec \<Rightarrow> ending \<Rightarrow> mid_loc + init_loc \<Rightarrow> nat \<Rightarrow> event list \<Rightarrow> bool" where
  "child_end cd ending l k tr \<longleftrightarrow>
     (case ending of
        Image_Replaced \<Rightarrow> k = 0 \<and> l = Inr Parked
      | Exits c \<Rightarrow> c = 0 \<and> k = 0 \<and> l = Inl Mid_Ended \<or> c = 1 \<and> k \<le> 2 \<and> reported cd tr)"

lemma matched_tail:
  "matched cd A l t1 l' k \<Longrightarrow> matched cd A l (t1 @ t2) l' (k + length (sync_events t2))"
  unfolding matched_def
proof (elim exE conjE)
  fix acts u v
  assume "sync_events t1 = u @ v" "length v = k" "list_all2 (act_event cd) acts u" "run_act A l acts = Some l'"
  then show "\<exists>acts u v. sync_events (t1 @ t2) = u @ v \<and> length v = k + length (sync_events t2)
      \<and> list_all2 (act_event cd) acts u \<and> run_act A l acts = Some l'"
    by (intro exI [of _ acts] exI [of _ u] exI [of _ "v @ sync_events t2"]) simp
qed

lemma run_act_map:
  assumes "\<And>l a l'. A l a = Some l' \<Longrightarrow> B (f l) a = Some (f l')"
  shows "run_act A l acts = Some l' \<Longrightarrow> run_act B (f l) acts = Some (f l')"
  by (induction acts arbitrary: l) (auto simp: bind_eq_Some_conv dest: assms)

lemma matched_map:
  assumes "\<And>l a l'. A l a = Some l' \<Longrightarrow> B (f l) a = Some (f l')"
  shows "matched cd A l tr l' k \<Longrightarrow> matched cd B (f l) tr (f l') k"
  unfolding matched_def using run_act_map [of A B f, OF assms] by blast

lemma report_emits:
  "emits (bind (ignore (sync_send os cd (Failed (display cd e)))) (\<lambda>_. ret (Exits 1)))
     (\<lambda>r tr. r = Inr (Exits 1) \<and> length (sync_events tr) \<le> 1 \<and> (\<forall>t. reported cd (t @ tr)))"
proof -
  have "emits (sync_send os cd (Failed (display cd e))) (\<lambda>r tr.
      length (sync_events tr) \<le> 1 \<and> (\<forall>buf. enc_msg cd (Failed (display cd e)) = Some buf \<longrightarrow>
        (\<exists>err. tr = [(Sync_Call (Sock_Send buf), err)])))"
    unfolding sync_send_def json_def
    by (cases "enc_msg cd (Failed (display cd e))") (auto intro!: emits_throw emits_checked simp: sync_events_def)
  note send = emits_attempt [where R = "\<lambda>r tr. (\<exists>q. r = Inr q) \<and>
      length (sync_events tr) \<le> 1 \<and> (\<forall>buf. enc_msg cd (Failed (display cd e)) = Some buf \<longrightarrow>
        (\<exists>err. tr = [(Sync_Call (Sock_Send buf), err)]))", OF emits_weaken, OF this]
  have "emits (ignore (sync_send os cd (Failed (display cd e)))) (\<lambda>r tr. (\<exists>q. r = Inr q) \<and>
      length (sync_events tr) \<le> 1 \<and> (\<forall>buf. enc_msg cd (Failed (display cd e)) = Some buf \<longrightarrow>
        (\<exists>err. tr = [(Sync_Call (Sock_Send buf), err)])))"
    unfolding ignore_def
    by (rule emits_bind [where S = "\<lambda>x r tr. r = Inr () \<and> tr = []"], rule send) (auto intro: emits_ret)
  then show ?thesis
    by (rule emits_bind [where S = "\<lambda>x r tr. r = Inr (Exits 1) \<and> tr = []"])
       (auto intro: emits_ret simp: reported_def sync_events_def, fastforce)
qed

lemma init_matched: "matched cd init_act l tr l' k \<Longrightarrow> matched cd (child_act user) (Inr l) tr (Inr l') k"
  by (rule matched_map) simp

lemma init_branch:
  "emits (bind (attempt (container_init os h p)) (\<lambda>r. case r of
       Inr u \<Rightarrow> ret Image_Replaced
     | Inl e \<Rightarrow> bind (ignore (sync_send os (h_codec h) (Failed (display (h_codec h) e)))) (\<lambda>_. ret (Exits 1))))
   (\<lambda>r tr. \<exists>ending l k. r = Inr ending \<and> matched (h_codec h) (child_act user) (Inr Awaits_Group) tr l k
      \<and> child_end (h_codec h) ending l k tr)"
proof (rule emits_bind)
  show "emits (attempt (container_init os h p)) (\<lambda>r tr. \<exists>q. r = Inr q \<and> (case q of
      Inr u \<Rightarrow> matched (h_codec h) (child_act user) (Inr Awaits_Group) tr (Inr Parked) 0
    | Inl e \<Rightarrow> \<exists>l k. k \<le> 1 \<and> matched (h_codec h) (child_act user) (Inr Awaits_Group) tr (Inr l) k))"
    by (rule emits_attempt, rule emits_weaken [OF follows_init [unfolded follows_emits]])
       (use init_matched in \<open>fastforce split: sum.splits\<close>)
  show "emits (case x of Inr u \<Rightarrow> ret Image_Replaced
      | Inl e \<Rightarrow> bind (ignore (sync_send os (h_codec h) (Failed (display (h_codec h) e)))) (\<lambda>_. ret (Exits 1)))
      (\<lambda>r tr. case x of Inr u \<Rightarrow> r = Inr Image_Replaced \<and> tr = []
        | Inl e \<Rightarrow> r = Inr (Exits 1) \<and> length (sync_events tr) \<le> 1 \<and> (\<forall>t. reported (h_codec h) (t @ tr)))" for x
    using report_emits [of os "h_codec h"] by (cases x) (auto intro: emits_ret)
  fix x r t1 t2
  assume a: "\<exists>q. Inr x = (Inr q :: error + (error + unit)) \<and> (case q of
      Inr u \<Rightarrow> matched (h_codec h) (child_act user) (Inr Awaits_Group) t1 (Inr Parked) 0
    | Inl e \<Rightarrow> \<exists>l k. k \<le> 1 \<and> matched (h_codec h) (child_act user) (Inr Awaits_Group) t1 (Inr l) k)"
   and b: "case x of Inr u \<Rightarrow> r = Inr Image_Replaced \<and> t2 = []
        | Inl e \<Rightarrow> r = Inr (Exits 1) \<and> length (sync_events t2) \<le> 1 \<and> (\<forall>t. reported (h_codec h) (t @ t2))"
  show "\<exists>ending l k. r = Inr ending \<and> matched (h_codec h) (child_act user) (Inr Awaits_Group) (t1 @ t2) l k
      \<and> child_end (h_codec h) ending l k (t1 @ t2)"
  proof (cases x)
    case (Inl e)
    with a obtain l k where "k \<le> 1" "matched (h_codec h) (child_act user) (Inr Awaits_Group) t1 (Inr l) k" by auto
    with matched_tail [OF this(2), of t2] b Inl show ?thesis
      by (intro exI [of _ "Exits 1"] exI [of _ "Inr l"] exI) (auto simp: child_end_def)
  next
    case (Inr u)
    with a b show ?thesis by (intro exI [of _ Image_Replaced] exI [of _ "Inr Parked"] exI [of _ 0]) (simp add: child_end_def)
  qed
qed auto

lemma follows_fork:
  assumes "\<And>c. A l (Forks c) = Some (g c)"
  shows "follows cd A l (checked raw_syscall (os_num os) (Proc Fork)) (\<lambda>child l'. l' = g child)"
  unfolding follows_emits
proof (rule emits_checked)
  fix x show "case Inr x of Inr x \<Rightarrow> \<exists>l'. matched cd A l [(Proc Fork, None)] l' 0 \<and> l' = g x
      | Inl e \<Rightarrow> \<exists>l' k. k \<le> 1 \<and> matched cd A l [(Proc Fork, None)] l' k"
    using matched_one [of "[(Proc Fork, None)]" "(Proc Fork, None)" cd "Forks x" A l "g x"] assms
    by (simp add: sync_events_def)
next
  fix e :: errno
  have "matched cd A l [(Proc Fork, Some e)] l 1" by (rule matched_lost) (simp add: sync_events_def)
  then show "case Inl (Syscall e) of Inr x \<Rightarrow> \<exists>l'. matched cd A l [(Proc Fork, Some e)] l' 0 \<and> l' = g x
      | Inl e' \<Rightarrow> \<exists>l' k. k \<le> 1 \<and> matched cd A l [(Proc Fork, Some e)] l' k"
    by fastforce
qed

definition user_ns :: "plan \<Rightarrow> bool" where
  "user_ns p = contains_flags (plan_unshare p) CLONE_NEWUSER"

lemma namespaces_quiet:
  "only (\<lambda>c. \<not> sync_call c) (join_existing os p)"
  "only (\<lambda>c. \<not> sync_call c) (for_each (unshare_one os p) nfs)"
  "only (\<lambda>c. \<not> sync_call c) (become_root_in_namespace os)"
  unfolding join_existing_def become_root_in_namespace_def
  by (auto intro!: hoare simp: join_one_def unshare_one_def unshare_def write_time_offsets_def split: prod.split)

lemma follows_map_user:
  "follows cd (child_act (user_ns p)) (Inl Unsharing) (map_user os cd p) (\<lambda>u l. l = Inl (if user_ns p then Mapped else Unsharing))"
proof (cases "user_ns p")
  case True
  have accepted: "UserMappingDone = m" if "message_name m = ''UserMappingDone''" for m
    using that by (cases m) (auto simp: message_name_def)
  have "follows cd (child_act True) (Inl Unsharing) (bind (rec_begin os ''unshare.user.map'') (\<lambda>_.
        bind (sync_send os cd RequestUserMapping) (\<lambda>_.
        bind (sync_expect os cd ''UserMappingDone'') (\<lambda>_.
          become_root_in_namespace os)))) (\<lambda>u l. l = Inl Mapped)"
    by (rule follows_skip, intro hoare, simp, rule follows_bind, rule follows_send [where l' = "Inl Awaits_Mapping"], simp, simp only:,
        rule follows_bind, rule follows_expect [where g = "\<lambda>m. Inl (if m = UserMappingDone then Mapped else Mid_Confused)"], simp,
        rule follows_weaken, rule follows_quiet, rule namespaces_quiet) (auto dest: accepted)
  with True show ?thesis by (simp add: map_user_def do_when_def user_ns_def)
qed (simp add: map_user_def do_when_def user_ns_def follows_ret)

lemma reported_append: "reported cd t2 \<Longrightarrow> reported cd (t1 @ t2)"
  by (fastforce simp: reported_def)

lemma child_end_append: "child_end cd ending l k t2 \<Longrightarrow> child_end cd ending l k (t1 @ t2)"
  by (auto simp: child_end_def reported_append split: ending.splits)

lemma child_end_exits: "child_end cd (Exits 0) l k tr \<longleftrightarrow> k = 0 \<and> l = Inl Mid_Ended"
  by (simp add: child_end_def)

lemma speaks_ret: "Q x l 0 [] \<Longrightarrow> speaks cd A l (ret x) Q"
  unfolding speaks_def by (rule emits_ret) (auto intro!: exI [of _ l] exI [of _ 0] matched_Nil simp: sync_events_def)

lemma speaks_stage_one:
  "speaks (h_codec h) (child_act (user_ns p)) (Inl Unsharing) (stage_one os h p) (child_end (h_codec h))"
proof -
  let ?A = "child_act (user_ns p)" and ?cd = "h_codec h"
  have report: "speaks ?cd ?A (Inl (Has_Forked child)) (bind (rec_take os) (\<lambda>phases.
         bind (sync_send os ?cd (InitPid child phases)) (\<lambda>_. ret (Exits 0)))) (child_end ?cd)" for child
    by (rule speaks_bind, rule follows_quiet, intro hoare, simp, rule speaks_bind, rule follows_send, simp, simp only:)
       (auto intro!: speaks_ret child_end_append simp: child_end_exits)
  have init: "speaks ?cd ?A (Inr Awaits_Group) (bind (attempt (container_init os h p)) (\<lambda>r. case r of
       Inr u \<Rightarrow> ret Image_Replaced
     | Inl e \<Rightarrow> bind (ignore (sync_send os ?cd (Failed (display ?cd e)))) (\<lambda>_. ret (Exits 1)))) (child_end ?cd)"
    unfolding speaks_def by (rule emits_weaken [OF init_branch [where user = "user_ns p"]]) (clarsimp, blast)
  have fork: "?A (Inl (if user_ns p then Mapped else Unsharing)) (Forks c) = Some (if c = 0 then Inr Awaits_Group else Inl (Has_Forked c))" for c
    by (simp add: mid_act_forks)
  show ?thesis
    unfolding stage_one_def
    by (rule speaks_bind, rule follows_quiet, intro hoare, simp, rule speaks_bind, rule follows_quiet, intro hoare, simp,
        rule speaks_bind, rule follows_quiet, rule namespaces_quiet, rule speaks_bind, rule follows_quiet, rule namespaces_quiet,
        rule speaks_bind, simp only:, rule follows_map_user, rule speaks_bind, simp only:, rule follows_quiet, intro hoare, simp,
        rule speaks_bind, simp only:, rule follows_fork, rule fork)
       (auto intro!: report init child_end_append)
qed

lemma intermediate_ends:
  "emits (intermediate os h p) (\<lambda>r tr. \<exists>ending l k. r = Inr ending
      \<and> matched (h_codec h) (child_act (user_ns p)) (Inl Unsharing) tr l k \<and> child_end (h_codec h) ending l k tr)"
  unfolding intermediate_def
proof (rule emits_bind)
  let ?cd = "h_codec h" and ?A = "child_act (user_ns p)"
  show "emits (attempt (stage_one os h p)) (\<lambda>r tr. \<exists>q. r = Inr q \<and> (case q of
      Inr ending \<Rightarrow> \<exists>l k. matched ?cd ?A (Inl Unsharing) tr l k \<and> child_end ?cd ending l k tr
    | Inl e \<Rightarrow> \<exists>l k. k \<le> 1 \<and> matched ?cd ?A (Inl Unsharing) tr l k))"
    by (rule emits_attempt, rule emits_weaken [OF speaks_stage_one [unfolded speaks_def]]) auto
  show "emits (case x of Inr ending \<Rightarrow> ret ending
      | Inl e \<Rightarrow> bind (ignore (sync_send os ?cd (Failed (display ?cd e)))) (\<lambda>_. ret (Exits 1)))
      (\<lambda>r tr. case x of Inr ending \<Rightarrow> r = Inr ending \<and> tr = []
        | Inl e \<Rightarrow> r = Inr (Exits 1) \<and> length (sync_events tr) \<le> 1 \<and> (\<forall>t. reported ?cd (t @ tr)))" for x
    using report_emits [of os ?cd] by (cases x) (auto intro: emits_ret)
  fix x r t1 t2
  assume a: "\<exists>q. Inr x = (Inr q :: error + (error + ending)) \<and> (case q of
      Inr ending \<Rightarrow> \<exists>l k. matched ?cd ?A (Inl Unsharing) t1 l k \<and> child_end ?cd ending l k t1
    | Inl e \<Rightarrow> \<exists>l k. k \<le> 1 \<and> matched ?cd ?A (Inl Unsharing) t1 l k)"
   and b: "case x of Inr ending \<Rightarrow> r = Inr ending \<and> t2 = []
        | Inl e \<Rightarrow> r = Inr (Exits 1) \<and> length (sync_events t2) \<le> 1 \<and> (\<forall>t. reported ?cd (t @ t2))"
  show "\<exists>ending l k. r = Inr ending \<and> matched ?cd ?A (Inl Unsharing) (t1 @ t2) l k \<and> child_end ?cd ending l k (t1 @ t2)"
  proof (cases x)
    case (Inl e)
    with a obtain l k where "k \<le> 1" "matched ?cd ?A (Inl Unsharing) t1 l k" by auto
    with matched_tail [OF this(2), of t2] b Inl show ?thesis
      by (intro exI [of _ "Exits 1"] exI [of _ l] exI) (auto simp: child_end_def)
  next
    case (Inr ending)
    with a b show ?thesis by auto
  qed
qed auto


end
