(* ===== verification/Isolation.thy ===== *)
theory Isolation
  imports Handshake
begin

section \<open>What reaches the host (container/)\<close>

text \<open>
  Two kinds of calls would change the host for everybody: those on its mounts, devices and root directory
  (\<open>mount_work\<close>) and those on its names (\<open>name_work\<close>). A program without them is \<open>host_free\<close>. The theory
  finds the parts of a creation that are, and follows the others down to the init: they come after the
  namespace that confines them was left.
\<close>

subsection \<open>Calls that change the host\<close>

fun mount_work :: "call \<Rightarrow> bool" where
  "mount_work (Mnt c) = True"
| "mount_work c = False"

fun name_work :: "call \<Rightarrow> bool" where
  "name_work (Cred (Sethostname n)) = True"
| "name_work (Cred (Setdomainname n)) = True"
| "name_work c = False"

definition host_free :: "('w, 'a) io \<Rightarrow> bool" where
  "host_free m \<longleftrightarrow> only (\<lambda>c. \<not> mount_work c \<and> \<not> name_work c) m"

lemma host_freeD: "host_free m \<Longrightarrow> only (\<lambda>c. \<not> mount_work c) m" "host_free m \<Longrightarrow> only (\<lambda>c. \<not> name_work c) m"
  unfolding host_free_def by (auto elim: only_weaken)

lemma any_free: "host_free m \<Longrightarrow> only (\<lambda>c. True) m"
  unfolding host_free_def by (rule any_call)

lemma hook_free: "hook_call c \<Longrightarrow> \<not> mount_work c \<and> \<not> name_work c"
  by (induction c rule: hook_call.induct) auto

lemma hooks_free: "host_free (hooks_run os cd fuel hks ph st)"
  unfolding host_free_def by (intro only_hooks_run hook_free)

lemma setup_free:
  "host_free (ns_layout_of os b)" "host_free (cg_create os path)" "host_free (cg_apply os cg r)"
  "host_free (build_overlay os u p ov)" "host_free (fifo_create os f)" "host_free (open_socket os so)"
  "host_free (destroy os cg)" "host_free (teardown os fuel cg)"
  unfolding host_free_def
proof -
  let ?P = "\<lambda>c. \<not> mount_work c \<and> \<not> name_work c"
  have scan: "only ?P (scan_namespaces os nss create join)" for nss create join
    by (induction nss arbitrary: create join) (auto intro!: hoare split: option.split)
  have groups: "only ?P (create_groups os cur cs)" for cur cs
    by (induction cs arbitrary: cur)
       (auto simp: delegate_def missing_controllers_def read_list_def Let_def intro!: hoare split: component.split)
  have drain: "only ?P (drain os n)" for n
    by (induction n) (auto intro!: hoare split: sum.split)
  have await: "only ?P (await_empty os fuel cg n)" for n
    by (induction n) (auto simp: cg_procs_def intro!: hoare drain split: sum.split)
  have gone: "\<not> mount_work c \<and> \<not> name_work c" if "destroy_call cg c" for c
    using that by (cases c) (auto simp: destroy_call_def)
  show "only ?P (ns_layout_of os b)" by (simp add: ns_layout_of_def scan)
  show "only ?P (cg_create os path)"
    unfolding cg_create_def is_unified_def by (auto intro!: hoare groups)
  show "only ?P (cg_apply os cg r)" by (rule only_cg_apply) simp
  show "only ?P (build_overlay os u p ov)"
    unfolding build_overlay_def prepare_def prepare_writable_def require_dir_def check_lower_def check_same_filesystem_def
      canonicalize_def prepare_merged_def
    by (auto intro!: hoare split: option.split)
  show "only ?P (fifo_create os f)" unfolding fifo_create_def by (auto intro!: hoare)
  show "only ?P (open_socket os so)" unfolding open_socket_def by (auto intro!: hoare)
  show "only ?P (destroy os cg)" by (rule only_weaken [OF only_destroy gone])
  show "only ?P (teardown os fuel cg)"
    unfolding teardown_def kill_all_ignoring_def send_signal_def cg_procs_def by (auto intro!: hoare await)
qed

lemma handshake_free: "host_free (handshake os h child p cg l opts f)"
proof -
  note hooks = hooks_free [unfolded host_free_def]
  show ?thesis
    unfolding host_free_def handshake_def record_container_def map_intermediate_def init_pid_def is_root_def add_process_def Let_def
    by (auto intro!: hoare hooks split: message.split)
qed

lemma init_parts_free:
  "host_free (init_program os p)" "host_free (init_limits os p)" "host_free (init_security os h b)" "host_free (init_handoff os h p st pae)"
  "host_free (map_user os cd p)" "host_free (join_existing os p)" "host_free (for_each (unshare_one os p) nfs)"
proof -
  let ?P = "\<lambda>c. \<not> mount_work c \<and> \<not> name_work c"
  have names: "only ?P (add_names os so v r ns k)" for so v r ns k
    by (induction ns arbitrary: k) (auto simp: scmp_def intro!: hoare split: option.split)
  have rules: "only ?P (add_syscalls os so rs k)" for so rs k
    by (induction rs arbitrary: k) (auto intro!: hoare names)
  have seccomp: "only ?P (load_seccomp os h b)" for b
    unfolding load_seccomp_def seccomp_apply_def
    by (auto simp: scmp_def intro!: hoare rules split: option.split)
  have credentials: "only ?P (init_credentials os h nnp sp)" for nnp sp
    unfolding init_credentials_def drop_bounding_def drop_privileges_def keep_caps_across_setuid_def caps_apply_def
      raise_ambient_def set_no_new_privs_def Let_def
    by (auto intro!: hoare split: option.split)
  show "host_free (init_security os h b)"
    unfolding host_free_def init_security_def Let_def by (auto intro!: hoare seccomp credentials split: option.split)
  show "host_free (init_program os p)" "host_free (init_limits os p)"
    unfolding host_free_def init_program_def init_limits_def apply_limits_def apply_oom_score_adj_def apply_umask_def Let_def
    by (auto intro!: hoare split: option.split)
  show "host_free (init_handoff os h p st pae)"
    unfolding host_free_def init_handoff_def fifo_park_def unblock_all_def
    by (auto intro!: hoare hooks_free [unfolded host_free_def] split: prod.split)
  show "host_free (map_user os cd p)" "host_free (join_existing os p)" "host_free (for_each (unshare_one os p) nfs)"
    unfolding host_free_def map_user_def become_root_in_namespace_def join_existing_def
    by (auto intro!: hoare simp: join_one_def unshare_one_def unshare_def write_time_offsets_def split: prod.split)
qed

subsection \<open>The init\<close>

lemma any_init: "only (\<lambda>c. True) (container_init os h p)"
  using follows_init unfolding follows_emits only_def by (rule emits_weaken) (simp add: list_all_iff)

lemma tree_names: "tree_call c \<Longrightarrow> \<not> name_work c"
  by (induction c rule: tree_call.induct) auto

lemma console_names: "console_call c \<Longrightarrow> \<not> name_work c"
  by (induction c rule: console_call.induct) auto

lemma sysctl_mounts: "only (\<lambda>c. \<not> mount_work c) (sysctl_apply os kvs)"
  unfolding sysctl_apply_def by (auto intro!: hoare split: prod.split)

lemma init_without_mounts:
  assumes "\<not> contains_flags (plan_unshare p) CLONE_NEWNS"
  shows "only (\<lambda>c. \<not> mount_work c) (container_init os h p)"
proof -
  note free = init_parts_free [THEN host_freeD(1)] hooks_free [THEN host_freeD(1)]
  have parts: "only (\<lambda>c. \<not> mount_work c) (init_rootfs os h p st)" "only (\<lambda>c. \<not> mount_work c) (init_harden os p)"
    "only (\<lambda>c. \<not> mount_work c) (init_identity os p)" for st
    using assms unfolding init_rootfs_def init_harden_def init_identity_def set_domainname_def Let_def
    by (auto intro!: hoare free sysctl_mounts split: option.split)
  show ?thesis
    unfolding container_init_def unshare_def Let_def
    by (auto intro!: hoare free parts split: message.split)
qed

lemma init_without_names:
  assumes "bun_hostname (plan_bundle p) = None" "bun_domainname (plan_bundle p) = None"
  shows "only (\<lambda>c. \<not> name_work c) (container_init os h p)"
proof -
  note free = init_parts_free [THEN host_freeD(2)] hooks_free [THEN host_freeD(2)]
  note tree = only_tree_parts [THEN only_weaken, OF tree_names]
  have pivot: "only (\<lambda>c. \<not> name_work c) (pivot os r)" for r
    unfolding pivot_def by (auto intro!: hoare)
  have parts: "only (\<lambda>c. \<not> name_work c) (init_rootfs os h p st)" "only (\<lambda>c. \<not> name_work c) (init_harden os p)"
    "only (\<lambda>c. \<not> name_work c) (init_identity os p)" for st
    using assms unfolding init_rootfs_def init_harden_def init_identity_def Let_def
    by (auto intro!: hoare free tree pivot only_console_setup [OF console_names] split: option.split)
  show ?thesis
    unfolding container_init_def unshare_def Let_def
    by (auto intro!: hoare free parts split: message.split)
qed

subsection \<open>The intermediate process\<close>

lemma ensures_for_each:
  assumes "x \<in> set xs" "ensures P (f x)" "\<And>y. only (\<lambda>c. True) (f y)"
  shows "ensures P (for_each f xs)"
  using assms(1)
proof (induction xs)
  case (Cons y ys)
  have rest: "only (\<lambda>c. True) (for_each f zs)" for zs by (intro hoare assms(3))
  show ?case
  proof (cases "x = y")
    case True
    with assms(2) show ?thesis by (auto intro: ensures_bind1 rest)
  next
    case False
    with Cons show ?thesis by (auto intro: ensures_bind2 assms(3))
  qed
qed simp

lemma guarded_intermediate:
  assumes "guarded P Q (stage_one os h p)" "\<And>b. \<not> Q (Sync_Call (Sock_Send b))"
  shows "guarded P Q (intermediate os h p)"
  unfolding intermediate_def
  by (rule guarded_bind, rule guarded_attempt, rule assms(1), rule guarded_only)
     (auto intro!: hoare assms(2) split: sum.split)

lemma stage_one_free:
  assumes "only (\<lambda>c. \<not> Q c) (container_init os h p)" "\<And>m. host_free m \<Longrightarrow> only (\<lambda>c. \<not> Q c) (m :: ('w, unit) io)"
    and "\<And>c. Q c \<Longrightarrow> mount_work c \<or> name_work c"
  shows "guarded P Q (stage_one (os :: 'w os) h p)"
proof (rule guarded_only)
  have simple: "\<not> Q (Misc c)" "\<not> Q (Proc d)" "\<not> Q (Sync_Call e)" for c d e
    using assms(3) by fastforce+
  show "only (\<lambda>c. \<not> Q c) (stage_one os h p)"
    unfolding stage_one_def by (auto intro!: hoare assms(1) init_parts_free(5-7) [THEN assms(2)] simple split: sum.split)
qed

lemma stage_one_tail:
  "only (\<lambda>c. True) (bind (map_user os cd p) (\<lambda>_.
     bind (rec_begin os ''fork.init'') (\<lambda>_.
     bind (checked raw_syscall (os_num os) (Proc Fork)) (\<lambda>child.
       if child \<noteq> 0 then
         bind (rec_take os) (\<lambda>phases.
         bind (sync_send os cd (InitPid child phases)) (\<lambda>_. ret (Exits 0)))
       else
         bind (attempt (container_init os h p)) (\<lambda>r.
           case r of
             Inr u \<Rightarrow> ret Image_Replaced
           | Inl e \<Rightarrow>
               bind (ignore (sync_send os cd (Failed (display cd e)))) (\<lambda>_.
                 ret (Exits 1)))))))"
  by (auto intro!: hoare any_init init_parts_free [THEN any_free] split: sum.split)

lemma unshare_first:
  assumes "contains_flags (plan_unshare p) flag" "(name, flag) \<in> set unshare_order"
    "only (\<lambda>c. \<not> Q c) (for_each (unshare_one os p) unshare_order)" "only (\<lambda>c. \<not> Q c) (join_existing os p)"
    "\<not> Q (Misc Monotonic_Us)" "\<not> Q (Misc Wall_Clock_Ns)" "P (Proc (Unshare flag), None)"
  shows "guarded P Q (stage_one os h p)"
proof -
  have one: "only (\<lambda>c. True) (unshare_one os p nf)" for nf
    unfolding unshare_one_def unshare_def write_time_offsets_def by (auto intro!: hoare split: prod.split)
  have "ensures P (unshare_one os p (name, flag))"
    unfolding unshare_one_def unshare_def prod.case if_not_P [OF iffD2 [OF not_not assms(1)]]
    by (rule ensures_bind2, intro hoare, simp, rule ensures_bind1, rule ensures_checked, rule assms)
       (auto intro!: hoare simp: write_time_offsets_def)
  from ensures_for_each [where f = "unshare_one os p", OF assms(2) this one]
  have made: "ensures P (for_each (unshare_one os p) unshare_order)" .
  show ?thesis
    unfolding stage_one_def
    by (rule guarded_skip, intro hoare assms, rule guarded_skip, intro hoare assms, rule guarded_skip, rule assms,
        rule guarded_then, rule guarded_only, rule assms, rule made, rule stage_one_tail)
qed

lemma join_first:
  assumes "(kind, path) \<in> set (plan_join p)" "only (\<lambda>c. \<not> Q c) (join_existing os p)"
    "\<not> Q (Misc Monotonic_Us)" "\<not> Q (Misc Wall_Clock_Ns)" "\<And>f. P (Proc (Setns f (kind_flag kind)), None)"
  shows "guarded P Q (stage_one os h p)"
proof -
  have one: "only (\<lambda>c. True) (join_one os kp)" for kp
    unfolding join_one_def by (auto intro!: hoare split: prod.split)
  have "ensures P (join_one os (kind, path))"
    unfolding join_one_def prod.case flag_for_def
    by (auto intro!: ensures_bind2 ensures_checked hoare assms)
  from ensures_for_each [where f = "join_one os", OF assms(1) this one]
  have made: "ensures P (join_existing os p)" by (simp add: join_existing_def)
  show ?thesis
    unfolding stage_one_def
    by (rule guarded_skip, intro hoare assms, rule guarded_skip, intro hoare assms,
        rule guarded_then, rule guarded_only, rule assms, rule made, rule only_bind)
       (auto intro: init_parts_free [THEN any_free] stage_one_tail)
qed


lemma unshare_order_has: "(''mnt'', CLONE_NEWNS) \<in> set unshare_order" "(''uts'', CLONE_NEWUTS) \<in> set unshare_order"
  by (simp_all add: unshare_order_def)

lemma intermediate_mounts:
  "guarded (\<lambda>ev. ev = (Proc (Unshare CLONE_NEWNS), None)) mount_work (intermediate os h p)"
proof (rule guarded_intermediate)
  show "guarded (\<lambda>ev. ev = (Proc (Unshare CLONE_NEWNS), None)) mount_work (stage_one os h p)"
  proof (cases "contains_flags (plan_unshare p) CLONE_NEWNS")
    case True
    show ?thesis
      by (rule unshare_first [OF True unshare_order_has(1) host_freeD(1) [OF init_parts_free(7)] host_freeD(1) [OF init_parts_free(6)]])
         simp_all
  next
    case False
    show ?thesis by (rule stage_one_free [OF init_without_mounts [OF False] host_freeD(1)]) simp_all
  qed
qed simp

definition uts_changed :: "event \<Rightarrow> bool" where
  "uts_changed ev \<longleftrightarrow> ev = (Proc (Unshare CLONE_NEWUTS), None) \<or> (\<exists>f. ev = (Proc (Setns f CLONE_NEWUTS), None))"

lemma intermediate_names:
  assumes "bun_hostname (plan_bundle p) \<noteq> None \<or> bun_domainname (plan_bundle p) \<noteq> None \<Longrightarrow>
    contains_flags (plan_unshare p) CLONE_NEWUTS \<or> (\<exists>path. (Ns_Uts, path) \<in> set (plan_join p))"
  shows "guarded uts_changed name_work (intermediate os h p)"
proof (rule guarded_intermediate)
  show "guarded uts_changed name_work (stage_one os h p)"
  proof (cases "bun_hostname (plan_bundle p) \<noteq> None \<or> bun_domainname (plan_bundle p) \<noteq> None")
    case True
    from assms [OF this] consider (created) "contains_flags (plan_unshare p) CLONE_NEWUTS"
      | (joined) path where "(Ns_Uts, path) \<in> set (plan_join p)" by blast
    then show ?thesis
    proof cases
      case created
      show ?thesis
        by (rule unshare_first [OF created unshare_order_has(2) host_freeD(2) [OF init_parts_free(7)] host_freeD(2) [OF init_parts_free(6)]])
           (simp_all add: uts_changed_def)
    next
      case joined
      show ?thesis
        by (rule join_first [OF joined host_freeD(2) [OF init_parts_free(6)]]) (simp_all add: uts_changed_def kind_flag_def)
    qed
  next
    case False
    then have "bun_hostname (plan_bundle p) = None" "bun_domainname (plan_bundle p) = None" by auto
    from stage_one_free [OF init_without_names [OF this] host_freeD(2)] show ?thesis by simp
  qed
qed simp

subsection \<open>Creating a container\<close>

lemma guarded_known:
  assumes "guarded P Q m" "\<And>s x s'. m s = (Inr x, s') \<Longrightarrow> K x" "\<And>x. K x \<Longrightarrow> guarded P Q (f x)"
  shows "guarded P Q (bind m f)"
  unfolding guarded_def emits_def
proof (intro allI impI)
  fix s r s' assume run: "bind m f s = (r, s')"
  obtain q s1 where m: "m s = (q, s1)" by (cases "m s")
  from guarded_trace [OF assms(1) m] obtain t1 where t1: "st_trace s1 = st_trace s @ t1" "after P Q t1" by blast
  show "\<exists>tr. st_trace s' = st_trace s @ tr \<and> after P Q tr"
  proof (cases q)
    case (Inl e)
    with run m t1 show ?thesis by (auto simp: bind_def)
  next
    case (Inr x)
    with run m have "f x s1 = (r, s')" by (simp add: bind_def)
    from guarded_trace [OF assms(3) this] assms(2) m Inr obtain t2 where
      "st_trace s' = st_trace s1 @ t2" "after P Q t2" by blast
    with t1 show ?thesis by (intro exI [of _ "t1 @ t2"]) (simp add: after_append)
  qed
qed

lemma guarded_sum:
  "(\<And>e. guarded P Q (f e)) \<Longrightarrow> (\<And>x. guarded P Q (g x)) \<Longrightarrow> guarded P Q (case r of Inl e \<Rightarrow> f e | Inr x \<Rightarrow> g x)"
  by (cases r) simp_all

lemma guarded_spawn:
  assumes "\<And>fifo console. guarded P Q (intermediate os h \<lparr>plan_bundle = b, plan_rootfs = rootfs, plan_overlay = overlay,
      plan_unshare = u, plan_join = join, plan_cgroup_ns = ns, plan_fifo = fifo, plan_console = console, plan_state = creating_state b opts\<rparr>)"
    and "\<And>c. Q c \<Longrightarrow> mount_work c \<or> name_work c"
  shows "guarded P Q (spawn os h l b opts rootfs overlay u join ns cg)"
proof -
  have free: "only (\<lambda>c. \<not> Q c) m" if "host_free m" for m :: "('v, 'x) io"
    using that unfolding host_free_def by (rule only_weaken) (use assms(2) in blast)
  have simple: "\<not> Q (Misc c)" "\<not> Q (Proc d)" "\<not> Q (Sync_Call e)" "\<not> Q (Fs g)" for c d e g
    using assms(2) by fastforce+
  have parent: "only (\<lambda>c. \<not> Q c) (spawn_parent os h child p cg l opts f)" for child p f
    unfolding spawn_parent_def
    by (auto intro!: hoare only_attempt simple intro: handshake_free [THEN free] setup_free [THEN free] split: sum.split)
  have socket: "only (\<lambda>c. \<not> Q c) (case co of Some p \<Rightarrow> bind (open_socket os p) (\<lambda>f. ret (Some f)) | None \<Rightarrow> ret None)" for co
    by (auto intro!: hoare free [OF setup_free(6)] split: option.split)
  have block: "only (\<lambda>c. \<not> Q c) (block_forwardable os)" "only (\<lambda>c. \<not> Q c) (sync_pair os)"
    unfolding block_forwardable_def sync_pair_def by (auto intro!: hoare simple)
  show ?thesis
    unfolding spawn_def Let_def
    by (rule guarded_skip, rule free, rule setup_free, rule guarded_skip, rule socket, rule guarded_skip, intro hoare simple,
        rule guarded_skip, rule block, rule guarded_skip, rule block, rule guarded_skip, intro hoare simple,
        rule guarded_skip, intro hoare simple, rule guarded_skip, intro hoare simple, rule guarded_if,
        rule guarded_bind, rule assms(1), rule guarded_only, intro hoare, rule guarded_bind, rule guarded_only, rule parent,
        rule guarded_only, intro hoare)
qed

lemma contains_without: "contains_flags f (kind_flag k) \<Longrightarrow> k \<noteq> j \<Longrightarrow> contains_flags (without f (kind_flag j)) (kind_flag k)"
proof -
  assume "contains_flags f (kind_flag k)" "k \<noteq> j"
  then have "contains_kind (without f (kind_flag j)) k"
    by (auto simp: contains_flags_def contains_kind_def [symmetric] contains_kind_bit without_def bit_and_iff bit_not_iff
        bit_kind_flag kind_bit_inj dest: bit_imp_le_length)
  then show ?thesis by (simp add: contains_flags_def contains_kind_def)
qed

lemma guarded_create:
  assumes "\<And>s nss s' fifo console rootfs overlay ns. ns_layout_of os (bun_namespaces b) s = (Inr nss, s') \<Longrightarrow>
      guarded P Q (intermediate os h \<lparr>plan_bundle = b, plan_rootfs = rootfs, plan_overlay = overlay,
        plan_unshare = without (nsl_create nss) CLONE_NEWCGROUP, plan_join = nsl_join nss, plan_cgroup_ns = ns,
        plan_fifo = fifo, plan_console = console, plan_state = creating_state b opts\<rparr>)"
    and "\<And>c. Q c \<Longrightarrow> mount_work c \<or> name_work c"
  shows "guarded P Q (container_create os h l b opts)"
proof -
  have free: "only (\<lambda>c. \<not> Q c) m" if "host_free m" for m :: "('v, 'x) io"
    using that unfolding host_free_def by (rule only_weaken) (use assms(2) in blast)
  have simple: "\<not> Q (Misc c)" "\<not> Q (Proc d)" "\<not> Q (Sync_Call e)" "\<not> Q (Fs g)" for c d e g
    using assms(2) by fastforce+
  have limited: "guarded P Q (with_cgroup os cg limits m)" if "guarded P Q m" for cg limits and m :: "('a, 'c) io"
    unfolding with_cgroup_def
    by (rule guarded_bind, rule guarded_only, intro hoare free [OF setup_free(3)], rule guarded_sum, rule guarded_only,
        intro hoare free [OF setup_free(7)], rule guarded_bind, rule guarded_attempt, rule that, rule guarded_sum)
       (auto intro!: guarded_only hoare free [OF setup_free(7)])
  have build: "guarded P Q (build os h l b opts)"
    unfolding build_def Let_def
    by (rule guarded_skip, intro hoare, rule guarded_skip, intro hoare simple,
        rule guarded_known [where K = "\<lambda>nss. \<exists>s s'. ns_layout_of os (bun_namespaces b) s = (Inr nss, s')"],
        rule guarded_only, rule free, rule setup_free, blast,
        rule guarded_skip, intro hoare, rule guarded_skip, intro hoare, rule guarded_skip, rule free, rule setup_free,
        rule guarded_skip, intro hoare simple, rule guarded_if, rule guarded_only, intro hoare,
        rule guarded_skip, intro hoare simple, rule guarded_skip, rule free, rule setup_free,
        rule limited, rule guarded_spawn, elim exE, rule assms(1), assumption, rule assms(2))
  have load: "only (\<lambda>c. \<not> Q c) (container_load os cd l cid)" "only (\<lambda>c. \<not> Q c) (container_status os c)"
    "only (\<lambda>c. \<not> Q c) (layout_exists os l cid)" for cd cid c
    unfolding container_load_def container_status_def alive_def layout_exists_def Let_def by (auto intro!: hoare simple)
  show ?thesis
    unfolding container_create_def Let_def
    by (rule guarded_skip, rule load, rule guarded_if, rule guarded_only, intro hoare load,
        rule guarded_skip, intro hoare simple, rule guarded_bind, rule guarded_attempt, rule build,
        auto intro!: guarded_only hoare simple split: sum.split)
qed


subsection \<open>The host stays as it was\<close>

lemma linked_uts:
  assumes "validate_spec (bun_spec b) = Inr ()" "bun_hostname b \<noteq> None \<or> bun_domainname b \<noteq> None"
  shows "Ns_Uts \<in> ns_typ ` set (bun_namespaces b)"
  using assms validate_spec_ok [of "bun_spec b"]
  by (auto simp: valid_spec_def bun_hostname_def bun_domainname_def bun_namespaces_def linux_list_def spec_namespaces_def)

lemma uts_planned:
  assumes "validate_spec (bun_spec b) = Inr ()" "ns_layout_of os (bun_namespaces b) s = (Inr nss, s')"
    and "bun_hostname b \<noteq> None \<or> bun_domainname b \<noteq> None"
  shows "contains_flags (without (nsl_create nss) CLONE_NEWCGROUP) CLONE_NEWUTS \<or> (\<exists>path. (Ns_Uts, path) \<in> set (nsl_join nss))"
proof -
  have "Ns_Uts \<in> ns_typ ` set (bun_namespaces b)"
    using assms(1,3) linked_uts by blast
  then obtain ns where ns: "ns \<in> set (bun_namespaces b)" "ns_typ ns = Ns_Uts" by auto
  note spec = scan_spec [OF assms(2) [unfolded ns_layout_of_def]]
  show ?thesis
  proof (cases "joined ns")
    case None
    with spec ns have "contains_kind (nsl_create nss) Ns_Uts" by blast
    then have "contains_flags (nsl_create nss) (kind_flag Ns_Uts)" by (simp add: contains_kind_def contains_flags_def)
    from contains_without [OF this, of Ns_Cgroup] show ?thesis by (simp add: kind_flag_def)
  next
    case (Some kp)
    then obtain path where "kp = (Ns_Uts, path)" using ns(2) by (auto simp: joined_def split: option.splits if_splits)
    with spec ns Some show ?thesis by (force simp: List.map_filter_def)
  qed
qed

lemma names_after_uts:
  assumes "bundle_load os cd given s = (Inr b, s')"
  shows "guarded uts_changed name_work (container_create os h l b opts)"
proof (rule guarded_create)
  have "validate_spec (bun_spec b) = Inr ()"
    using assms by (auto simp: bundle_load_def bind_Inr Let_def ret_Inr lift_Inr split: if_splits)
  from uts_planned [OF this] show "guarded uts_changed name_work (intermediate os h \<lparr>plan_bundle = b, plan_rootfs = rootfs,
      plan_overlay = overlay, plan_unshare = without (nsl_create nss) CLONE_NEWCGROUP, plan_join = nsl_join nss,
      plan_cgroup_ns = ns, plan_fifo = fifo, plan_console = console, plan_state = creating_state b opts\<rparr>)"
    if "ns_layout_of os (bun_namespaces b) t = (Inr nss, t')" for t nss t' fifo console rootfs overlay ns
    by (intro intermediate_names) (use that in auto)
qed simp

end
