(* ===== verification/Lifecycle.thy ===== *)
theory Lifecycle
  imports Commands Isolation
begin

section \<open>Properties of the life cycle\<close>

text \<open>
  What the operations of \<open>Container\<close> and the commands on an existing container promise: an operation acts
  only in the states it is meant for, a failed creation is undone, signals to a whole group are sent
  while it is frozen, a container is deleted only when it has stopped, and a run cleans up after itself.
\<close>

subsection \<open>Operations guarded by the status\<close>

text \<open>The calls that only look.\<close>

fun reading :: "call \<Rightarrow> bool" where
  "reading (Fs (Stat p)) = True"
| "reading (Fs (Read_File p)) = True"
| "reading c = False"

lemma only_load: "only reading (container_load os cd l cid)"
  unfolding container_load_def Let_def by (auto intro!: hoare)

lemma only_status: "only reading (container_status os c)"
  unfolding container_status_def alive_def by (auto intro!: hoare)

text \<open>The contract shared by the operations on an existing container: load it, require a status, act.\<close>

locale lifecycle_operation =
  fixes os :: "'w os" and cd :: codec and l :: layout and cid :: string
    and expected :: "status list" and body :: "container \<Rightarrow> ('w, 'a) io" and operation :: "('w, 'a) io"
  assumes shape: "operation = bind (container_load os cd l cid) (\<lambda>c. bind (require os c expected) (\<lambda>_. body c))"
begin

lemma refused:
  assumes "container_load os cd l cid s = (Inr c, s1)" "container_status os c s1 = (Inr st, s2)" "st \<notin> set expected"
  shows "operation s = (Inl (BadState (con_id c) (status_name st) (join_with '' or '' (map status_name expected))), s2)"
  using assms by (simp add: shape bind_def require_def throw_def)

lemma accepted:
  assumes "container_load os cd l cid s = (Inr c, s1)" "container_status os c s1 = (Inr st, s2)" "st \<in> set expected"
  shows "operation s = body c s2"
  using assms by (simp add: shape bind_def require_def ret_def)

lemma unknown: "container_load os cd l cid s = (Inl e, s1) \<Longrightarrow> operation s = (Inl e, s1)"
  by (simp add: shape bind_def)

lemma success_was_allowed:
  assumes "operation s = (Inr x, s')"
  shows "\<exists>c s1 st s2. container_load os cd l cid s = (Inr c, s1) \<and> container_status os c s1 = (Inr st, s2)
    \<and> st \<in> set expected \<and> body c s2 = (Inr x, s')"
  using assms unfolding shape bind_Inr require_def by (auto simp: ret_Inr split: if_splits)

end

definition start_body :: "'w os \<Rightarrow> host \<Rightarrow> container \<Rightarrow> ('w, unit) io" where
  "start_body os h c =
     bind (fifo_release os (con_exec_fifo c)) (\<lambda>_.
     bind (container_hooks os (h_codec h) c) (\<lambda>hks.
     bind (oci_state_of os c) (\<lambda>st.
       hooks_run os (h_codec h) (h_fuel h) hks Poststart st)))"

definition kill_body :: "'w os \<Rightarrow> signal \<Rightarrow> bool \<Rightarrow> container \<Rightarrow> ('w, unit) io" where
  "kill_body os sig all c =
     (if \<not> all then send_signal os sig (con_pid c) else kill_group os (con_cgroup c) sig)"

definition ps_body :: "'w os \<Rightarrow> host \<Rightarrow> ps_args \<Rightarrow> container \<Rightarrow> ('w, unit) io" where
  "ps_body os h args c =
     bind (cg_procs os (con_cgroup c)) (\<lambda>pids.
       if pa_format args = ''json'' then bind (json (enc_pids (h_codec h) pids)) (println os)
       else if pa_format args = ''table'' then ps_table os pids (pa_ps_options args)
       else throw (Invalid (Command (Unknown_Ps_Format (pa_format args)))))"

definition events_body :: "'w os \<Rightarrow> host \<Rightarrow> events_args \<Rightarrow> container \<Rightarrow> ('w, unit) io" where
  "events_body os h args c =
     (if va_stats args then bind (sample os c) (\<lambda>e. bind (json (enc_event (h_codec h) e)) (println os))
      else bind (lift (parse_interval (va_interval args))) (\<lambda>interval. watch os h c interval (h_fuel h)))"

interpretation start: lifecycle_operation os "h_codec h" l cid "[Created]" "start_body os h" "container_start os h l cid"
  for os h l cid
  by unfold_locales (simp add: container_start_def start_body_def)

interpretation kill: lifecycle_operation os "h_codec h" l cid "[Created, Running, Paused]" "kill_body os sig all"
    "container_kill os h l cid sig all"
  for os h l cid sig all
  by unfold_locales (simp add: container_kill_def kill_body_def)

interpretation pause: lifecycle_operation os "h_codec h" l cid "if paused then [Created, Running] else [Paused]"
    "\<lambda>c. freeze os (con_cgroup c) paused" "container_pause os h l cid paused"
  for os h l cid paused
  by unfold_locales (simp add: container_pause_def)

interpretation update: lifecycle_operation os "h_codec h" l cid "[Created, Running, Paused]"
    "\<lambda>c. cg_apply os (con_cgroup c) r" "container_update os h l cid r"
  for os h l cid r
  by unfold_locales (simp add: container_update_def)

interpretation ps: lifecycle_operation os "h_codec h" l "pa_id args" "[Created, Running, Paused]" "ps_body os h args"
    "cmd_ps os h l args"
  for os h l args
  by unfold_locales (simp add: cmd_ps_def ps_body_def)

interpretation events: lifecycle_operation os "h_codec h" l "va_id args" "[Created, Running, Paused]" "events_body os h args"
    "cmd_events os h l args"
  for os h l args
  by unfold_locales (simp add: cmd_events_def events_body_def)

text \<open>The requests a client can make of an existing container, each with the statuses it needs.\<close>

datatype request =
  Ask_Start | Ask_Kill signal bool | Ask_Pause | Ask_Resume | Ask_Update resources | Ask_Ps ps_args | Ask_Events events_args

fun permits :: "request \<Rightarrow> status list" where
  "permits Ask_Start = [Created]"
| "permits Ask_Pause = [Created, Running]"
| "permits Ask_Resume = [Paused]"
| "permits q = [Created, Running, Paused]"

fun serve :: "'w os \<Rightarrow> host \<Rightarrow> layout \<Rightarrow> string \<Rightarrow> request \<Rightarrow> ('w, unit) io" where
  "serve os h l cid Ask_Start = container_start os h l cid"
| "serve os h l cid (Ask_Kill sig all) = container_kill os h l cid sig all"
| "serve os h l cid Ask_Pause = container_pause os h l cid True"
| "serve os h l cid Ask_Resume = container_pause os h l cid False"
| "serve os h l cid (Ask_Update r) = container_update os h l cid r"
| "serve os h l cid (Ask_Ps args) = cmd_ps os h l (args\<lparr>pa_id := cid\<rparr>)"
| "serve os h l cid (Ask_Events args) = cmd_events os h l (args\<lparr>va_id := cid\<rparr>)"

fun act_on :: "'w os \<Rightarrow> host \<Rightarrow> request \<Rightarrow> container \<Rightarrow> ('w, unit) io" where
  "act_on os h Ask_Start c = start_body os h c"
| "act_on os h (Ask_Kill sig all) c = kill_body os sig all c"
| "act_on os h Ask_Pause c = freeze os (con_cgroup c) True"
| "act_on os h Ask_Resume c = freeze os (con_cgroup c) False"
| "act_on os h (Ask_Update r) c = cg_apply os (con_cgroup c) r"
| "act_on os h (Ask_Ps args) c = ps_body os h args c"
| "act_on os h (Ask_Events args) c = events_body os h args c"

interpretation served: lifecycle_operation os "h_codec h" l cid "permits q" "act_on os h q" "serve os h l cid q"
  for os h l cid q
proof unfold_locales
  show "serve os h l cid q = bind (container_load os (h_codec h) l cid) (\<lambda>c. bind (require os c (permits q)) (\<lambda>_. act_on os h q c))"
    by (cases q) (simp_all add: start.shape kill.shape pause.shape update.shape ps.shape events.shape ps_body_def events_body_def cong: if_cong)
qed

text \<open>C17: an operation on an existing container acts only in a status that permits it. With the container
  loaded and its status observed, \<open>start\<close>, \<open>kill\<close>, \<open>pause\<close>, \<open>resume\<close>, \<open>update\<close>, \<open>ps\<close> and \<open>events\<close> do exactly
  their work when the status is permitted, and otherwise give a \<open>BadState\<close> error that names the status,
  having done nothing but read files; a container that cannot be loaded gives the error of loading.\<close>

theorem requests_guarded:
  assumes "container_load os (h_codec h) l cid s = (Inr c, s1)" "container_status os c s1 = (Inr st, s2)"
  shows "serve os h l cid q s =
      (if st \<in> set (permits q) then act_on os h q c s2
       else (Inl (BadState (con_id c) (status_name st) (join_with '' or '' (map status_name (permits q)))), s2))
    \<and> (\<exists>tr. st_trace s2 = st_trace s @ tr \<and> list_all (\<lambda>ev. reading (fst ev)) tr)"
proof
  show "serve os h l cid q s =
      (if st \<in> set (permits q) then act_on os h q c s2
       else (Inl (BadState (con_id c) (status_name st) (join_with '' or '' (map status_name (permits q)))), s2))"
    using served.accepted [OF assms] served.refused [OF assms] by simp
  from onlyD [OF only_load assms(1)] onlyD [OF only_status assms(2)]
  show "\<exists>tr. st_trace s2 = st_trace s @ tr \<and> list_all (\<lambda>ev. reading (fst ev)) tr" by auto
qed

lemma requests_guarded_witness:
  "fst (serve tree_os sample_host run_root ''a'' Ask_Start (snd (container_save tree_os sample_codec run_root sample_state empty_tree)))
   = Inl (BadState ''a'' ''stopped'' ''created'')"
proof -
  let ?s = "snd (container_save tree_os sample_codec run_root sample_state empty_tree)"
  have load: "fst (container_load tree_os (h_codec sample_host) run_root ''a'' ?s) = Inr \<lparr>con_layout = run_root, con_state = sample_state\<rparr>"
    by code_simp
  have status: "fst (container_status tree_os \<lparr>con_layout = run_root, con_state = sample_state\<rparr>
      (snd (container_load tree_os (h_codec sample_host) run_root ''a'' ?s))) = Inr Stopped"
    by code_simp
  from requests_guarded [OF run_eq [of "container_load tree_os (h_codec sample_host) run_root ''a''", OF load]
      run_eq [of "container_status tree_os \<lparr>con_layout = run_root, con_state = sample_state\<rparr>", OF status], of Ask_Start]
  show ?thesis by (simp add: con_id_def sample_state_def status_name_def)
qed

definition sample_exec :: exec_options where
  "sample_exec = \<lparr>ex_argv = [''/bin/sh''], ex_env = [], ex_cwd = None, ex_process = None, ex_user = None, ex_gids = [],
     ex_console_socket = None, ex_tty = False, ex_detach = True, ex_pid_file = None, ex_ignore_paused = True\<rparr>"

lemma exec_needs_live_witness:
  "\<exists>want. fst (container_exec tree_os sample_host run_root ''a'' sample_exec
     (snd (container_save tree_os sample_codec run_root sample_state empty_tree))) = Inl (BadState ''a'' ''stopped'' want)"
proof -
  let ?s = "snd (container_save tree_os sample_codec run_root sample_state empty_tree)"
  have load: "fst (container_load tree_os (h_codec sample_host) run_root ''a'' ?s) = Inr \<lparr>con_layout = run_root, con_state = sample_state\<rparr>"
    by code_simp
  have status: "fst (container_status tree_os \<lparr>con_layout = run_root, con_state = sample_state\<rparr>
      (snd (container_load tree_os (h_codec sample_host) run_root ''a'' ?s))) = Inr Stopped"
    by code_simp
  from exec_needs_live [OF run_eq [of "container_load tree_os (h_codec sample_host) run_root ''a''", OF load]
      run_eq [of "container_status tree_os \<lparr>con_layout = run_root, con_state = sample_state\<rparr>", OF status], of sample_exec]
  show ?thesis by (auto simp: status_name_def)
qed

subsection \<open>Signals to every process\<close>

definition is_kill :: "call \<Rightarrow> bool" where
  "is_kill c \<longleftrightarrow> (\<exists>p sig. c = Proc (Kill p sig))"

definition writes_freeze :: "cgroup \<Rightarrow> call \<Rightarrow> bool" where
  "writes_freeze cg c \<longleftrightarrow> (\<exists>v. c = Fs (Write_File (join_path (cg_path cg) ''cgroup.freeze'') v))"

definition freeze_write :: "cgroup \<Rightarrow> bool \<Rightarrow> call" where
  "freeze_write cg b = Fs (Write_File (join_path (cg_path cg) ''cgroup.freeze'') (if b then ''1'' else ''0''))"

lemma freeze_head: "emits (freeze os cg b) (\<lambda>r tr. tr \<noteq> [] \<and> fst (hd tr) = freeze_write cg b)"
  unfolding freeze_def
proof (rule emits_bind)
  show "emits (cg_write os cg ''cgroup.freeze'' (if b then ''1'' else ''0'')) (\<lambda>r tr. \<exists>e. tr = [(freeze_write cg b, e)])"
    unfolding cg_write_def freeze_write_def by (rule emits_checked) auto
  show "emits (await_frozen os cg b 500) (\<lambda>r tr. True)" for x :: unit
    by (rule emits_True [OF only_await_frozen [of "\<lambda>c. True", OF TrueI TrueI, unfolded only_def]])
qed auto

lemma freeze_sends_nothing: "only (\<lambda>c. \<not> is_kill c) (freeze os cg b)"
  unfolding freeze_def cg_write_def by (auto intro!: hoare only_await_frozen simp: is_kill_def)

lemma freeze_events:
  assumes "freeze os cg b s = (r, s')"
  obtains tr where "st_trace s' = st_trace s @ tr" "tr \<noteq> []" "fst (hd tr) = freeze_write cg b"
    "list_all (\<lambda>ev. \<not> is_kill (fst ev)) tr"
  using emitsD [OF freeze_head assms] onlyD [OF freeze_sends_nothing assms] that by auto

text \<open>The signals themselves, as the body of \<open>kill_group\<close>.\<close>

abbreviation signal_group :: "'w os \<Rightarrow> cgroup \<Rightarrow> signal \<Rightarrow> ('w, unit) io" where
  "signal_group os cg sig \<equiv> bind (cg_procs os cg) (for_each (send_signal os sig))"

lemma signal_group_frame: "only (\<lambda>c. \<not> writes_freeze cg c) (signal_group os cg sig)"
  unfolding cg_procs_def cg_read_def send_signal_def by (auto intro!: hoare simp: writes_freeze_def)

text \<open>When it succeeds, every process that the group listed got the signal, and no other.\<close>

lemma signal_group_ok:
  assumes "signal_group os cg sig s = (Inr u, s')"
  shows "\<exists>pids s1 tr. cg_procs os cg s = (Inr pids, s1) \<and> st_trace s' = st_trace s @ tr
    \<and> filter (is_kill \<circ> fst) tr = map (\<lambda>p. (Proc (Kill p sig), None)) pids"
proof -
  from assms obtain pids s1 where procs: "cg_procs os cg s = (Inr pids, s1)"
    and sent: "for_each (\<lambda>p. checked raw_syscall (os_unit os) (Proc (Kill p sig))) pids s1 = (Inr u, s')"
    unfolding bind_Inr send_signal_def by blast
  have "only (\<lambda>c. \<not> is_kill c) (cg_procs os cg)"
    unfolding cg_procs_def cg_read_def by (auto intro!: hoare simp: is_kill_def)
  from onlyD [OF this procs] obtain t where t: "st_trace s1 = st_trace s @ t" "list_all (\<lambda>ev. \<not> is_kill (fst ev)) t" by blast
  then have "filter (is_kill \<circ> fst) t = []" by (auto simp: list_all_iff filter_empty_conv)
  with t for_each_checked_ok [OF sent] procs show ?thesis
    by (auto simp: is_kill_def o_def filter_map)
qed

lemma kill_group_run:
  assumes "is_frozen os cg s = (Inr frozen, s1)"
  shows "kill_group os cg sig s =
    (if frozen then signal_group os cg sig s1
     else case freeze os cg True s1 of
       (Inl e, s2) \<Rightarrow> (Inl e, s2)
     | (Inr u, s2) \<Rightarrow>
         (case signal_group os cg sig s2 of
            (result, s3) \<Rightarrow> (case freeze os cg False s3 of (Inl e, s4) \<Rightarrow> (Inl e, s4) | (Inr v, s4) \<Rightarrow> (result, s4))))"
proof -
  define signals where "signals = signal_group os cg sig"
  show ?thesis
    using assms unfolding kill_group_def signals_def [symmetric]
    by (auto simp: bind_def attempt_def lift_def do_when_def ret_def split: prod.splits sum.splits)
qed

text \<open>C18: a signal to every process of a group that is not frozen is sent while the group is frozen: when the
  freeze fails no signal is sent and its error is the result; otherwise the signals all come after the
  completed freeze, and whatever they gave, the group is told to thaw after the last of them. A group
  that was frozen is left so. A \<open>kill\<close> that succeeds has signalled exactly the processes the group listed,
  each once.\<close>

theorem kill_group_freezes_around:
  assumes "is_frozen os cg s = (Inr frozen, s1)" "kill_group os cg sig s = (r, s')"
  shows "\<exists>tr. st_trace s' = st_trace s1 @ tr
    \<and> (frozen \<longrightarrow> list_all (\<lambda>ev. \<not> writes_freeze cg (fst ev)) tr)
    \<and> (\<not> frozen \<longrightarrow> (case freeze os cg True s1 of
         (Inl e, s2) \<Rightarrow> r = Inl e \<and> list_all (\<lambda>ev. \<not> is_kill (fst ev)) tr
       | (Inr v, s2) \<Rightarrow> (\<exists>before sent after. tr = before @ sent @ after \<and> st_trace s2 = st_trace s1 @ before
           \<and> list_all (\<lambda>ev. \<not> is_kill (fst ev)) (before @ after)
           \<and> list_all (\<lambda>ev. \<not> writes_freeze cg (fst ev)) sent
           \<and> after \<noteq> [] \<and> fst (hd after) = freeze_write cg False)))
    \<and> (r = Inr () \<longrightarrow> (\<exists>s2 pids s3. cg_procs os cg s2 = (Inr pids, s3)
         \<and> filter (is_kill \<circ> fst) tr = map (\<lambda>p. (Proc (Kill p sig), None)) pids))"
proof (cases frozen)
  case True
  with assms kill_group_run [OF assms(1)] have run: "signal_group os cg sig s1 = (r, s')" by simp
  from onlyD [OF signal_group_frame run] obtain tr where
    tr: "st_trace s' = st_trace s1 @ tr" "list_all (\<lambda>ev. \<not> writes_freeze cg (fst ev)) tr" by blast
  have "\<exists>s2 pids s3. cg_procs os cg s2 = (Inr pids, s3)
      \<and> filter (is_kill \<circ> fst) tr = map (\<lambda>p. (Proc (Kill p sig), None)) pids" if "r = Inr ()"
    using signal_group_ok [of os cg sig s1 "()" s'] run that tr(1) by fastforce
  with tr True show ?thesis by blast
next
  case False
  obtain q s2 where fr: "freeze os cg True s1 = (q, s2)" by fastforce
  from freeze_events [OF fr] obtain t1 where t1: "st_trace s2 = st_trace s1 @ t1" "list_all (\<lambda>ev. \<not> is_kill (fst ev)) t1"
    by metis
  show ?thesis
  proof (cases q)
    case (Inl e)
    with False fr assms(2) kill_group_run [OF assms(1)] t1 show ?thesis by auto
  next
    case (Inr v)
    obtain result s3 where sent: "signal_group os cg sig s2 = (result, s3)" by fastforce
    obtain q' s4 where th: "freeze os cg False s3 = (q', s4)" by fastforce
    have r: "s' = s4" "r = Inr () \<Longrightarrow> result = Inr ()"
      using False fr Inr sent th assms(2) kill_group_run [OF assms(1)] by (auto split: sum.splits)
    from onlyD [OF signal_group_frame sent] obtain t2 where
      t2: "st_trace s3 = st_trace s2 @ t2" "list_all (\<lambda>ev. \<not> writes_freeze cg (fst ev)) t2" by blast
    from freeze_events [OF th] obtain t3 where t3: "st_trace s4 = st_trace s3 @ t3" "t3 \<noteq> []"
      "fst (hd t3) = freeze_write cg False" "list_all (\<lambda>ev. \<not> is_kill (fst ev)) t3" by metis
    have quiet: "filter (is_kill \<circ> fst) t1 = []" "filter (is_kill \<circ> fst) t3 = []"
      using t1 t3 by (auto simp: list_all_iff filter_empty_conv)
    have "\<exists>s2 pids s3. cg_procs os cg s2 = (Inr pids, s3)
         \<and> filter (is_kill \<circ> fst) (t1 @ t2 @ t3) = map (\<lambda>p. (Proc (Kill p sig), None)) pids" if "r = Inr ()"
      using signal_group_ok [of os cg sig s2 "()" s3] sent r(2) [OF that] t2(1) quiet by fastforce
    with False fr Inr t1 t2 t3 r(1) show ?thesis
      by (intro exI [of _ "t1 @ t2 @ t3"]) auto
  qed
qed

definition sample_group :: cgroup where
  "sample_group = \<lparr>cg_path = ''/c'', cg_relative = ''c''\<rparr>"

text \<open>A system whose only state is whether the group is frozen, with one process in it.\<close>

definition freezer_os :: "bool os" where
  "freezer_os =
     \<lparr>os_unit = (\<lambda>c w. (Inr (), case c of Fs (Write_File p v) \<Rightarrow> v = ''1'' | _ \<Rightarrow> w)),
      os_kind = (\<lambda>c w. (Inr Kind_File, w)),
      os_text = (\<lambda>c w. (Inr (if c = Fs (Read_File ''/c/cgroup.events'') then flat_text [(''frozen'', if w then 1 else 0)]
                            else show_int 7), w)),
      os_num = (\<lambda>c w. (Inr 0, w)), os_names = (\<lambda>c w. (Inr [], w)), os_wait = (\<lambda>c w. (Inr Still_Alive, w)),
      os_pair = (\<lambda>c w. (Inr (0, 1), w)), os_caps = (\<lambda>c w. (Inr [], w))\<rparr>"

definition thawed_start :: "bool st" where
  "thawed_start = \<lparr>st_world = False, st_trace = [], st_clock = \<lparr>rec_phases = [], rec_open = None, rec_wall_origin = 0\<rparr>\<rparr>"

lemma freezer_answers: "\<exists>s'. is_frozen freezer_os sample_group s = (Inr (st_world s), s')"
proof -
  have "key_text ''frozen''" by (simp add: key_text_def is_ws_def char_code_def)
  then have "frozen_in (flat_text [(''frozen'', if w then 1 else 0)]) = w" for w
    using parse_flat_keyed_text [of "[(''frozen'', if w then 1 else 0)]"] by (auto simp: frozen_in_def count_of_def)
  then show ?thesis
    by (simp add: is_frozen_def cg_read_def io_simps freezer_os_def sample_group_def join_path_def has_root_def)
qed

lemma freezer_freezes: "\<exists>s'. freeze freezer_os sample_group True s = (Inr (), s')"
proof -
  obtain s1 where wr: "cg_write freezer_os sample_group ''cgroup.freeze'' ''1'' s = (Inr (), s1)" "st_world s1"
    by (simp add: cg_write_def io_simps freezer_os_def)
  have "fst (await_frozen freezer_os sample_group True 500 s1) = Inr ()"
    unfolding await_frozen_iff using freezer_answers [of s1] wr(2) by (auto intro!: exI [of _ 0])
  with wr(1) show ?thesis by (auto simp: freeze_def bind_def dest: run_eq)
qed

lemma kill_group_freezes_around_witness:
  "\<exists>s1 before sent after. is_frozen freezer_os sample_group thawed_start = (Inr False, s1)
     \<and> st_trace (snd (kill_group freezer_os sample_group 9 thawed_start)) = st_trace s1 @ before @ sent @ after
     \<and> list_all (\<lambda>ev. \<not> is_kill (fst ev)) (before @ after) \<and> fst (hd after) = freeze_write sample_group False"
proof -
  obtain s1 where watched: "is_frozen freezer_os sample_group thawed_start = (Inr False, s1)"
    using freezer_answers [of thawed_start] by (auto simp: thawed_start_def)
  obtain s2 where stopped: "freeze freezer_os sample_group True s1 = (Inr (), s2)"
    using freezer_freezes by blast
  obtain r s' where run: "kill_group freezer_os sample_group 9 thawed_start = (r, s')" by fastforce
  from kill_group_freezes_around [OF watched run] obtain before sent after where
    "st_trace s' = st_trace s1 @ before @ sent @ after" "list_all (\<lambda>ev. \<not> is_kill (fst ev)) (before @ after)"
    "fst (hd after) = freeze_write sample_group False"
    unfolding stopped by auto
  with watched show ?thesis unfolding run snd_conv by blast
qed

subsection \<open>The end of a run\<close>

text \<open>What \<open>run\<close> does with a created container before it supervises it, and after.\<close>

definition run_started :: "'w os \<Rightarrow> host \<Rightarrow> layout \<Rightarrow> run_bundle \<Rightarrow> create_options \<Rightarrow> ('w, unit) io \<Rightarrow> ('w, container) io" where
  "run_started os h l b opts exported =
     bind (container_load os (h_codec h) l (cr_id opts)) (\<lambda>c.
     bind (fifo_release os (con_exec_fifo c)) (\<lambda>_.
     bind (oci_state_of os c) (\<lambda>st.
     bind (hooks_run os (h_codec h) (h_fuel h) (bun_hooks b) Poststart st) (\<lambda>_.
     bind exported (\<lambda>_. ret c)))))"

definition run_ended :: "'w os \<Rightarrow> host \<Rightarrow> run_bundle \<Rightarrow> container \<Rightarrow> error + u8 \<Rightarrow> ('w, unit) io" where
  "run_ended os h b c outcome =
     bind (explain_exit os (con_cgroup c) outcome) (\<lambda>_.
     bind (oci_state_of os c) (\<lambda>st.
       hooks_run os (h_codec h) (h_fuel h) (bun_hooks b) Poststop st))"

lemma run_created_split:
  "run_created os h l b opts detach keep exported blocked =
     bind (run_started os h l b opts exported) (\<lambda>c.
       if detach then ret 0
       else
         bind (attempt (supervise os blocked (con_pid c) (h_fuel h))) (\<lambda>outcome.
         bind (run_ended os h b c outcome) (\<lambda>_.
         bind (ignore (destroy os (con_cgroup c))) (\<lambda>_.
         bind (do_when (\<not> keep) (ignore (container_remove os c))) (\<lambda>_.
           lift outcome)))))"
  unfolding run_created_def run_started_def run_ended_def by (simp add: bind_assoc cong: if_cong)

lemma reading_no_spawn: "list_all (\<lambda>ev. reading (fst ev)) tr \<Longrightarrow> spawns tr = []"
proof (induction tr)
  case (Cons ev tr)
  then show ?case by (cases "fst ev" rule: reading.cases) (auto simp: is_spawn_def)
qed simp

lemma explain_exit_reads: "emits (explain_exit os cg outcome) (\<lambda>r tr. r = Inr () \<and> list_all (\<lambda>ev. reading (fst ev)) tr)"
proof -
  have total: "fst (explain_exit os cg outcome s) = Inr ()" for s
    by (auto simp: explain_exit_def ignore_def bind_def attempt_def ret_def split: sum.split prod.split)
  have "only reading (explain_exit os cg outcome)"
    unfolding explain_exit_def memory_events_of_def cpu_stat_of_def cg_read_def Let_def
    by (auto intro!: hoare split: sum.split)
  then show ?thesis
    unfolding emits_def only_def using total by (metis fst_conv)
qed

lemma oci_state_reads: "emits (oci_state_of os c) (\<lambda>r tr. (\<exists>st. r = Inr st) \<and> list_all (\<lambda>ev. reading (fst ev)) tr)"
  unfolding oci_state_of_def Let_def
proof (rule emits_bind)
  have "\<exists>st. fst (container_status os c s) = Inr st" for s using container_status_run [of os c s] by auto
  then show "emits (container_status os c) (\<lambda>r tr. (\<exists>st. r = Inr st) \<and> list_all (\<lambda>ev. reading (fst ev)) tr)"
    using only_status [of os c] unfolding only_def emits_def by (metis fst_conv)
qed (rule emits_ret, auto)

text \<open>A phase that must not fail runs all its hooks and succeeds.\<close>

lemma hooks_never_fatal:
  assumes "\<And>st. enc_oci cd st \<noteq> None" "\<not> is_fatal phase"
  shows "emits (hooks_run os cd fuel hks phase st)
    (\<lambda>r tr. r = Inr () \<and> spawns tr = map spawn_hook (opt_or [] (Option.bind hks (select_hooks phase))))"
proof (cases "Option.bind hks (select_hooks phase)")
  case (Some hs)
  obtain payload where "enc_oci cd st = Some payload" using assms(1) by blast
  moreover have "emits (run_hooks os fuel phase payload 0 hs) (\<lambda>r tr. r = Inr () \<and> spawns tr = map spawn_hook hs)"
    by (rule emits_weaken [OF run_hooks_outcome]) (use assms(2) in \<open>auto simp: hooks_outcome_def split: sum.splits\<close>)
  ultimately show ?thesis using Some by (auto simp: hooks_run_def json_def intro: emits_ret)
qed (auto simp: hooks_run_def intro: emits_ret)

lemma run_ended_total:
  assumes "\<And>st. enc_oci (h_codec h) st \<noteq> None"
  shows "emits (run_ended os h b c outcome)
    (\<lambda>r tr. r = Inr () \<and> spawns tr = map spawn_hook (opt_or [] (Option.bind (bun_hooks b) hooks_poststop)))"
    (is "emits _ ?R")
proof -
  have poststop: "select_hooks Poststop = hooks_poststop" by (simp add: select_hooks_def fun_eq_iff)
  have hooks: "emits (hooks_run os (h_codec h) (h_fuel h) (bun_hooks b) Poststop st) ?R" for st
    using hooks_never_fatal [OF assms, of Poststop] by (simp add: is_fatal_def poststop)
  have "emits (bind (oci_state_of os c) (hooks_run os (h_codec h) (h_fuel h) (bun_hooks b) Poststop)) ?R"
    by (rule emits_bind [OF oci_state_reads hooks]) (auto dest: reading_no_spawn)
  then show ?thesis
    unfolding run_ended_def by (rule emits_bind [OF explain_exit_reads]) (auto dest: reading_no_spawn)
qed

text \<open>C20: \<open>run\<close> always cleans up after the container it supervised. Whatever supervision gave, an exit code or an
  error, that is the result of \<open>run\<close>, and before it returns it has started every \<open>poststop\<close> hook, each once
  and whatever the earlier ones did, then destroyed the control group, and then, unless it was asked to
  keep it, removed the container's state, whether or not the group could be destroyed.\<close>

theorem run_cleans_up:
  assumes "\<And>st. enc_oci (h_codec h) st \<noteq> None"
    and "run_started os h l b opts exported s = (Inr c, s0)"
    and "supervise os blocked (con_pid c) (h_fuel h) s0 = (outcome, s1)"
  shows "\<exists>s2 tr d s3 s4. run_created os h l b opts False keep exported blocked s = (outcome, s4)
    \<and> st_trace s2 = st_trace s1 @ tr
    \<and> spawns tr = map spawn_hook (opt_or [] (Option.bind (bun_hooks b) hooks_poststop))
    \<and> destroy os (con_cgroup c) s2 = (d, s3)
    \<and> (if keep then s4 = s3 else \<exists>r. container_remove os c s3 = (r, s4))"
proof -
  obtain q s2 where ended: "run_ended os h b c outcome s1 = (q, s2)" by fastforce
  obtain tr where tr: "q = Inr ()" "st_trace s2 = st_trace s1 @ tr"
    "spawns tr = map spawn_hook (opt_or [] (Option.bind (bun_hooks b) hooks_poststop))"
    using emitsD [OF run_ended_total [OF assms(1)] ended] by blast
  obtain d s3 where d: "destroy os (con_cgroup c) s2 = (d, s3)" by fastforce
  obtain r s4 where r: "container_remove os c s3 = (r, s4)" by fastforce
  have "run_created os h l b opts False keep exported blocked s = (outcome, if keep then s3 else s4)"
    using assms(2,3) ended tr(1) d r
    by (simp add: run_created_split bind_def attempt_def ignore_def do_when_def ret_def lift_def)
  with tr d r show ?thesis
    by (intro exI [of _ s2] exI [of _ tr] exI [of _ d] exI [of _ s3] exI [of _ "if keep then s3 else s4"]) auto
qed

text \<open>A container whose init has left with the code 3, and its bundle with two \<open>poststop\<close> hooks.\<close>

definition ending_os :: "unit os" where
  "ending_os = exiting_os\<lparr>os_text := \<lambda>c w. (Inr [HANDSHAKE], w)\<rparr>"

definition sample_bundle :: run_bundle where
  "sample_bundle = \<lparr>bun_dir = ''/b'', bun_spec = sample_spec\<lparr>spec_hooks := Some sample_hooks\<rparr>\<rparr>"

definition sample_options :: create_options where
  "sample_options = \<lparr>cr_id = ''a'', cr_pid_file = None, cr_console_socket = None, cr_rootless = False\<rparr>"

lemma run_cleans_up_witness:
  "fst (run_created ending_os sample_host run_root sample_bundle sample_options False False (ret ()) [15] start_state) = Inr 3"
proof -
  let ?started = "run_started ending_os sample_host run_root sample_bundle sample_options (ret ())"
  let ?c = "\<lparr>con_layout = run_root, con_state = sample_state\<rparr>"
  have enc: "enc_oci (h_codec sample_host) st \<noteq> None" for st by (simp add: sample_host_def sample_codec_def)
  have "fst (container_load ending_os (h_codec sample_host) run_root ''a'' start_state) = Inr ?c"
    by (simp add: container_load_def Let_def json_def sample_host_def sample_codec_def ending_os_def exiting_os_def fixed_os_def io_simps)
  from run_eq [of "container_load ending_os (h_codec sample_host) run_root ''a''", OF this] obtain s1 where
    load: "container_load ending_os (h_codec sample_host) run_root ''a'' start_state = (Inr ?c, s1)" by blast
  have "fst (fifo_release ending_os (con_exec_fifo ?c) s1) = Inr ()"
    by (simp add: fifo_release_def ending_os_def exiting_os_def fixed_os_def io_simps)
  from run_eq [of "fifo_release ending_os (con_exec_fifo ?c)", OF this] obtain s2 where
    release: "fifo_release ending_os (con_exec_fifo ?c) s1 = (Inr (), s2)" by blast
  obtain st s3 where seen: "oci_state_of ending_os ?c s2 = (Inr st, s3)"
    using emits_trace [OF oci_state_reads, of ending_os ?c s2] by (cases "oci_state_of ending_os ?c s2") auto
  have "hooks_run ending_os (h_codec sample_host) (h_fuel sample_host) (bun_hooks sample_bundle) Poststart st s3 = (Inr (), s3)"
    by (simp add: hooks_run_def select_hooks_def bun_hooks_def sample_bundle_def sample_hooks_def ret_def)
  with load release seen have "fst (?started start_state) = Inr ?c"
    by (simp add: run_started_def sample_options_def bind_def ret_def)
  note started = run_eq [of ?started, OF this]
  obtain outcome s4 where sup: "supervise ending_os [15] (con_pid ?c) (h_fuel sample_host) (snd (?started start_state)) = (outcome, s4)"
    by fastforce
  then have "outcome = Inr 3"
    by (simp add: sample_host_def eval_nat_numeral ending_os_def exiting_os_def fixed_os_def io_simps SIGCHLD_def exit_code_def
      con_pid_def sample_state_def)
  with run_cleans_up [OF enc started sup, of False] show ?thesis by auto
qed

subsection \<open>Deleting\<close>

text \<open>C19: a container is deleted only when it has stopped or the caller forces it: otherwise the error names
  its status and nothing was done but reading. Forcing the deletion of a container that does not
  exist succeeds without doing anything. A deletion that succeeds ended by removing the container's state.\<close>

theorem delete_needs_stopped:
  assumes "container_load os (h_codec h) l cid s = (loaded, s1)"
  shows "case loaded of
      Inl e \<Rightarrow> container_delete os h l cid force s =
        (if force \<and> (\<exists>n. e = NotFound n) then (Inr (), s1) else (Inl e, s1))
    | Inr c \<Rightarrow>
        (\<exists>st s2. container_status os c s1 = (Inr st, s2) \<and>
          (st \<noteq> Stopped \<and> \<not> force \<longrightarrow> container_delete os h l cid force s =
             (Inl (BadState cid (status_name st) ''stopped; pass --force to kill it first''), s2)))
        \<and> (\<forall>s'. container_delete os h l cid force s = (Inr (), s') \<longrightarrow> (\<exists>s3. container_remove os c s3 = (Inr (), s')))"
proof (cases loaded)
  case (Inl e)
  with assms show ?thesis
    by (cases e) (simp_all add: container_delete_def bind_def attempt_def ret_def throw_def)
next
  case (Inr c)
  obtain st s2 where st: "container_status os c s1 = (Inr st, s2)"
    using container_status_run [of os c s1] by blast
  have del: "container_delete os h l cid force s = delete_loaded os h cid force c s1"
    using assms Inr by (simp add: container_delete_def bind_def attempt_def)
  have "\<exists>s3. container_remove os c s3 = (Inr (), s')" if "delete_loaded os h cid force c s1 = (Inr (), s')" for s'
    using that unfolding delete_loaded_def bind_Inr by blast
  with st del Inr show ?thesis
    by (auto simp: delete_loaded_def bind_def throw_def)
qed

lemma delete_needs_stopped_witness:
  "fst (container_delete tree_os sample_host run_root ''a'' True empty_tree) = Inr ()"
proof -
  have "fst (container_load tree_os (h_codec sample_host) run_root ''a'' empty_tree) = Inl (NotFound ''a'')"
    by code_simp
  from delete_needs_stopped [OF run_eq [of "container_load tree_os (h_codec sample_host) run_root ''a''", OF this], of True]
  show ?thesis by simp
qed

subsection \<open>Creating\<close>

lemmas any_calls = setup_free [THEN any_free]

lemmas any_handshake = handshake_free [THEN any_free]

lemma any_intermediate: "only (\<lambda>c. True) (intermediate os h p)"
  using intermediate_ends unfolding only_def by (rule emits_weaken) (simp add: list_all_iff)

lemma any_spawn: "only (\<lambda>c. True) (spawn os h l b opts rootfs overlay u join ns cg)"
  unfolding spawn_def spawn_parent_def block_forwardable_def sync_pair_def Let_def
  by (auto intro!: hoare any_calls any_handshake any_intermediate split: option.split sum.split)

lemma any_build: "only (\<lambda>c. True) (build os h l b opts)"
  unfolding build_def with_cgroup_def Let_def
  by (auto intro!: hoare any_calls any_spawn split: option.split sum.split)

lemma with_cgroup_error: "with_cgroup os cg limits m s = (Inl e, s') \<Longrightarrow> \<exists>s1 r. destroy os cg s1 = (r, s')"
  unfolding with_cgroup_def ignore_def
  by (auto simp: bind_run attempt_run throw_run ret_run split_sum_ex)

lemma spawn_parent_error:
  "spawn_parent os h child p cg l opts f s = (Inl e, s') \<Longrightarrow> \<exists>s1 r. teardown os (h_fuel h) cg s1 = (r, s')"
  unfolding spawn_parent_def
  by (auto simp: bind_run attempt_run throw_run ret_run ignore_def split_sum_ex)

text \<open>C12: a creation that fails is undone. Once the container's directory was made, the last call of a failed
  \<open>create\<close> removes it again; a failure after the control group was made ends by destroying the group;
  and a failed handshake ends by killing what is left in the group and reaping it.\<close>

theorem failed_create_undone:
  "emits (container_create os h l b opts) (\<lambda>r tr.
      (\<exists>e. r = Inl e) \<and> (Fs (Create_Dir_All (container_dir l (cr_id opts))), None) \<in> set tr \<longrightarrow>
        tr \<noteq> [] \<and> fst (last tr) = Fs (Remove_Dir_All (container_dir l (cr_id opts))))
   \<and> (\<forall>s e s'. with_cgroup os cg limits (m :: ('w, 'a) io) s = (Inl e, s') \<longrightarrow> (\<exists>s1 r. destroy os cg s1 = (r, s')))
   \<and> (\<forall>s e s'. spawn_parent os h child p cg l opts f s = (Inl e, s') \<longrightarrow> (\<exists>s1 r. teardown os (h_fuel h) cg s1 = (r, s')))"
proof (intro conjI)
  let ?dir = "container_dir l (cr_id opts)"
  let ?P = "\<lambda>r tr. (\<exists>e. r = Inl e) \<and> (Fs (Create_Dir_All ?dir), None) \<in> set tr \<longrightarrow>
        tr \<noteq> [] \<and> fst (last tr) = Fs (Remove_Dir_All ?dir)"
  have read: "emits m ?P" if "only reading m" for m :: "('w, 'b) io"
    using that unfolding only_def by (rule emits_weaken) (auto simp: list_all_iff)
  have exists: "only reading (container_load os (h_codec h) l (cr_id opts))" "only reading (layout_exists os l (cr_id opts))"
    by (auto simp: layout_exists_def intro!: only_load hoare)
  have undo: "emits (bind (attempt (build os h l b opts)) (\<lambda>r.
          case r of
             Inr x \<Rightarrow> ret x
           | Inl e \<Rightarrow> bind (ignore (io_unit os (Remove_Dir_All ?dir))) (\<lambda>_. throw e)))
     (\<lambda>r tr. (\<exists>e. r = Inl e) \<longrightarrow> tr \<noteq> [] \<and> fst (last tr) = Fs (Remove_Dir_All ?dir))"
  proof (rule emits_bind)
    show "emits (attempt (build os h l b opts)) (\<lambda>r tr. \<exists>q. r = Inr q)"
      by (rule emits_attempt, rule emits_weaken [OF any_build [unfolded only_def]]) simp
    show "emits (case r of Inr x \<Rightarrow> ret x | Inl e \<Rightarrow> bind (ignore (io_unit os (Remove_Dir_All ?dir))) (\<lambda>_. throw e))
        (\<lambda>q tr. (\<exists>e. q = Inl e) \<longrightarrow> tr \<noteq> [] \<and> fst (last tr) = Fs (Remove_Dir_All ?dir))" for r
      by (cases r) (auto simp: emits_def ignore_def checked_def perform_def attempt_def bind_def throw_def ret_def split: prod.splits sum.splits)
  qed auto
  have make: "emits (bind (io_unit os (Create_Dir_All ?dir)) (\<lambda>_. bind (attempt (build os h l b opts)) (\<lambda>r.
          case r of
             Inr x \<Rightarrow> ret x
           | Inl e \<Rightarrow> bind (ignore (io_unit os (Remove_Dir_All ?dir))) (\<lambda>_. throw e)))) ?P"
  proof (rule emits_bind)
    show "emits (io_unit os (Create_Dir_All ?dir)) (\<lambda>r tr. (\<exists>e. r = Inl e) \<longrightarrow> (\<exists>e. tr = [(Fs (Create_Dir_All ?dir), Some e)]))"
      by (rule emits_checked) auto
  qed (rule undo, auto)
  have refuse: "emits (bind (container_load os (h_codec h) l (cr_id opts)) (\<lambda>existing.
         bind (container_status os existing) (\<lambda>st. throw (AlreadyExists (cr_id opts) (st = Stopped)))) :: ('w, unit forked) io) ?P"
    by (intro read hoare exists only_status)
  show "emits (container_create os h l b opts) ?P"
    unfolding container_create_def Let_def
  proof (rule emits_bind)
    show "emits (layout_exists os l (cr_id opts)) (\<lambda>r tr. list_all (\<lambda>ev. reading (fst ev)) tr)"
      using exists(2) by (simp add: only_def)
    show "emits (if there then bind (container_load os (h_codec h) l (cr_id opts)) (\<lambda>existing.
         bind (container_status os existing) (\<lambda>st. throw (AlreadyExists (cr_id opts) (st = Stopped))))
       else bind (io_unit os (Create_Dir_All ?dir)) (\<lambda>_. bind (attempt (build os h l b opts)) (\<lambda>r.
          case r of
             Inr x \<Rightarrow> ret x
           | Inl e \<Rightarrow> bind (ignore (io_unit os (Remove_Dir_All ?dir))) (\<lambda>_. throw e)))) ?P" for there
      using refuse make by simp
  qed (force simp: list_all_iff)+
qed (use with_cgroup_error spawn_parent_error in blast)+

lemma failed_create_undone_witness:
  "fst (last (st_trace (snd (container_create tree_os sample_host run_root (plan_bundle sample_plan)
     \<lparr>cr_id = ''a'', cr_pid_file = None, cr_console_socket = Some ''/s'', cr_rootless = False\<rparr> empty_tree))))
   = Fs (Remove_Dir_All ''/run/a'')"
proof -
  let ?opts = "\<lparr>cr_id = ''a'', cr_pid_file = None, cr_console_socket = Some ''/s'', cr_rootless = False\<rparr>"
  let ?m = "container_create tree_os sample_host run_root (plan_bundle sample_plan) ?opts"
  have made: "fst (?m empty_tree) = Inl (Invalid (Runtime Console_Without_Terminal))"
    "List.member (map fst (filter (\<lambda>ev. snd ev = None) (st_trace (snd (?m empty_tree))))) (Fs (Create_Dir_All ''/run/a''))"
    by code_simp+
  have "st_trace empty_tree = []" "container_dir run_root ''a'' = ''/run/a''" by code_simp+
  with emits_trace [OF conjunct1 [OF failed_create_undone], of tree_os sample_host run_root "plan_bundle sample_plan" ?opts empty_tree] made
  show ?thesis by auto
qed

subsection \<open>The order of the parent's side\<close>

definition group_joined :: "cgroup \<Rightarrow> event \<Rightarrow> bool" where
  "group_joined cg ev \<longleftrightarrow> (\<exists>i. ev = (Fs (Write_File (join_path (cg_path cg) ''cgroup.procs'') (show_int i)), None))"

definition saves_state :: "layout \<Rightarrow> string \<Rightarrow> call" where
  "saves_state l cid = Fs (Rename (join_path (container_dir l cid) STAGED_FILE) (state_file l cid))"

lemma no_spawn_json: "\<not> is_spawn (Fs c)" "\<not> is_spawn (Sync_Call x)" "\<not> is_spawn (Misc y)" "\<not> is_spawn (Proc Geteuid)" "\<not> is_spawn (Proc (Waitpid q))" "\<not> is_spawn (Proc (Run_Command u v))"
  by (simp_all add: is_spawn_def)


end
