(* ===== verification/Entry.thy ===== *)
theory Entry
  imports Commands
begin

section \<open>The entry point (main.rs, logging.rs)\<close>

text \<open>
  \<^verbatim>\<open>main\<close> sets up logging and dispatches. What the subscriber prints, and \<^verbatim>\<open>eprintln!\<close>, are not modelled; where it
  prints to, and under which filter, is the result of \<open>logging_init\<close>. Whether a filter is well formed is
  \<^verbatim>\<open>tracing_subscriber\<close>'s to decide, the parameter \<open>valid\<close>.
\<close>

record log_target =
  log_filter :: string
  log_file :: "fd option"
  log_as :: log_format

definition logging_init :: "'w os \<Rightarrow> (string \<Rightarrow> bool) \<Rightarrow> cli \<Rightarrow> ('w, log_target) io" where
  "logging_init os valid c =
     bind (perform (os_text os) (Misc (Env_Var ''MARS_LOG''))) (\<lambda>r.
       let default = if cli_debug c then ''debug'' else ''info'';
           chosen = (case ok r of Some f \<Rightarrow> if valid f then f else default | None \<Rightarrow> default) in
       bind (case cli_log c of
               Some path \<Rightarrow> bind (checked Io (os_num os) (Fd (Open_Append path))) (\<lambda>f. ret (Some f))
             | None \<Rightarrow> ret None) (\<lambda>dest.
         ret \<lparr>log_filter = chosen, log_file = dest, log_as = cli_log_format c\<rparr>))"

text \<open>The exit code: the command's, 1 for an error, and 101, the code of a process that panicked.\<close>

definition main_run :: "'w os \<Rightarrow> host \<Rightarrow> (string \<Rightarrow> bool) \<Rightarrow> cli \<Rightarrow> ('w, outcome) io" where
  "main_run os h valid c =
     bind (attempt (logging_init os valid c)) (\<lambda>log. case log of
       Inl e \<Rightarrow> ret (Code 1)
     | Inr t \<Rightarrow>
         bind (attempt (dispatch os h c)) (\<lambda>r. ret (case r of
           Inr ending \<Rightarrow> ending
         | Inl e \<Rightarrow> if e = Panicked then Code 101 else Code 1)))"

text \<open>The runtime always ends with an exit code, and a command that failed never ends with 0.\<close>

theorem main_reports_failure:
  "\<exists>ending s'. main_run os h valid c s = (Inr ending, s')
   \<and> (ending = Code 0 \<longrightarrow> (\<exists>t s1. logging_init os valid c s = (Inr t, s1) \<and> fst (dispatch os h c s1) = Inr (Code 0)))"
proof -
  obtain log s1 where log: "logging_init os valid c s = (log, s1)" by fastforce
  show ?thesis
  proof (cases log)
    case (Inr t)
    obtain r s2 where "dispatch os h c s1 = (r, s2)" by fastforce
    with log Inr show ?thesis by (cases r) (auto simp: main_run_def bind_def attempt_def ret_def)
  qed (use log in \<open>simp add: main_run_def bind_def attempt_def ret_def\<close>)
qed

end
