(* ===== verification/Whole_Program.thy ===== *)
theory Whole_Program
  imports Lifecycle Entry
begin

section \<open>Properties of every run of the program\<close>

text \<open>
  From \<open>main\<close> down, through each process the runtime forks: no command changes the host's mounts or names,
  and what a loaded bundle guarantees to the code that uses it.
\<close>

subsection \<open>The operations and commands that leave the host alone\<close>

lemma hooks_only: "only (\<lambda>c. \<not> mount_work c \<and> \<not> name_work c) (hooks_run os cd fuel hks ph st)"
  using hooks_free unfolding host_free_def .

lemma alive_free: "host_free (alive os c)"
  unfolding host_free_def alive_def by (auto intro!: hoare)

lemma state_free:
  "host_free (container_load os cd l cid)" "host_free (container_status os c)" "host_free (require os c sts)"
  "host_free (oci_state_of os c)" "host_free (container_remove os c)" "host_free (container_hooks os cd c)"
proof -
  note live = alive_free [unfolded host_free_def]
  show "host_free (container_load os cd l cid)" "host_free (container_remove os c)" "host_free (container_hooks os cd c)"
    unfolding host_free_def container_load_def container_remove_def container_hooks_def Let_def
    by (auto intro!: hoare)
  show status: "host_free (container_status os c)"
    unfolding host_free_def container_status_def by (auto intro!: hoare live)
  show "host_free (require os c sts)" "host_free (oci_state_of os c)"
    using status unfolding host_free_def require_def oci_state_of_def Let_def by (auto intro!: hoare)
qed

lemma group_free:
  "host_free (fifo_release os f)" "host_free (freeze os cg b)" "host_free (is_frozen os cg)" "host_free (cg_procs os cg)"
  "host_free (send_signal os sig i)" "host_free (supervise os blocked i n)"
proof -
  let ?P = "\<lambda>c. \<not> mount_work c \<and> \<not> name_work c"
  show frozen: "host_free (is_frozen os cg)" for cg
    unfolding host_free_def by (auto intro!: hoare)
  have await: "only ?P (await_frozen os cg b n)" for b n
    using frozen unfolding host_free_def by (induction n) (auto intro!: hoare)
  show "host_free (freeze os cg b)"
    unfolding host_free_def freeze_def by (auto intro!: hoare await)
  show "host_free (fifo_release os f)" "host_free (cg_procs os cg)" "host_free (send_signal os sig i)"
    unfolding host_free_def cg_procs_def send_signal_def by (auto intro!: hoare)
  show "host_free (supervise os blocked i n)"
    unfolding host_free_def by (rule only_weaken [OF only_supervise]) auto
qed

lemmas plain_free = state_free group_free setup_free

lemma operations_free:
  "host_free (container_start os h l cid)" "host_free (container_kill os h l cid sig all)"
  "host_free (container_delete os h l cid force)" "host_free (container_pause os h l cid paused)"
  "host_free (container_update os h l cid r)"
  "host_free exported \<Longrightarrow> host_free (run_created os h l bun opts detach keep exported blocked)"
proof -
  let ?P = "\<lambda>c. \<not> mount_work c \<and> \<not> name_work c"
  note parts = plain_free [unfolded host_free_def] hooks_only
  show "host_free (container_start os h l cid)" "host_free (container_kill os h l cid sig all)"
    "host_free (container_pause os h l cid paused)" "host_free (container_update os h l cid r)"
    unfolding host_free_def container_start_def container_kill_def kill_group_def container_pause_def container_update_def
    by (auto intro!: hoare parts)
  have await: "only ?P (await_dead os c n)" for c n
    by (induction n) (auto intro!: hoare alive_free [unfolded host_free_def])
  have stop: "only ?P (force_stop os c)" for c
    unfolding force_stop_def kill_all_ignoring_def Let_def by (auto intro!: hoare parts await)
  show "host_free (container_delete os h l cid force)"
    unfolding host_free_def container_delete_def delete_loaded_def by (auto intro!: hoare parts stop split: sum.split error.split)
  show "host_free (run_created os h l bun opts detach keep exported blocked)" if "host_free exported"
    using that unfolding host_free_def run_created_def explain_exit_def memory_events_of_def cpu_stat_of_def Let_def
    by (auto intro!: hoare parts split: sum.split)
qed

lemma bundle_free: "host_free (bundle_load os cd given)"
  unfolding host_free_def by (auto intro!: hoare)

lemma trace_free: "host_free (trace os otlp name cid)"
proof -
  let ?P = "\<lambda>c. \<not> mount_work c \<and> \<not> name_work c"
  have spans: "only ?P (phase_spans os t r o0 cid ps acc)" for t r o0 ps acc
    by (induction ps arbitrary: acc) (auto simp: random_hex_def intro!: hoare)
  have export: "only ?P (telemetry_export os d name cid)" for d
    unfolding telemetry_export_def random_hex_def resource_attributes_def post_def Let_def
    by (auto intro!: hoare spans split: prod.split)
  show ?thesis
    unfolding host_free_def trace_def endpoint_def by (auto intro!: hoare export split: option.split)
qed

lemma commands_free:
  "host_free (cmd_spec os h path rootless)" "host_free (cmd_features os h)" "host_free (cmd_list os h l la)"
  "host_free (cmd_kill os h l ka)" "host_free (cmd_state os h l cid)" "host_free (cmd_ps os h l pa)"
  "host_free (cmd_events os h l va)" "host_free (cmd_update os h l ua)"
proof -
  let ?P = "\<lambda>c. \<not> mount_work c \<and> \<not> name_work c"
  note parts = plain_free [unfolded host_free_def] operations_free(1-5) [unfolded host_free_def]
  have print: "only ?P (println os t)" for t
    unfolding println_def by (auto intro!: hoare)
  have rows: "only ?P (oci_states os cs)" for cs
    by (induction cs) (auto intro!: hoare parts)
  have entries: "only ?P (load_entries os cd l ns found)" for cd ns found
    by (induction ns arbitrary: found) (auto intro!: hoare parts split: sum.split option.split)
  have listed: "only ?P (list_containers os cd l)" for cd
    unfolding list_containers_def by (auto intro!: hoare entries)
  have stats: "only ?P (sample os c)" for c
    unfolding sample_def single_value_def memory_events_of_def cpu_stat_of_def Let_def by (auto intro!: hoare)
  have watched: "only ?P (watch os h c i n)" for c i n
    by (induction n) (auto intro!: hoare parts stats print)
  show "host_free (cmd_spec os h path rootless)" "host_free (cmd_features os h)" "host_free (cmd_list os h l la)"
    "host_free (cmd_kill os h l ka)" "host_free (cmd_state os h l cid)" "host_free (cmd_ps os h l pa)"
    "host_free (cmd_events os h l va)" "host_free (cmd_update os h l ua)"
    unfolding host_free_def cmd_spec_def cmd_features_def cmd_list_def cmd_kill_def cmd_state_def cmd_ps_def ps_table_def
      cmd_events_def cmd_update_def update_resources_def Let_def
    by (auto intro!: hoare parts print rows listed stats watched split: option.split list_format.split)
qed


subsection \<open>Running a second process\<close>

lemma exec_free: "only (\<lambda>c. \<not> name_work c \<and> (mount_work c \<longrightarrow> console_call c)) (container_exec os h l cid opts)"
proof -
  let ?P = "\<lambda>c. \<not> name_work c \<and> (mount_work c \<longrightarrow> console_call c)"
  have weak: "only ?P m" if "host_free m" for m :: "('v, 'x) io"
    using that unfolding host_free_def by (rule only_weaken) blast
  have joins: "only ?P (collect_joins os i js)" for i js
    by (induction js) (auto simp: Let_def intro!: hoare)
  have console: "?P c" if "console_call c" for c
    using that console_names by blast
  have target: "only ?P (resolve_target os cd c opts)" for cd c
    unfolding resolve_target_def read_process_def
    by (auto intro!: hoare weak [OF bundle_free] split: option.split prod.split)
  have child: "only ?P (exec_child os cd t console)" for cd t console
    unfolding exec_child_def enter_def unblock_all_def
    by (auto intro!: hoare only_console_setup [OF console] split: option.split)
  have parent: "only ?P (exec_parent os h opts procs pf blocked child)" for procs pf blocked child
    unfolding exec_parent_def place_def
    by (auto intro!: hoare weak [OF group_free(6)] split: option.split)
  show ?thesis
    unfolding container_exec_def single_threaded_def open_cgroup_procs_def block_forwardable_def sync_pair_def
    by (auto intro!: hoare weak [OF state_free(1)] weak [OF state_free(2)] weak [OF setup_free(6)] joins target child parent
        split: option.split prod.split)
qed

subsection \<open>Every command\<close>

lemma guarded_free: "host_free m \<Longrightarrow> (\<And>c. Q c \<Longrightarrow> mount_work c \<or> name_work c) \<Longrightarrow> guarded P Q m"
  unfolding host_free_def by (rule guarded_only, erule only_weaken) blast

lemma guarded_cmd_create:
  assumes "\<And>s b s' opts. bundle_load os (h_codec h) (ca_bundle a) s = (Inr b, s') \<Longrightarrow> guarded P Q (container_create os h l b opts)"
    and "\<And>c. Q c \<Longrightarrow> mount_work c \<or> name_work c"
  shows "guarded P Q (cmd_create os h l a rootless otlp)"
proof -
  have simple: "\<not> Q (Misc c)" for c using assms(2) by fastforce
  have ended: "only (\<lambda>c. \<not> Q c) (trace os otlp name cid)" for name cid
    using trace_free unfolding host_free_def by (rule only_weaken) (use assms(2) in blast)
  show ?thesis
    unfolding cmd_create_def
    by (rule guarded_skip, intro hoare, rule guarded_skip, intro hoare simple, rule guarded_skip, intro hoare simple,
        rule guarded_known [where K = "\<lambda>b. \<exists>s s'. bundle_load os (h_codec h) (ca_bundle a) s = (Inr b, s')"],
        rule guarded_free [OF bundle_free assms(2)], assumption, blast,
        elim exE, rule guarded_bind, rule guarded_attempt, erule assms(1),
        auto intro!: guarded_only hoare ended split: sum.split forked.split)
qed

lemma guarded_cmd_run:
  assumes "\<And>s b s' opts. bundle_load os (h_codec h) (ra_bundle a) s = (Inr b, s') \<Longrightarrow> guarded P Q (container_create os h l b opts)"
    and "\<And>c. Q c \<Longrightarrow> mount_work c \<or> name_work c"
  shows "guarded P Q (cmd_run os h l a rootless otlp)"
proof -
  have simple: "\<not> Q (Misc c)" "\<not> Q (Proc d)" for c d using assms(2) by fastforce+
  have rest: "only (\<lambda>c. \<not> Q c) (run_created os h l b opts d k (trace os otlp name cid) blocked)" for b opts d k name cid blocked
    using operations_free(6) [OF trace_free] unfolding host_free_def by (rule only_weaken) (use assms(2) in blast)
  show ?thesis
    unfolding cmd_run_def container_run_def block_forwardable_def
    by (rule guarded_skip, intro hoare, rule guarded_skip, intro hoare simple, rule guarded_skip, intro hoare simple,
        rule guarded_known [where K = "\<lambda>b. \<exists>s s'. bundle_load os (h_codec h) (ra_bundle a) s = (Inr b, s')"],
        rule guarded_free [OF bundle_free assms(2)], assumption, blast,
        elim exE, rule guarded_skip, (intro hoare simple)[1], rule guarded_bind, erule assms(1),
        auto intro!: guarded_only hoare rest split: forked.split)
qed

lemma guarded_with_id: "guarded P Q m \<Longrightarrow> guarded P Q (with_id cid m)"
  unfolding with_id_def by (rule guarded_skip, intro hoare)

lemma guarded_finish: "guarded P Q m \<Longrightarrow> guarded P Q (finish m)"
  unfolding finish_def by (rule guarded_bind) (auto intro!: guarded_only hoare)

lemma guarded_dispatch:
  assumes "\<And>s b s' opts given. bundle_load os (h_codec h) given s = (Inr b, s') \<Longrightarrow>
      guarded P Q (container_create os h \<lparr>lay_root = cli_root c\<rparr> b opts)"
    and "\<And>x. Q x \<Longrightarrow> mount_work x \<or> name_work x"
    and "\<And>a. cli_command c = Cmd_Exec a \<Longrightarrow> guarded P Q (container_exec os h \<lparr>lay_root = cli_root c\<rparr> (ea_id a) (exec_options_of a))"
  shows "guarded P Q (dispatch os h c)"
proof -
  have rootless: "only (\<lambda>c. \<not> Q c) (is_rootless os r)" for r
    using assms(2) by (intro only_weaken [OF is_rootless_calls]) fastforce
  note free = commands_free [THEN guarded_free, OF assms(2)] operations_free(1-5) [THEN guarded_free, OF assms(2)]
  have ret: "guarded P Q (ret x)" for x :: 'x by (intro guarded_only hoare)
  have exec: "guarded P Q (cmd_exec os h \<lparr>lay_root = cli_root c\<rparr> a)" if "cli_command c = Cmd_Exec a" for a
    unfolding cmd_exec_def using assms(3) [OF that] by (auto intro!: guarded_only hoare)
  show ?thesis
    unfolding dispatch_def Let_def
    by (rule guarded_skip, rule rootless, cases "cli_command c"; simp;
       (rule guarded_with_id guarded_finish free ret exec | erule assms(1) | rule guarded_bind guarded_cmd_create guarded_cmd_run
          | erule assms(2) | assumption)+)
qed

lemma dispatch_mounts:
  "case cli_command c of
     Cmd_Exec a \<Rightarrow> only (\<lambda>x. \<not> mount_work x \<or> console_call x) (dispatch os h c)
   | _ \<Rightarrow> guarded (\<lambda>ev. ev = (Proc (Unshare CLONE_NEWNS), None)) mount_work (dispatch os h c)"
proof (cases "\<exists>a. cli_command c = Cmd_Exec a")
  case True
  then obtain a where a: "cli_command c = Cmd_Exec a" by blast
  have "only (\<lambda>x. \<not> mount_work x \<or> console_call x) (cmd_exec os h l a)" for l
    unfolding cmd_exec_def by (auto intro!: hoare only_weaken [OF exec_free])
  moreover have "only (\<lambda>x. \<not> mount_work x \<or> console_call x) (is_rootless os r)" for r
    by (rule only_weaken [OF is_rootless_calls]) simp
  ultimately show ?thesis
    using a by (auto simp: dispatch_def Let_def with_id_def intro!: hoare)
next
  case False
  then have "guarded (\<lambda>ev. ev = (Proc (Unshare CLONE_NEWNS), None)) mount_work (dispatch os h c)"
    by (intro guarded_dispatch guarded_create) (auto intro: intermediate_mounts)
  with False show ?thesis by (auto split: cli_command.split)
qed

lemma dispatch_names: "guarded uts_changed name_work (dispatch os h c)"
proof (rule guarded_dispatch)
  show "guarded uts_changed name_work (container_create os h l b opts)"
    if "bundle_load os (h_codec h) given s = (Inr b, s')" for l b opts given s s'
    using that by (rule names_after_uts)
  show "guarded uts_changed name_work (container_exec os h l cid opts)" for l cid opts
    by (intro guarded_only only_weaken [OF exec_free]) simp
qed simp

lemma logging_free: "host_free (logging_init os valid c)"
  unfolding host_free_def logging_init_def Let_def by (auto intro!: hoare split: option.split)

lemma guarded_main:
  assumes "guarded P Q (dispatch os h c)" "\<And>x. Q x \<Longrightarrow> mount_work x \<or> name_work x"
  shows "guarded P Q (main_run os h valid c)"
  unfolding main_run_def
  by (rule guarded_bind, rule guarded_attempt, rule guarded_free [OF logging_free assms(2)], assumption, rule guarded_sum,
      rule guarded_only, intro hoare, rule guarded_bind, rule guarded_attempt, rule assms(1), rule guarded_only, intro hoare)

subsection \<open>The host stays as it was\<close>

text \<open>Nothing but the console is mounted.\<close>

definition console_only :: "call \<Rightarrow> bool" where
  "console_only x = (if mount_work x then console_call x else True)"

lemma console_only_eq: "console_only = (\<lambda>x. \<not> mount_work x \<or> console_call x)"
  by (auto simp: console_only_def)

text \<open>C6: no command of the runtime ever changes what the host has mounted, whatever it is asked and whatever
  fails: in every run of the program, through each process it forks, every mount, unmount, change of root
  and device node comes after a mount namespace was unshared. \<open>exec\<close>, which joins the container's namespaces
  instead, mounts nothing but the console.\<close>

theorem host_mounts_untouched:
  "case cli_command c of
     Cmd_Exec a \<Rightarrow> only console_only (main_run os h valid c)
   | _ \<Rightarrow> guarded (\<lambda>ev. ev = (Proc (Unshare CLONE_NEWNS), None)) mount_work (main_run os h valid c)"
proof -
  have "only (\<lambda>x. \<not> mount_work x \<or> console_call x) (main_run os h valid c)"
    if "only (\<lambda>x. \<not> mount_work x \<or> console_call x) (dispatch os h c)"
    using that host_freeD(1) [OF logging_free, of os valid c] unfolding main_run_def
    by (auto intro!: hoare elim: only_weaken)
  moreover have "guarded (\<lambda>ev. ev = (Proc (Unshare CLONE_NEWNS), None)) mount_work (main_run os h valid c)"
    if "guarded (\<lambda>ev. ev = (Proc (Unshare CLONE_NEWNS), None)) mount_work (dispatch os h c)"
    using that by (rule guarded_main) simp
  ultimately show ?thesis using dispatch_mounts [where c = c and os = os and h = h] by (cases "cli_command c") (simp_all add: console_only_eq)
qed

text \<open>C5: no command of the runtime ever renames the host: in every run of the program, through each process it
  forks, the host and domain names are set only after the process has left the host's UTS namespace, by
  making a new one or by joining the configured one. Validation is what makes it so: it refuses a bundle
  that sets a name without a UTS namespace.\<close>

theorem host_names_untouched: "guarded uts_changed name_work (main_run os h valid c)"
  by (rule guarded_main [OF dispatch_names]) simp

subsection \<open>Loaded bundles are well typed\<close>

text \<open>What the runtime relies on in a bundle it has loaded without checking it again.\<close>

definition wf_process :: "run_bundle \<Rightarrow> bool" where
  "wf_process b \<longleftrightarrow>
     (case bun_process b of
        None \<Rightarrow> bun_argv b = Inl (SpecField ''process'') \<and> bun_env b = [] \<and> bun_cwd b = None
      | Some p \<Rightarrow> (\<exists>prog args. bun_argv b = Inr (prog # args) \<and> prog \<noteq> []) \<and> (\<exists>cwd. bun_cwd b = Some cwd \<and> is_absolute cwd)
          \<and> (\<forall>e\<in>set (bun_env b). \<exists>k v. e = k @ ''='' @ v)
          \<and> (\<forall>r\<in>set (opt_or [] (proc_rlimits p)). rl_soft r \<le> rl_hard r))"

definition wf_bundle :: "run_bundle \<Rightarrow> bool" where
  "wf_bundle b \<longleftrightarrow>
     (\<exists>root. bun_rootfs b = Inr root \<and> root \<noteq> [] \<and> (is_absolute (bun_dir b) \<longrightarrow> is_absolute root)) \<and>
     wf_process b \<and> distinct (map ns_typ (bun_namespaces b)) \<and>
     (\<forall>m\<in>set (bun_mounts b). is_absolute (mnt_destination m)) \<and>
     (\<forall>p\<in>set (bun_masked_paths b) \<union> set (bun_readonly_paths b). is_absolute p) \<and>
     (\<forall>p. bun_propagation b = Some p \<longrightarrow> p \<in> set PROPAGATIONS)"

definition wf_layout :: "linux_namespace list \<Rightarrow> ns_layout \<Rightarrow> bool" where
  "wf_layout nss l \<longleftrightarrow>
     distinct (map fst (nsl_join l)) \<and>
     (\<forall>k. (k \<in> ns_typ ` set nss) = (contains_kind (nsl_create l) k \<or> k \<in> fst ` set (nsl_join l))) \<and>
     (\<forall>k. \<not> (contains_kind (nsl_create l) k \<and> k \<in> fst ` set (nsl_join l)))"

lemma join_path_root: "has_root base \<Longrightarrow> has_root (join_path base p)"
  by (auto simp: join_path_def has_root_def split: list.splits)

lemma valid_wf_bundle:
  assumes "valid_spec (bun_spec b)"
  shows "wf_bundle b"
proof -
  from assms obtain root linux where root: "spec_root (bun_spec b) = Some root" "root_path root \<noteq> []"
    and linux: "spec_linux (bun_spec b) = Some linux"
    by (auto simp: valid_spec_def)
  have "\<exists>p. bun_rootfs b = Inr p \<and> p \<noteq> [] \<and> (is_absolute (bun_dir b) \<longrightarrow> is_absolute p)"
    using root join_path_root [of "bun_dir b" "root_path root"]
    by (auto simp: bun_rootfs_def ok_or_def result_simps join_path_def)
  moreover have "wf_process b"
    using assms
    by (auto simp: wf_process_def valid_spec_def valid_process_def bun_process_def bun_argv_def bun_env_def bun_cwd_def
        ok_or_def result_simps split: option.split)
  moreover have "distinct (map ns_typ (bun_namespaces b))"
    using assms linux by (auto simp: valid_spec_def bun_namespaces_def linux_list_def spec_namespaces_def)
  moreover have "\<forall>p\<in>set (bun_masked_paths b) \<union> set (bun_readonly_paths b). is_absolute p" "\<forall>p. bun_propagation b = Some p \<longrightarrow> p \<in> set PROPAGATIONS"
    using assms linux by (auto simp: valid_spec_def bun_masked_paths_def bun_readonly_paths_def bun_propagation_def linux_list_def)
  moreover have "\<forall>m\<in>set (bun_mounts b). is_absolute (mnt_destination m)"
    using assms by (auto simp: valid_spec_def bun_mounts_def)
  ultimately show ?thesis by (simp add: wf_bundle_def)
qed

lemma joined_kind: "joined ns = Some (k, path) \<Longrightarrow> k = ns_typ ns"
  by (auto simp: joined_def split: option.splits if_splits)

lemma joined_members: "set (List.map_filter joined nss) = {kp. \<exists>ns\<in>set nss. joined ns = Some kp}"
  by (induction nss) (auto simp: map_filter_simps split: option.splits)

lemma joined_kinds: "fst ` set (List.map_filter joined nss) = {ns_typ ns |ns. ns \<in> set nss \<and> joined ns \<noteq> None}"
proof (intro set_eqI iffI)
  fix k assume "k \<in> {ns_typ ns |ns. ns \<in> set nss \<and> joined ns \<noteq> None}"
  then obtain ns path where "ns \<in> set nss" "joined ns = Some (k, path)" by (auto dest: joined_kind)
  then show "k \<in> fst ` set (List.map_filter joined nss)" unfolding joined_members by force
qed (use joined_kind in \<open>force simp: joined_members\<close>)

lemma distinct_joined: "distinct (map ns_typ nss) \<Longrightarrow> distinct (map fst (List.map_filter joined nss))"
proof (induction nss)
  case (Cons ns nss)
  then show ?case
    using joined_kinds [of nss] by (cases "joined ns") (auto simp: map_filter_simps dest: joined_kind)
qed (simp add: map_filter_simps)

lemma layout_wf:
  assumes "ns_layout_of os nss s = (Inr l, s')" "distinct (map ns_typ nss)"
  shows "wf_layout nss l"
proof -
  let ?f = "\<lambda>(kind :: ns_type, _ :: path). join_rank kind"
  note spec = scan_spec [OF assms(1) [unfolded ns_layout_of_def]]
  then have join: "nsl_join l = sort_key ?f (List.map_filter joined nss)" by simp
  have kinds: "fst ` set (nsl_join l) = {ns_typ ns |ns. ns \<in> set nss \<and> joined ns \<noteq> None}"
    by (simp add: join joined_kinds)
  have "distinct (map fst (nsl_join l))"
    using distinct_joined [OF assms(2)] unfolding join by (simp add: distinct_map)
  moreover have same: "ns1 = ns2" if "ns1 \<in> set nss" "ns2 \<in> set nss" "ns_typ ns1 = ns_typ ns2" for ns1 ns2
    using assms(2) that by (auto simp: distinct_map dest: inj_onD)
  moreover have made: "contains_kind (nsl_create l) k \<longleftrightarrow> (\<exists>ns\<in>set nss. ns_typ ns = k \<and> joined ns = None)" for k
    using spec by simp
  moreover have "(k \<in> ns_typ ` set nss) = (contains_kind (nsl_create l) k \<or> k \<in> fst ` set (nsl_join l))" for k
    unfolding made kinds by blast
  moreover have "\<not> (contains_kind (nsl_create l) k \<and> k \<in> fst ` set (nsl_join l))" for k
    unfolding made kinds using same by fastforce
  ultimately show ?thesis by (simp add: wf_layout_def)
qed

text \<open>C16: a bundle that was loaded is well formed, and so is the plan of its namespaces: there is a root file
  system, absolute when the bundle's directory is; a process has a program to execute and an absolute
  working directory; its variables are pairs and its limits consistent; and every configured kind of
  namespace is either created or joined, never both, and joined at most once.\<close>

theorem loaded_bundle_well_typed:
  assumes "bundle_load os cd given s = (Inr b, s1)"
  shows "wf_bundle b \<and> (\<forall>t l t'. ns_layout_of os (bun_namespaces b) t = (Inr l, t') \<longrightarrow> wf_layout (bun_namespaces b) l)"
proof -
  have "validate_spec (bun_spec b) = Inr ()"
    using assms by (auto simp: bundle_load_def bind_Inr Let_def ret_Inr lift_Inr split: if_splits)
  then have "wf_bundle b" by (simp add: validate_spec_ok valid_wf_bundle)
  then show ?thesis by (simp add: wf_bundle_def layout_wf)
qed


lemma sample_numbers: "parse_u64 ''1'' = Some 1" "parse_u64 ''0'' = Some 0" "parse_u64 ''2'' = Some 2"
proof -
  have "show_u64 1 = ''1''" "show_u64 0 = ''0''" "show_u64 2 = ''2''" by code_simp+
  then show "parse_u64 ''1'' = Some 1" "parse_u64 ''0'' = Some 0" "parse_u64 ''2'' = Some 2" using parse_u64_show by metis+
qed

lemma sample_version: "valid_version ''1.0.2''"
  unfolding valid_version_def
  by (rule exI [of _ "''1''"], rule exI [of _ "''0''"], rule exI [of _ "''2''"], rule exI [of _ "''''"]) (simp add: sample_numbers)

lemma sample_valid: "validate_spec sample_spec = Inr ()"
  unfolding validate_spec_ok valid_spec_def
  using sample_version
  by (simp add: sample_spec_def sample_linux_def sample_process_def valid_process_def spec_namespaces_def has_root_def)

lemma loaded_bundle_well_typed_witness: "wf_bundle \<lparr>bun_dir = ''/b'', bun_spec = sample_spec\<rparr>"
proof -
  let ?cd = "sample_codec\<lparr>dec_spec := \<lambda>t. Some sample_spec\<rparr>"
  have "fst (bundle_load (fixed_os Kind_File ''/b'' 0) ?cd ''b'' start_state) = Inr \<lparr>bun_dir = ''/b'', bun_spec = sample_spec\<rparr>"
    by (simp add: bundle_load_def Let_def bind_def checked_def perform_def ret_def is_file_def json_def lift_def fixed_os_def sample_valid
        join_path_def has_root_def)
  from loaded_bundle_well_typed [OF run_eq [of "bundle_load (fixed_os Kind_File ''/b'' 0) ?cd ''b''", OF this]]
  show ?thesis by blast
qed

end
