(* ===== verification/State_Store.thy ===== *)
theory State_Store
  imports State
begin

section \<open>The state directory as a map (refinement)\<close>

text \<open>
  What \<open>Container\<close>'s \<^verbatim>\<open>save\<close>, \<^verbatim>\<open>load\<close> and \<^verbatim>\<open>remove\<close> promise together: the state directory is a map from
  identifiers to states. The locale \<open>file_tree\<close> adds the removal of directories to \<open>file_store\<close>; the
  abstract specification is the relation \<open>store_step\<close>, with the failures an operation may have; and the
  operations of the code simulate it.
\<close>

subsection \<open>Directories that can be removed\<close>

text \<open>A property of the world that a program keeps.\<close>

definition keeps :: "('w \<Rightarrow> bool) \<Rightarrow> ('w, 'a) io \<Rightarrow> bool" where
  "keeps S m \<longleftrightarrow> (\<forall>s r s'. m s = (r, s') \<longrightarrow> S (st_world s) \<longrightarrow> S (st_world s'))"

lemma keepsD: "keeps S m \<Longrightarrow> m s = (r, s') \<Longrightarrow> S (st_world s) \<Longrightarrow> S (st_world s')"
  unfolding keeps_def by blast

lemma keeps_bind: "keeps S m \<Longrightarrow> (\<And>x. keeps S (f x)) \<Longrightarrow> keeps S (bind m f)"
  by (auto simp: keeps_def bind_def split: prod.splits sum.splits)

lemma keeps_pure: "keeps S (ret x)" "keeps S (throw e)" "keeps S (lift q)"
  by (auto simp: keeps_def ret_def throw_def lift_def)

lemma keeps_checked: "(\<And>w. S w \<Longrightarrow> S (snd (f c w))) \<Longrightarrow> keeps S (checked wrap f c)"
  unfolding keeps_def by (metis checked_run snd_conv)

lemma keeps_kind: "(\<And>w. S w \<Longrightarrow> S (snd (os_kind os (Fs (Stat p)) w))) \<Longrightarrow> keeps S (is_file os p) \<and> keeps S (path_exists os p)"
  by (auto simp: keeps_def is_file_def path_exists_def bind_def perform_def ret_def split: prod.splits) (metis snd_conv)+

definition inside :: "component list \<Rightarrow> component list \<Rightarrow> bool" where
  "inside d k \<longleftrightarrow> take (length d) k = d"

locale file_tree = file_store os content for os :: "'w os" and content +
  fixes sound :: "'w \<Rightarrow> bool"
  assumes remove_ok: "os_unit os (Fs (Remove_Dir_All p)) w = (Inr (), w') \<Longrightarrow>
      content w' k = (if inside (components p) k then None else content w k)"
    and remove_fails: "os_unit os (Fs (Remove_Dir_All p)) w = (Inl e, w') \<Longrightarrow>
      content w' k = content w k \<or> inside (components p) k \<and> content w' k = None"
    and stat_above: "sound w \<Longrightarrow> content w k \<noteq> None \<Longrightarrow> inside (components p) k \<Longrightarrow>
      \<exists>kind. fst (os_kind os (Fs (Stat p)) w) = Inr kind"
    and sound_stat: "sound w \<Longrightarrow> sound (snd (os_kind os (Fs (Stat p)) w))"
    and sound_read: "sound w \<Longrightarrow> sound (snd (os_text os (Fs (Read_File p)) w))"
    and sound_write: "sound w \<Longrightarrow> sound (snd (os_unit os (Fs (Write_File p t)) w))"
    and sound_rename: "sound w \<Longrightarrow> sound (snd (os_unit os (Fs (Rename p q)) w))"
    and sound_mkdir: "sound w \<Longrightarrow> sound (snd (os_unit os (Fs (Create_Dir_All p)) w))"
    and sound_remove: "sound w \<Longrightarrow> sound (snd (os_unit os (Fs (Remove_Dir_All p)) w))"
begin

lemma exists_run:
  assumes "path_exists os p s = (r, s')"
  shows "content (st_world s') = content (st_world s)" "sound (st_world s) \<Longrightarrow> sound (st_world s')"
    "\<exists>there. r = Inr there \<and> (sound (st_world s) \<longrightarrow> \<not> there \<longrightarrow> (\<forall>k. inside (components p) k \<longrightarrow> content (st_world s) k = None))"
proof -
  obtain q w where run: "os_kind os (Fs (Stat p)) (st_world s) = (q, w)" by fastforce
  then have r: "r = Inr (ok q \<noteq> None)" and w: "st_world s' = w"
    using assms by (auto simp: path_exists_def bind_def perform_def ret_def)
  show "content (st_world s') = content (st_world s)"
    using stat_keeps [of p "st_world s"] run w by simp
  show "sound (st_world s) \<Longrightarrow> sound (st_world s')"
    using sound_stat [of "st_world s" p] run w by simp
  show "\<exists>there. r = Inr there \<and> (sound (st_world s) \<longrightarrow> \<not> there \<longrightarrow> (\<forall>k. inside (components p) k \<longrightarrow> content (st_world s) k = None))"
    using stat_above [of "st_world s" _ p] run r by (cases q) auto
qed

lemma remove_run:
  assumes "io_unit os (Remove_Dir_All p) s = (r, s')"
  shows "r = Inr () \<Longrightarrow> content (st_world s') k = (if inside (components p) k then None else content (st_world s) k)"
    "content (st_world s') k = content (st_world s) k \<or> inside (components p) k \<and> content (st_world s') k = None"
    "sound (st_world s) \<Longrightarrow> sound (st_world s')"
proof -
  obtain q w where run: "os_unit os (Fs (Remove_Dir_All p)) (st_world s) = (q, w)"
    and w: "st_world s' = w" and r: "r = (case q of Inl e \<Rightarrow> Inl (Io (Fs (Remove_Dir_All p)) e) | Inr x \<Rightarrow> Inr x)"
    using assms by (rule checked_run)
  show "r = Inr () \<Longrightarrow> content (st_world s') k = (if inside (components p) k then None else content (st_world s) k)"
    using run r w remove_ok [of p "st_world s" w k] by (cases q) auto
  show "content (st_world s') k = content (st_world s) k \<or> inside (components p) k \<and> content (st_world s') k = None"
    using run w remove_ok [of p "st_world s" w k] remove_fails [of p "st_world s" _ w k] by (cases q) auto
  show "sound (st_world s) \<Longrightarrow> sound (st_world s')"
    using sound_remove [of "st_world s" p] run w by simp
qed

end

subsection \<open>The operations and their specification\<close>

datatype store_op = Save persisted | Load string | Forget persisted

type_synonym reply = "error + persisted option"

fun store_call :: "'w os \<Rightarrow> codec \<Rightarrow> layout \<Rightarrow> store_op \<Rightarrow> ('w, persisted option) io" where
  "store_call os cd l (Save st) = bind (container_save os cd l st) (\<lambda>_. ret None)"
| "store_call os cd l (Load cid) = bind (container_load os cd l cid) (\<lambda>c. ret (Some (con_state c)))"
| "store_call os cd l (Forget st) = bind (container_remove os \<lparr>con_layout = l, con_state = st\<rparr>) (\<lambda>_. ret None)"

fun store_calls :: "'w os \<Rightarrow> codec \<Rightarrow> layout \<Rightarrow> store_op list \<Rightarrow> ('w, reply list) io" where
  "store_calls os cd l [] = ret []"
| "store_calls os cd l (c # cs) =
     bind (attempt (store_call os cd l c)) (\<lambda>r. bind (store_calls os cd l cs) (\<lambda>rs. ret (r # rs)))"

text \<open>A map of states. A failed save changes nothing; a failed removal may have removed the state or not.\<close>

inductive store_step :: "store_op \<Rightarrow> reply \<Rightarrow> (string \<rightharpoonup> persisted) \<Rightarrow> (string \<rightharpoonup> persisted) \<Rightarrow> bool" where
  saved: "store_step (Save st) (Inr None) m (m(per_id st \<mapsto> st))"
| not_saved: "store_step (Save st) (Inl e) m m"
| loaded: "m cid = Some st \<Longrightarrow> store_step (Load cid) (Inr (Some st)) m m"
| unknown: "m cid = None \<Longrightarrow> store_step (Load cid) (Inl (NotFound cid)) m m"
| forgotten: "store_step (Forget st) (Inr None) m (m(per_id st := None))"
| half_forgotten: "m' = m \<or> m' = m(per_id st := None) \<Longrightarrow> store_step (Forget st) (Inl e) m m'"

inductive store_steps :: "store_op list \<Rightarrow> reply list \<Rightarrow> (string \<rightharpoonup> persisted) \<Rightarrow> (string \<rightharpoonup> persisted) \<Rightarrow> bool" where
  no_steps: "store_steps [] [] m m"
| more_steps: "store_step c r m m' \<Longrightarrow> store_steps cs rs m' m'' \<Longrightarrow> store_steps (c # cs) (r # rs) m m''"

fun names_valid :: "store_op \<Rightarrow> bool" where
  "names_valid (Save st) = (validate_id (per_id st) = Inr ())"
| "names_valid (Load cid) = (validate_id cid = Inr ())"
| "names_valid (Forget st) = (validate_id (per_id st) = Inr ())"

text \<open>The states of the map are those the files hold, each under its own identifier.\<close>

definition holds_at :: "codec \<Rightarrow> string \<Rightarrow> string option \<Rightarrow> persisted option \<Rightarrow> bool" where
  "holds_at cd cid text entry \<longleftrightarrow>
     (case entry of None \<Rightarrow> text = None | Some st \<Rightarrow> per_id st = cid \<and> Option.bind text (dec_state cd) = Some st)"

definition holds :: "codec \<Rightarrow> layout \<Rightarrow> (component list \<Rightarrow> string option) \<Rightarrow> (string \<rightharpoonup> persisted) \<Rightarrow> bool" where
  "holds cd l files m \<longleftrightarrow>
     (\<forall>cid. validate_id cid = Inr () \<longrightarrow> holds_at cd cid (files (components (state_file l cid))) (m cid))"

subsection \<open>The simulation\<close>

lemma state_file_inside:
  assumes "lay_root l \<noteq> []" "validate_id a = Inr ()" "validate_id b = Inr ()"
  shows "inside (components (container_dir l a)) (components (state_file l b)) \<longleftrightarrow> a = b"
  using components_container_dir [OF assms(1,2)] components_files(1) [OF assms(1,3)] by (auto simp: inside_def)

lemma holds_update:
  assumes "holds cd l files m" "holds_at cd a (files' (components (state_file l a))) x"
    and "\<And>cid. validate_id cid = Inr () \<Longrightarrow> cid \<noteq> a \<Longrightarrow> files' (components (state_file l cid)) = files (components (state_file l cid))"
  shows "holds cd l files' (m(a := x))"
  using assms unfolding holds_def by auto

lemma holds_same:
  assumes "holds cd l files m" "\<And>cid. validate_id cid = Inr () \<Longrightarrow> files' (components (state_file l cid)) = files (components (state_file l cid))"
  shows "holds cd l files' m"
  using assms unfolding holds_def by auto

context file_tree begin

lemma sound_keeps:
  "keeps sound (io_text os (Read_File p))" "keeps sound (io_unit os (Write_File p t))" "keeps sound (io_unit os (Rename p q))"
  "keeps sound (io_unit os (Create_Dir_All p))" "keeps sound (io_unit os (Remove_Dir_All p))"
  "keeps sound (is_file os p)" "keeps sound (path_exists os p)"
  using keeps_kind [where S = sound and os = os and p = p] sound_stat
  by (auto intro!: keeps_checked sound_read sound_write sound_rename sound_mkdir sound_remove)

lemma store_call_sound: "keeps sound (store_call os cd l c)"
  by (cases c) (auto simp: container_save_def container_load_def container_remove_def json_def Let_def do_when_def
      intro!: keeps_bind keeps_pure sound_keeps split: option.split)

lemma load_keeps:
  assumes "container_load os cd l cid s = (r, s')"
  shows "content (st_world s') = content (st_world s)"
proof -
  let ?S = "\<lambda>w. content w = content (st_world s)"
  have "keeps ?S (container_load os cd l cid)"
    using keeps_kind [where S = ?S and os = os and p = "state_file l cid"] stat_keeps
    by (auto simp: container_load_def json_def Let_def read_keeps intro!: keeps_bind keeps_pure keeps_checked split: option.split)
  from keepsD [OF this assms] show ?thesis by simp
qed

lemma save_step:
  assumes "container_save os cd l st s = (r, s')" "holds cd l (content (st_world s)) m"
    and "lay_root l \<noteq> []" "validate_id (per_id st) = Inr ()"
    and "\<And>t. enc_state cd st = Some t \<Longrightarrow> dec_state cd t = Some st"
  shows "holds cd l (content (st_world s')) (case r of Inr u \<Rightarrow> m(per_id st \<mapsto> st) | Inl e \<Rightarrow> m)"
proof -
  note saved = save_spec [OF assms(1) staged_ne_state [OF assms(3,4,4)] refl refl]
  have same: "content (st_world s') (components (state_file l cid)) = content (st_world s) (components (state_file l cid))"
    if "validate_id cid = Inr ()" "cid \<noteq> per_id st \<or> (\<exists>e. r = Inl e)" for cid
  proof (cases "cid = per_id st")
    case False
    then have "components (state_file l cid) \<noteq> components (state_file l (per_id st))"
      using components_files(1) [OF assms(3,4)] components_files(1) [OF assms(3) that(1)] by simp
    with saved staged_ne_state [OF assms(3,4) that(1)] show ?thesis by simp
  qed (use saved that in auto)
  show ?thesis
  proof (cases r)
    case (Inl e)
    then show ?thesis using holds_same [OF assms(2)] same by simp
  next
    case (Inr u)
    have own: "Option.bind (content (st_world s') (components (state_file l (per_id st)))) (dec_state cd) = Some st"
      using saved Inr assms(5) by auto
    then have "holds_at cd (per_id st) (content (st_world s') (components (state_file l (per_id st)))) (Some st)"
      by (simp add: holds_at_def)
    from holds_update [where files' = "content (st_world s')" and a = "per_id st", OF assms(2) this] same have "holds cd l (content (st_world s')) (m(per_id st \<mapsto> st))" by blast
    with Inr show ?thesis by simp
  qed
qed

lemma forget_step:
  assumes "container_remove os \<lparr>con_layout = l, con_state = st\<rparr> s = (r, s')" "holds cd l (content (st_world s)) m"
    and "lay_root l \<noteq> []" "validate_id (per_id st) = Inr ()" "sound (st_world s)"
  shows "holds cd l (content (st_world s')) (m(per_id st := None)) \<or> (\<exists>e. r = Inl e) \<and> holds cd l (content (st_world s')) m"
proof -
  let ?d = "container_dir l (per_id st)"
  obtain there s1 where ex: "path_exists os ?d s = (Inr there, s1)"
    using exists_run(3) by (cases "path_exists os ?d s") blast
  note ex' = exists_run [OF ex]
  note insd = state_file_inside [OF assms(3,4)]
  have rest: "holds cd l (content (st_world s')) (m(per_id st := None))"
    if "\<And>cid. validate_id cid = Inr () \<Longrightarrow> content (st_world s') (components (state_file l cid))
        = (if cid = per_id st then None else content (st_world s) (components (state_file l cid)))"
    using assms(4) that by (intro holds_update [OF assms(2)]) (simp_all add: holds_at_def)
  show ?thesis
  proof (cases there)
    case False
    then have "s' = s1" using assms(1) ex by (simp add: container_remove_def con_id_def Let_def bind_def do_when_def ret_def)
    moreover have "content (st_world s) k = None" if "inside (components ?d) k" for k
      using ex'(3) False assms(5) that by auto
    ultimately show ?thesis using ex'(1) insd [OF assms(4)] by (intro disjI1 rest) simp
  next
    case True
    then have rm: "io_unit os (Remove_Dir_All ?d) s1 = (r, s')"
      using assms(1) ex by (simp add: container_remove_def con_id_def Let_def bind_def do_when_def)
    note rm' = remove_run [OF rm]
    show ?thesis
    proof (cases r)
      case (Inr u)
      with rm'(1) ex'(1) insd show ?thesis by (intro disjI1 rest) (auto split: if_splits)
    next
      case (Inl e)
      note part = rm'(2) [unfolded ex'(1)]
      show ?thesis
      proof (cases "content (st_world s') (components (state_file l (per_id st))) = None")
        case True
        with part insd show ?thesis by (intro disjI1 rest) (metis (no_types))
      next
        case False
        with part insd have "content (st_world s') (components (state_file l cid)) = content (st_world s) (components (state_file l cid))"
          if "validate_id cid = Inr ()" for cid using that by metis
        with Inl holds_same [OF assms(2)] show ?thesis by blast
      qed
    qed
  qed
qed

lemma call_step:
  assumes "store_call os cd l c s = (r, s')" "holds cd l (content (st_world s)) m" "sound (st_world s)"
    and "lay_root l \<noteq> []" "names_valid c" "\<And>st t. c = Save st \<Longrightarrow> enc_state cd st = Some t \<Longrightarrow> dec_state cd t = Some st"
  shows "\<exists>m'. store_step c r m m' \<and> holds cd l (content (st_world s')) m' \<and> sound (st_world s')"
proof -
  have sound: "sound (st_world s')" using keepsD [OF store_call_sound assms(1,3)] .
  show ?thesis
  proof (cases c)
    case (Save st)
    obtain q where q: "container_save os cd l st s = (q, s')" "r = (case q of Inl e \<Rightarrow> Inl e | Inr u \<Rightarrow> Inr None)"
      using assms(1) Save by (auto simp: bind_def ret_def split: prod.splits sum.splits)
    from save_step [OF q(1) assms(2,4)] assms(5,6) Save
    have "holds cd l (content (st_world s')) (case q of Inr u \<Rightarrow> m(per_id st \<mapsto> st) | Inl e \<Rightarrow> m)" by simp
    with q(2) sound Save show ?thesis by (cases q) (auto intro: store_step.intros)
  next
    case (Load cid)
    obtain q where q: "container_load os cd l cid s = (q, s')" "r = (case q of Inl e \<Rightarrow> Inl e | Inr c \<Rightarrow> Inr (Some (con_state c)))"
      using assms(1) Load by (auto simp: bind_def ret_def split: prod.splits sum.splits)
    have "q = load_result cd l cid (content (st_world s) (components (state_file l cid)))"
      using load_spec [of cd l cid s] q(1) by simp
    moreover have "holds_at cd cid (content (st_world s) (components (state_file l cid))) (m cid)"
      using assms(2,5) Load by (simp add: holds_def)
    ultimately have "store_step c r m m"
      using q(2) Load
      by (cases "m cid") (auto simp: holds_at_def load_result_def bind_eq_Some_conv intro: store_step.intros)
    with sound load_keeps [OF q(1)] assms(2) show ?thesis by auto
  next
    case (Forget st)
    obtain q where q: "container_remove os \<lparr>con_layout = l, con_state = st\<rparr> s = (q, s')" "r = (case q of Inl e \<Rightarrow> Inl e | Inr u \<Rightarrow> Inr None)"
      using assms(1) Forget by (auto simp: bind_def ret_def split: prod.splits sum.splits)
    from forget_step [OF q(1) assms(2,4) _ assms(3)] assms(5) Forget
    have "holds cd l (content (st_world s')) (m(per_id st := None)) \<or> (\<exists>e. q = Inl e) \<and> holds cd l (content (st_world s')) m" by simp
    with q(2) sound Forget show ?thesis by (cases q) (auto intro: store_step.intros)
  qed
qed

lemma calls_steps:
  assumes "store_calls os cd l cs s = (Inr rs, s')" "holds cd l (content (st_world s)) m" "sound (st_world s)"
    and "lay_root l \<noteq> []" "list_all names_valid cs" "\<And>st t. Save st \<in> set cs \<Longrightarrow> enc_state cd st = Some t \<Longrightarrow> dec_state cd t = Some st"
  shows "\<exists>m'. store_steps cs rs m m' \<and> holds cd l (content (st_world s')) m' \<and> sound (st_world s')"
  using assms
proof (induction cs arbitrary: s rs m)
  case Nil
  then show ?case by (auto simp: ret_def intro: no_steps)
next
  case (Cons c cs)
  then obtain r s1 rs' where c: "store_call os cd l c s = (r, s1)" and rest: "store_calls os cd l cs s1 = (Inr rs', s')" "rs = r # rs'"
    by (auto simp: bind_Inr attempt_run ret_Inr)
  have valid: "names_valid c" "list_all names_valid cs" using Cons.prems(5) by simp_all
  have codec: "dec_state cd t = Some st" if "Save st \<in> set (c # cs)" "enc_state cd st = Some t" for st t
    using Cons.prems(6) that by blast
  from call_step [OF c Cons.prems(2,3,4) valid(1)] codec obtain m1 where
    one: "store_step c r m m1" "holds cd l (content (st_world s1)) m1" "sound (st_world s1)" by fastforce
  from Cons.IH [OF rest(1) one(2,3) Cons.prems(4) valid(2)] codec obtain m' where
    "store_steps cs rs' m1 m'" "holds cd l (content (st_world s')) m'" "sound (st_world s')" by fastforce
  with one(1) rest(2) show ?case by (blast intro: more_steps)
qed

end

subsection \<open>The tree of files\<close>

definition tree_sound :: "tree \<Rightarrow> bool" where
  "tree_sound t \<longleftrightarrow> (\<forall>k. t k \<noteq> None \<longrightarrow> k \<noteq> [] \<and> k \<noteq> [RootDir] \<and> has_dir t (butlast k))"

lemma sound_entry: "tree_sound t \<Longrightarrow> t k \<noteq> None \<Longrightarrow> k \<noteq> [] \<and> k \<noteq> [RootDir] \<and> has_dir t (butlast k)"
  unfolding tree_sound_def by blast

lemma sound_upward:
  assumes "tree_sound t" "t k \<noteq> None" "inside d k"
  shows "d = k \<or> has_dir t d"
  using assms(2,3)
proof (induction k rule: rev_induct)
  case (snoc x k)
  have up: "has_dir t k" using sound_entry [OF assms(1) snoc.prems(1)] by simp
  show ?case
  proof (cases "d = k @ [x] \<or> d = k")
    case False
    then have "inside d k" using snoc.prems(2) by (auto simp: inside_def take_Cons' split: if_splits)
    with up snoc.IH False show ?thesis by (cases "t k") (auto simp: has_dir_def inside_def take_Cons' split: if_splits)
  qed (use up in auto)
qed (simp add: inside_def)

lemma sound_put:
  assumes "tree_sound t" "has_dir t (butlast k)" "\<not> has_dir t k"
  shows "tree_sound (t(k \<mapsto> v))"
  unfolding tree_sound_def
proof (intro allI impI)
  fix j assume "(t(k \<mapsto> v)) j \<noteq> None"
  then have j: "j = k \<or> t j \<noteq> None" by (auto split: if_splits)
  then have up: "has_dir t (butlast j)" and ne: "j \<noteq> []" "j \<noteq> [RootDir]"
    using assms sound_entry [OF assms(1)] by (auto simp: has_dir_def)
  from up assms(3) have "butlast j \<noteq> k" by auto
  with up ne show "j \<noteq> [] \<and> j \<noteq> [RootDir] \<and> has_dir (t(k \<mapsto> v)) (butlast j)" by (simp add: has_dir_def)
qed

lemma sound_cut:
  assumes "tree_sound t" "\<And>j. t j \<noteq> None \<Longrightarrow> \<not> K j \<Longrightarrow> \<not> K (butlast j)"
  shows "tree_sound (\<lambda>j. if K j then None else t j)"
  using assms unfolding tree_sound_def has_dir_def by auto

lemma sound_tree_write: "tree_sound t \<Longrightarrow> tree_sound (snd (tree_write k v t))"
  by (simp add: tree_write_def sound_put)

lemma sound_tree_mkdirs: "tree_sound t \<Longrightarrow> tree_sound (snd (tree_mkdirs ks t))"
proof (induction ks arbitrary: t)
  case (Cons k ks)
  have one: "tree_sound (snd (tree_mkdir k t))" using Cons.prems by (simp add: tree_mkdir_def sound_put)
  show ?case
  proof (cases "has_dir t k")
    case False
    obtain q u where mk: "tree_mkdir k t = (q, u)" by fastforce
    with one Cons.IH [of u] False show ?thesis by (cases q) simp_all
  qed (use Cons in simp)
qed simp

lemma sound_tree_rename: "tree_sound t \<Longrightarrow> tree_sound (snd (tree_rename k q t))"
proof -
  assume sound: "tree_sound t"
  show "tree_sound (snd (tree_rename k q t))"
  proof (cases "\<exists>v. file_at t k = Some v \<and> \<not> has_dir t q \<and> has_dir t (butlast q) \<and> k \<noteq> q")
    case True
    then obtain v where v: "file_at t k = Some v" "\<not> has_dir t q" "has_dir t (butlast q)" "k \<noteq> q" by blast
    then have entry: "t k = Some (File v)" by (auto simp: file_at_def split: option.splits node.splits)
    let ?u = "t(q \<mapsto> File v)"
    have put: "tree_sound ?u" using sound_put [OF sound v(3,2)] .
    have "tree_sound (\<lambda>j. if j = k then None else ?u j)"
    proof (rule sound_cut [OF put])
      have "\<not> has_dir ?u k" using sound_entry [OF sound, of k] entry v(4) by (simp add: has_dir_def)
      then show "butlast j \<noteq> k" if "?u j \<noteq> None" for j using sound_entry [OF put that] by metis
    qed
    moreover have "(\<lambda>j. if j = k then None else ?u j) = ?u(k := None)" by auto
    ultimately show ?thesis using v by (simp add: tree_rename_def)
  qed (use sound in \<open>auto simp: tree_rename_def split: option.split\<close>)
qed

lemma inside_butlast: "inside d (butlast j) \<Longrightarrow> inside d j"
  unfolding inside_def by (metis butlast_conv_take take_take min.absorb1 length_take min.cobounded1 order_trans)

lemma sound_tree_remove: "tree_sound t \<Longrightarrow> tree_sound (snd (tree_remove_all k t))"
  using sound_cut [of t "\<lambda>j. take (length k) j = k"] inside_butlast
  by (auto simp: tree_remove_all_def inside_def)

interpretation tree_dirs: file_tree tree_os file_at tree_sound
proof
  fix w w' p k e
  show "os_unit tree_os (Fs (Remove_Dir_All p)) w = (Inr (), w') \<Longrightarrow>
      file_at w' k = (if inside (components p) k then None else file_at w k)"
    by (auto simp: tree_os_def tree_remove_all_def file_at_def inside_def split: if_splits)
  show "os_unit tree_os (Fs (Remove_Dir_All p)) w = (Inl e, w') \<Longrightarrow>
      file_at w' k = file_at w k \<or> inside (components p) k \<and> file_at w' k = None"
    by (auto simp: tree_os_def tree_remove_all_def split: if_splits)
  show "\<exists>kind. fst (os_kind tree_os (Fs (Stat p)) w) = Inr kind"
    if "tree_sound w" "file_at w k \<noteq> None" "inside (components p) k"
    using sound_upward [of w k "components p"] that by (auto simp: tree_os_def file_at_def split: option.splits)
qed (simp_all add: tree_os_def sound_tree_write sound_tree_mkdirs sound_tree_rename sound_tree_remove)


subsection \<open>The refinement\<close>

text \<open>C11: the state directory is a map from identifiers to states: on a file system that keeps what is written,
  every history of saves, loads and removals under valid identifiers gives the replies a map gives. A
  save that fails changes nothing, for any container; a removal that fails removes its own state or
  nothing; a state is always found under the identifier it names, so removing what was loaded removes
  the directory it was loaded from.\<close>

theorem state_directory_is_map:
  assumes fs: "file_tree os content sound" and root: "lay_root l \<noteq> []" and valid: "list_all names_valid cs"
    and codec: "\<And>st t. Save st \<in> set cs \<Longrightarrow> enc_state cd st = Some t \<Longrightarrow> dec_state cd t = Some st"
    and before: "holds cd l (content (st_world s)) m" "sound (st_world s)"
    and run: "store_calls os cd l cs s = (Inr rs, s')"
  shows "\<exists>m'. store_steps cs rs m m' \<and> holds cd l (content (st_world s')) m' \<and> sound (st_world s')"
  by (rule file_tree.calls_steps [OF fs run before root valid codec])

lemma state_directory_is_map_witness:
  "\<exists>m. store_steps [Save sample_state, Load ''a'', Forget sample_state, Load ''a'']
      [Inr None, Inr (Some sample_state), Inr None, Inl (NotFound ''a'')] Map.empty m"
proof -
  let ?cs = "[Save sample_state, Load ''a'', Forget sample_state, Load ''a'']"
  let ?rs = "[Inr None, Inr (Some sample_state), Inr None, Inl (NotFound ''a'')]"
  have run: "fst (store_calls tree_os sample_codec run_root ?cs empty_tree) = Inr ?rs"
    by code_simp
  have "dec_state sample_codec t = Some st" if "Save st \<in> set ?cs" for st t
    using that by (simp add: sample_codec_def)
  moreover have "holds sample_codec run_root (file_at (st_world empty_tree)) Map.empty" "tree_sound (st_world empty_tree)"
    by (simp_all add: holds_def holds_at_def tree_sound_def empty_tree_def file_at_def)
  moreover have "list_all names_valid ?cs" using sample_ids by simp
  ultimately show ?thesis
    using state_directory_is_map [OF tree_dirs.file_tree_axioms _ _ _ _ _ run_eq [of "store_calls tree_os sample_codec run_root ?cs", OF run], of Map.empty] by auto
qed

end
