(* ===== verification/Oci_Machine.thy ===== *)
theory Oci_Machine
  imports Lifecycle
begin

section \<open>The OCI life cycle as a state machine (refinement)\<close>

text \<open>
  What a client sees of a container is whether its init lives, whether its group is frozen or told to be,
  and whether it still waits for its start. \<open>oci_step\<close> says how requests may change that; it is the
  specification. The locale \<open>container_kernel\<close> states what the kernel shows of one container and how
  the calls of the runtime change it (processes die at any time, a freeze settles later than it is
  asked for); under it the code of every request takes the steps of the machine.
\<close>

named_theorems drifting "programs under which a container only drifts"

subsection \<open>What a client sees\<close>

record view =
  v_alive :: bool
  v_frozen :: bool
  v_wanted :: bool
  v_waiting :: bool

text \<open>What may happen by itself: the init dies, the group settles to what it was told.\<close>

definition drift :: "view \<Rightarrow> view \<Rightarrow> bool" where
  "drift v v' \<longleftrightarrow> (v_alive v' \<longrightarrow> v_alive v) \<and> v_waiting v' = v_waiting v \<and> v_wanted v' = v_wanted v
     \<and> v_frozen v' \<in> {v_frozen v, v_wanted v}"

lemma drift_refl [simp]: "drift v v"
  by (simp add: drift_def)

lemma drift_trans: "drift u v \<Longrightarrow> drift v w \<Longrightarrow> drift u w"
  by (auto simp: drift_def)

text \<open>\<open>thawed\<close> and \<open>freezing\<close>: the group may be seen so, now or after it has settled.\<close>

definition thawed :: "view \<Rightarrow> bool" where
  "thawed v \<longleftrightarrow> \<not> v_frozen v \<or> \<not> v_wanted v"

definition freezing :: "view \<Rightarrow> bool" where
  "freezing v \<longleftrightarrow> v_frozen v \<or> v_wanted v"

subsection \<open>The machine\<close>

inductive oci_step :: "request \<Rightarrow> bool \<Rightarrow> view \<Rightarrow> view \<Rightarrow> bool" where
  started: "v_alive v \<Longrightarrow> v_waiting v \<Longrightarrow> thawed v \<Longrightarrow> drift (v\<lparr>v_waiting := False\<rparr>) v' \<Longrightarrow> oci_step Ask_Start won v v'"
| paused: "v_alive v \<Longrightarrow> thawed v \<Longrightarrow> drift (v\<lparr>v_frozen := True, v_wanted := True\<rparr>) v' \<Longrightarrow> oci_step Ask_Pause True v v'"
| resumed: "v_alive v \<Longrightarrow> freezing v \<Longrightarrow> drift (v\<lparr>v_frozen := False, v_wanted := False\<rparr>) v' \<Longrightarrow> oci_step Ask_Resume True v v'"
| killed: "v_alive v \<Longrightarrow> drift v v' \<Longrightarrow> oci_step (Ask_Kill sig all) True v v'"
| killed_frozen: "v_alive v \<Longrightarrow> thawed v \<Longrightarrow> drift (v\<lparr>v_frozen := False, v_wanted := False\<rparr>) v' \<Longrightarrow>
    oci_step (Ask_Kill sig True) True v v'"
| updated: "v_alive v \<Longrightarrow> drift v v' \<Longrightarrow> oci_step (Ask_Update r) True v v'"
| listed: "v_alive v \<Longrightarrow> drift v v' \<Longrightarrow> oci_step (Ask_Ps pargs) True v v'"
| watched: "v_alive v \<Longrightarrow> drift v v' \<Longrightarrow> oci_step (Ask_Events eargs) True v v'"
| refused: "drift v v' \<Longrightarrow> oci_step q False v v'"
| half_frozen: "v_alive v \<Longrightarrow> q \<in> {Ask_Pause, Ask_Resume} \<or> (\<exists>sig. q = Ask_Kill sig True) \<Longrightarrow>
    drift (v\<lparr>v_frozen := f, v_wanted := b\<rparr>) v' \<Longrightarrow> oci_step q False v v'"

inductive oci_steps :: "request list \<Rightarrow> bool list \<Rightarrow> view \<Rightarrow> view \<Rightarrow> bool" where
  idle: "oci_steps [] [] v v"
| next_request: "oci_step q won v v' \<Longrightarrow> oci_steps qs wins v' v'' \<Longrightarrow> oci_steps (q # qs) (won # wins) v v''"

inductive_cases idleE: "oci_steps [] wins v v'"
inductive_cases next_requestE: "oci_steps (q # qs) wins v v'"
inductive_cases startedE: "oci_step Ask_Start True v v'"

text \<open>Nothing brings a dead init back, and nothing makes a started container wait again.\<close>

lemma step_monotone: "oci_step q won v v' \<Longrightarrow> (v_alive v' \<longrightarrow> v_alive v) \<and> (v_waiting v' \<longrightarrow> v_waiting v)"
  by (induction rule: oci_step.induct) (auto simp: drift_def)

lemma steps_monotone: "oci_steps qs wins v v' \<Longrightarrow> (v_alive v' \<longrightarrow> v_alive v) \<and> (v_waiting v' \<longrightarrow> v_waiting v)"
  by (induction rule: oci_steps.induct) (auto dest: step_monotone)

lemma success_needs_life: "oci_step q True v v' \<Longrightarrow> v_alive v"
  by (cases rule: oci_step.cases) auto

definition starts :: "request list \<Rightarrow> bool list \<Rightarrow> nat" where
  "starts qs wins = count_list (zip qs wins) (Ask_Start, True)"

lemma steps_start_once: "oci_steps qs wins v v' \<Longrightarrow> starts qs wins \<le> (if v_waiting v then 1 else 0)"
proof (induction rule: oci_steps.induct)
  case (next_request q won v v' qs wins v'')
  show ?case
  proof (cases "q = Ask_Start \<and> won")
    case True
    with next_request.hyps(1) have "v_waiting v" "\<not> v_waiting v'" by (auto elim!: startedE simp: drift_def)
    with True next_request.IH show ?thesis by (simp add: starts_def)
  next
    case False
    with next_request.IH step_monotone [OF next_request.hyps(1)] show ?thesis
      by (auto simp: starts_def split: if_splits)
  qed
qed (simp add: starts_def)

lemma steps_dead: "oci_steps qs wins v v' \<Longrightarrow> \<not> v_alive v \<Longrightarrow> True \<notin> set wins"
  by (induction rule: oci_steps.induct) (auto dest: step_monotone success_needs_life)

subsection \<open>Programs under which a container drifts\<close>

definition drifts :: "('w \<Rightarrow> view) \<Rightarrow> ('w, 'a) io \<Rightarrow> bool" where
  "drifts view m \<longleftrightarrow> (\<forall>s r s'. m s = (r, s') \<longrightarrow> drift (view (st_world s)) (view (st_world s')))"

lemma driftsD: "drifts view m \<Longrightarrow> m s = (r, s') \<Longrightarrow> drift (view (st_world s)) (view (st_world s'))"
  unfolding drifts_def by blast

lemma drifts_pure [drifting]: "drifts view (ret x)" "drifts view (throw e)" "drifts view (lift q)" "drifts view (json z)"
  "drifts view (gets_clock g)" "drifts view (set_clock u)"
  by (auto simp: drifts_def json_def ret_def throw_def lift_def gets_clock_def set_clock_def split: option.splits)

lemma drifts_bind [drifting]: "drifts view m \<Longrightarrow> (\<And>x. drifts view (f x)) \<Longrightarrow> drifts view (bind m f)"
  unfolding drifts_def bind_def by (auto split: prod.splits sum.splits) (blast intro: drift_trans)+

lemma drifts_perform: "(\<And>w. drift (view w) (view (snd (f c w)))) \<Longrightarrow> drifts view (perform f c)"
  unfolding drifts_def perform_def by (auto split: prod.splits) (metis snd_conv)

lemma drifts_checked: "(\<And>w. drift (view w) (view (snd (f c w)))) \<Longrightarrow> drifts view (checked wrap f c)"
  unfolding checked_def by (intro drifts_bind drifts_perform) (auto intro: drifting split: sum.split)

lemma drifts_attempt [drifting]: "drifts view m \<Longrightarrow> drifts view (attempt m)"
  unfolding drifts_def attempt_def by (auto split: prod.splits)

lemma drifts_ignore [drifting]: "drifts view m \<Longrightarrow> drifts view (ignore m)"
  unfolding ignore_def by (intro drifts_bind drifts_attempt drifts_pure)

lemma drifts_do_when [drifting]: "(b \<Longrightarrow> drifts view m) \<Longrightarrow> drifts view (do_when b m)"
  unfolding do_when_def by (auto intro: drifting)

lemma drifts_for_each [drifting]: "(\<And>x. x \<in> set xs \<Longrightarrow> drifts view (f x)) \<Longrightarrow> drifts view (for_each f xs)"
  by (induction xs) (auto intro!: drifting)

lemma drifts_cases [drifting]:
  "(b \<Longrightarrow> drifts view m) \<Longrightarrow> (\<not> b \<Longrightarrow> drifts view m') \<Longrightarrow> drifts view (if b then m else m')"
  "(o' = None \<Longrightarrow> drifts view m) \<Longrightarrow> (\<And>x. o' = Some x \<Longrightarrow> drifts view (f x)) \<Longrightarrow> drifts view (case o' of None \<Rightarrow> m | Some x \<Rightarrow> f x)"
  "(\<And>e. q = Inl e \<Longrightarrow> drifts view (g e)) \<Longrightarrow> (\<And>x. q = Inr x \<Longrightarrow> drifts view (h x)) \<Longrightarrow>
     drifts view (case q of Inl e \<Rightarrow> g e | Inr x \<Rightarrow> h x)"
  by (auto split: option.split sum.split)

text \<open>What a program does to the container, with its result.\<close>

definition effect :: "('w \<Rightarrow> view) \<Rightarrow> (view \<Rightarrow> error + 'a \<Rightarrow> view \<Rightarrow> bool) \<Rightarrow> ('w, 'a) io \<Rightarrow> bool" where
  "effect view R m \<longleftrightarrow> (\<forall>s r s'. m s = (r, s') \<longrightarrow> R (view (st_world s)) r (view (st_world s')))"

lemma effectD: "effect view R m \<Longrightarrow> m s = (r, s') \<Longrightarrow> R (view (st_world s)) r (view (st_world s'))"
  unfolding effect_def by blast

lemma effect_bind:
  assumes "drifts view m" "\<And>x. effect view R (f x)" "\<And>v v1 v' r. drift v v1 \<Longrightarrow> R v1 r v' \<Longrightarrow> R v r v'"
    and "\<And>e v v'. drift v v' \<Longrightarrow> R v (Inl e) v'"
  shows "effect view R (bind m f)"
  unfolding effect_def
proof (intro allI impI)
  fix s r s' assume run: "bind m f s = (r, s')"
  obtain q s1 where m: "m s = (q, s1)" by fastforce
  note d = driftsD [OF assms(1) m]
  show "R (view (st_world s)) r (view (st_world s'))"
  proof (cases q)
    case (Inl e)
    with run m d assms(4) show ?thesis by (auto simp: bind_def)
  next
    case (Inr x)
    with run m have "f x s1 = (r, s')" by (simp add: bind_def)
    from assms(3) [OF d effectD [OF assms(2) this]] show ?thesis .
  qed
qed

subsection \<open>What the kernel promises of one container\<close>

definition events_file :: "container \<Rightarrow> path" where
  "events_file c = join_path (cg_path (con_cgroup c)) ''cgroup.events''"

text \<open>A file of the container's group other than the one that freezes it.\<close>

definition other_file :: "container \<Rightarrow> path \<Rightarrow> bool" where
  "other_file c p \<longleftrightarrow> (case rev (components p) of
     Normal f # up \<Rightarrow> rev up = components (cg_path (con_cgroup c)) \<and> f \<noteq> ''cgroup.freeze''
   | _ \<Rightarrow> False)"

lemma group_path: "cg_path (con_cgroup c) \<noteq> []"
  by (simp add: con_cgroup_def cg_attach_def join_path_def MOUNT_POINT_def has_root_def)

lemma other_file_plain: "plain_name f \<Longrightarrow> other_file c (join_path (cg_path (con_cgroup c)) f) \<longleftrightarrow> f \<noteq> ''cgroup.freeze''"
  by (simp add: other_file_def components_join_plain group_path)

text \<open>The calls that neither freeze the group nor touch the fifo. A hook or a \<open>ps\<close> is taken to be such a call too:
  it does not act on the container behind the runtime's back.\<close>

fun calm :: "container \<Rightarrow> call \<Rightarrow> bool" where
  "calm c (Fs (Stat p)) = True"
| "calm c (Fs (Read_File p)) = True"
| "calm c (Fs (Canonicalize p)) = True"
| "calm c (Fs (Write_File p v)) = other_file c p"
| "calm c (Fd (Open_Read p)) = True"
| "calm c (Fd (Fd_Read f n)) = True"
| "calm c (Proc (Kill p sig)) = True"
| "calm c (Proc (Sleep_Ms n)) = True"
| "calm c (Proc (Run_Command p args)) = True"
| "calm c (Proc (Spawn p args env)) = True"
| "calm c (Proc (Child_Stdin v)) = True"
| "calm c (Proc Child_Wait) = True"
| "calm c (Proc Child_Try_Wait) = True"
| "calm c (Proc Child_Kill) = True"
| "calm c (Misc x) = True"
| "calm c x = False"

text \<open>A client's requests, one after the other, whatever each of them gives.\<close>

fun serve_all :: "'w os \<Rightarrow> host \<Rightarrow> layout \<Rightarrow> string \<Rightarrow> request list \<Rightarrow> ('w, (error + unit) list) io" where
  "serve_all os h l cid [] = ret []"
| "serve_all os h l cid (q # qs) =
     bind (attempt (serve os h l cid q)) (\<lambda>r. bind (serve_all os h l cid qs) (\<lambda>rs. ret (r # rs)))"

text \<open>An update is tame when its \<^verbatim>\<open>unified\<close> entries name files of the group, and not the one that freezes it.\<close>

fun tame :: "request \<Rightarrow> bool" where
  "tame (Ask_Update r) = list_all (\<lambda>(k, v). plain_name k \<and> k \<noteq> ''cgroup.freeze'') (opt_or [] (res_unified r))"
| "tame q = True"

locale container_kernel =
  fixes os :: "'w os" and cd :: codec and c :: container and view :: "'w \<Rightarrow> view"
  assumes stat_shows: "(\<exists>t. fst (os_text os (Fs (Read_File (stat_path (con_pid c)))) w) = Inr t
      \<and> parse_start_time t = Some (per_start_time (con_state c))) \<longleftrightarrow> v_alive (view w)"
    and events_show: "(\<exists>t. fst (os_text os (Fs (Read_File (events_file c))) w) = Inr t \<and> frozen_in t) \<longleftrightarrow> v_frozen (view w)"
    and fifo_shows: "(\<exists>k. fst (os_kind os (Fs (Stat (con_exec_fifo c))) w) = Inr k) \<longleftrightarrow> v_waiting (view w)"
    and state_shows: "fst (os_text os (Fs (Read_File (state_file (con_layout c) (con_id c)))) w) = Inr t \<Longrightarrow>
      dec_state cd t = Some st \<Longrightarrow> st = con_state c"
    and calm_unit: "calm c x \<Longrightarrow> drift (view w) (view (snd (os_unit os x w)))"
    and calm_kind: "calm c x \<Longrightarrow> drift (view w) (view (snd (os_kind os x w)))"
    and calm_text: "calm c x \<Longrightarrow> drift (view w) (view (snd (os_text os x w)))"
    and calm_num: "calm c x \<Longrightarrow> drift (view w) (view (snd (os_num os x w)))"
    and calm_wait: "calm c x \<Longrightarrow> drift (view w) (view (snd (os_wait os x w)))"
    and freeze_told: "os_unit os (freeze_write (con_cgroup c) b) w = (Inr (), w') \<Longrightarrow> drift ((view w)\<lparr>v_wanted := b\<rparr>) (view w')"
    and freeze_refused: "os_unit os (freeze_write (con_cgroup c) b) w = (Inl e, w') \<Longrightarrow> drift (view w) (view w')"
    and fifo_gone: "os_unit os (Fs (Remove_File (con_exec_fifo c))) w = (Inr (), w') \<Longrightarrow>
      drift ((view w)\<lparr>v_waiting := False\<rparr>) (view w')"
    and fifo_kept: "os_unit os (Fs (Remove_File (con_exec_fifo c))) w = (Inl e, w') \<Longrightarrow> drift (view w) (view w')"
begin

lemmas calls = calm_unit calm_kind calm_text calm_num calm_wait

lemma drifts_calls [drifting]:
  "calm c x \<Longrightarrow> drifts view (perform (os_unit os) x)" "calm c x \<Longrightarrow> drifts view (perform (os_kind os) x)"
  "calm c x \<Longrightarrow> drifts view (perform (os_text os) x)" "calm c x \<Longrightarrow> drifts view (perform (os_num os) x)"
  "calm c x \<Longrightarrow> drifts view (perform (os_wait os) x)"
  "calm c x \<Longrightarrow> drifts view (checked wrap (os_unit os) x)" "calm c x \<Longrightarrow> drifts view (checked wrap (os_text os) x)"
  "calm c x \<Longrightarrow> drifts view (checked wrap (os_num os) x)" "calm c x \<Longrightarrow> drifts view (checked wrap (os_wait os) x)"
  by (auto intro!: drifts_perform drifts_checked calls)

lemma drifts_stat [drifting]: "drifts view (is_file os p)" "drifts view (is_dir os p)" "drifts view (path_exists os p)"
  unfolding is_file_def is_dir_def path_exists_def by (auto intro!: drifting)

lemma drifts_status [drifting]: "drifts view (alive os c')" "drifts view (is_frozen os cg)" "drifts view (container_status os c')"
  unfolding container_status_def alive_def start_time_def is_frozen_def cg_read_def by (auto intro!: drifting)

lemma drifts_loads [drifting]: "drifts view (container_load os cd' l cid)" "drifts view (oci_state_of os c')"
    "drifts view (container_hooks os cd' c')" "drifts view (cg_procs os cg)"
  unfolding container_load_def oci_state_of_def container_hooks_def bundle_load_def cg_procs_def cg_read_def Let_def
  by (auto intro!: drifting)

lemma drifts_poll: "drifts view (poll_hook os seconds deadline n)"
  by (induction n) (auto simp: now_us_def intro!: drifting)

lemma drifts_hooks [drifting]: "drifts view (hooks_run os cd' fuel hks phase st)"
proof -
  have one: "drifts view (one_hook os fuel hk payload)" for hk payload
    unfolding one_hook_def spawn_hook_def now_us_def by (auto intro!: drifting drifts_poll)
  have "drifts view (run_hooks os fuel phase payload index hs)" for payload index hs
    by (induction hs arbitrary: index) (auto intro!: drifting one)
  then show ?thesis unfolding hooks_run_def by (auto intro!: drifting)
qed

lemma drifts_signals [drifting]: "drifts view (send_signal os sig p)"
  unfolding send_signal_def by (auto intro!: drifting)

lemma drifts_println [drifting]: "drifts view (println os t)"
  unfolding println_def by (auto intro!: drifting)

lemma drifts_ps: "drifts view (ps_body os h args c')"
  unfolding ps_body_def ps_table_def by (auto intro!: drifting)

lemma drifts_events: "drifts view (events_body os h args c')"
proof -
  have single: "drifts view (single_value os cg f)" for cg f
    unfolding single_value_def cg_read_def by (auto intro!: drifting)
  have sample: "drifts view (sample os c')" for c'
    unfolding sample_def memory_events_of_def cpu_stat_of_def cg_read_def Let_def by (auto intro!: drifting single)
  have "drifts view (watch os h c' interval n)" for c' interval n
    by (induction n) (auto intro!: drifting sample)
  then show ?thesis unfolding events_body_def by (auto intro!: drifting sample)
qed

text \<open>What the runtime sees of the container is so when it looks.\<close>

lemma alive_seen: "alive os c s = (r, s') \<Longrightarrow> r = Inr (v_alive (view (st_world s)))"
  using alive_spec [of os c s] stat_shows [of "st_world s"] by (auto simp: stat_says_def) (metis fst_conv surj_pair)

lemma frozen_seen: "is_frozen os (con_cgroup c) s = (r, s') \<Longrightarrow> r = Inr (v_frozen (view (st_world s)))"
  using events_show [of "st_world s"]
  by (cases "os_text os (Fs (Read_File (events_file c))) (st_world s)")
    (auto simp: is_frozen_def cg_read_def io_simps events_file_def split: sum.splits)

lemma fifo_seen: "path_exists os (con_exec_fifo c) s = (r, s') \<Longrightarrow> r = Inr (v_waiting (view (st_world s)))"
  using fifo_shows [of "st_world s"]
  by (cases "fst (os_kind os (Fs (Stat (con_exec_fifo c))) (st_world s))")
    (auto simp: path_exists_def bind_def perform_def ret_def split: prod.splits)

lemma status_seen:
  assumes "container_status os c s = (Inr st, s')"
  shows "(st \<noteq> Stopped \<longrightarrow> v_alive (view (st_world s))) \<and> (st = Paused \<longrightarrow> freezing (view (st_world s)))
    \<and> (st = Created \<or> st = Running \<longrightarrow> thawed (view (st_world s))) \<and> (st = Created \<longrightarrow> v_waiting (view (st_world s)))"
proof -
  obtain s1 where live: "alive os c s = (Inr (v_alive (view (st_world s))), s1)"
    using alive_seen [of s] by (metis surj_pair)
  note d1 = driftsD [OF drifts_status(1) live]
  obtain s2 where ice: "is_frozen os (con_cgroup c) s1 = (Inr (v_frozen (view (st_world s1))), s2)"
    using frozen_seen [of s1] by (metis surj_pair)
  note d2 = driftsD [OF drifts_status(2) ice]
  obtain s3 where fifo: "path_exists os (con_exec_fifo c) s2 = (Inr (v_waiting (view (st_world s2))), s3)"
    using fifo_seen [of s2] by (metis surj_pair)
  from assms live ice fifo d1 d2 show ?thesis
    by (auto simp: container_status_def bind_def ret_def drift_def thawed_def freezing_def split: if_splits)
qed

lemma await_seen:
  assumes "await_frozen os (con_cgroup c) b n s = (Inr u, s')" "v_wanted (view (st_world s)) = b"
  shows "v_frozen (view (st_world s')) = b"
  using assms
proof (induction n arbitrary: s)
  case (Suc n)
  obtain s1 where ice: "is_frozen os (con_cgroup c) s = (Inr (v_frozen (view (st_world s))), s1)"
    using frozen_seen [of s] by (metis surj_pair)
  note d1 = driftsD [OF drifts_status(2) ice]
  show ?case
  proof (cases "v_frozen (view (st_world s)) = b")
    case True
    with Suc.prems ice d1 show ?thesis by (auto simp: bind_def ret_def drift_def)
  next
    case False
    obtain q s2 where nap: "perform (os_unit os) (Proc (Sleep_Ms 10)) s1 = (Inr q, s2)"
      by (cases "os_unit os (Proc (Sleep_Ms 10)) (st_world s1)") (auto simp: perform_def)
    have "drifts view (perform (os_unit os) (Proc (Sleep_Ms 10)))" by (auto intro!: drifting)
    from driftsD [OF this nap] d1 Suc.prems(2) have "v_wanted (view (st_world s2)) = b" by (simp add: drift_def)
    moreover from Suc.prems(1) ice nap False have "await_frozen os (con_cgroup c) b n s2 = (Inr u, s')"
      by (simp add: bind_def)
    ultimately show ?thesis using Suc.IH by blast
  qed
qed (simp add: throw_def)

lemma drifts_await: "drifts view (await_frozen os cg b n)"
  by (induction n) (auto intro!: drifting)

lemma freeze_effect:
  assumes "freeze os (con_cgroup c) b s = (r, s')"
  shows "(r = Inr () \<longrightarrow> drift ((view (st_world s))\<lparr>v_frozen := b, v_wanted := b\<rparr>) (view (st_world s')))
    \<and> (\<forall>e. r = Inl e \<longrightarrow> drift (view (st_world s)) (view (st_world s'))
        \<or> (\<exists>f. drift ((view (st_world s))\<lparr>v_frozen := f, v_wanted := b\<rparr>) (view (st_world s'))))"
proof -
  obtain q s1 where wr: "cg_write os (con_cgroup c) ''cgroup.freeze'' (if b then ''1'' else ''0'') s = (q, s1)" by fastforce
  obtain u w where u: "os_unit os (freeze_write (con_cgroup c) b) (st_world s) = (u, w)" "st_world s1 = w"
    "q = (case u of Inl e \<Rightarrow> Inl (Io (freeze_write (con_cgroup c) b) e) | Inr x \<Rightarrow> Inr x)"
    using wr unfolding cg_write_def freeze_write_def by (rule checked_run)
  show ?thesis
  proof (cases u)
    case (Inl e)
    with u freeze_refused wr assms show ?thesis by (auto simp: freeze_def bind_def)
  next
    case (Inr x)
    with u wr assms have rest: "await_frozen os (con_cgroup c) b 500 s1 = (r, s')" by (simp add: freeze_def bind_def)
    from Inr u freeze_told have d: "drift ((view (st_world s))\<lparr>v_wanted := b\<rparr>) (view (st_world s1))" by simp
    from await_seen [of b 500 s1 "()" s'] rest d driftsD [OF drifts_await rest] show ?thesis
      by (auto simp: drift_def intro: exI [of _ "v_frozen (view (st_world s))"])
  qed
qed

lemma release_effect: "effect view (\<lambda>v r v'. drift (if r = Inr () then v\<lparr>v_waiting := False\<rparr> else v) v') (fifo_release os (con_exec_fifo c))"
    (is "effect view ?R _")
proof -
  note steps = effect_bind [where R = ?R]
  have remove: "effect view ?R (io_unit os (Remove_File (con_exec_fifo c)))"
    unfolding effect_def
  proof (intro allI impI)
    fix s r s' assume run: "io_unit os (Remove_File (con_exec_fifo c)) s = (r, s')"
    obtain u w where u: "os_unit os (Fs (Remove_File (con_exec_fifo c))) (st_world s) = (u, w)" "st_world s' = w"
      "r = (case u of Inl e \<Rightarrow> Inl (Io (Fs (Remove_File (con_exec_fifo c))) e) | Inr x \<Rightarrow> Inr x)"
      using run by (rule checked_run)
    then show "?R (view (st_world s)) r (view (st_world s'))"
      using fifo_gone [of "st_world s" w] fifo_kept [of "st_world s" _ w] by (cases u) auto
  qed
  have fails: "effect view ?R (throw e)" for e by (simp add: effect_def throw_def)
  have shift: "drift v v1 \<Longrightarrow> ?R v1 r v' \<Longrightarrow> ?R v r v'" for v v1 v' :: view and r
    by (auto simp: drift_def split: if_splits)
  show ?thesis
    unfolding fifo_release_def
    by (auto intro!: effect_bind [where R = ?R, OF _ _ shift] remove fails drifting)
qed

lemma drifts_apply:
  assumes "tame (Ask_Update r)"
  shows "drifts view (cg_apply os (con_cgroup c) r)"
proof -
  have files: "plain_name f \<and> f \<noteq> ''cgroup.freeze''" if "(f, v) \<in> set (resource_writes r)" for f v
  proof -
    have "(f, v) \<in> set (opt_or [] (res_unified r)) \<or> f \<in> {''memory.max'', ''memory.low'', ''memory.swap.max'', ''cpu.max'',
        ''cpu.weight'', ''cpuset.cpus'', ''cpuset.mems'', ''pids.max'', ''io.weight'', ''io.max''}"
      using that
      by (cases "res_unified r") (auto simp: resource_writes_def memory_writes_def cpu_writes_def block_io_writes_def opt_list_def
        split: option.splits if_splits)
    with assms show ?thesis by (auto simp: list_all_iff plain_name_def)
  qed
  show ?thesis
    unfolding cg_apply_writes cg_write_def by (auto intro!: drifting simp: other_file_plain dest: files)
qed

lemma drifts_group: "drifts view (signal_group os cg sig)"
  by (auto intro!: drifting)

text \<open>The effect of \<open>kill_group\<close>: no more than a drift, or the group ends thawed, or a freeze was left half done.\<close>

lemma kill_group_effect:
  assumes "kill_group os (con_cgroup c) sig s = (r, s')"
  shows "drift (view (st_world s)) (view (st_world s'))
    \<or> thawed (view (st_world s)) \<and> drift ((view (st_world s))\<lparr>v_frozen := False, v_wanted := False\<rparr>) (view (st_world s'))
    \<or> (\<exists>e f b. r = Inl e \<and> drift ((view (st_world s))\<lparr>v_frozen := f, v_wanted := b\<rparr>) (view (st_world s')))"
proof -
  obtain s1 where ice: "is_frozen os (con_cgroup c) s = (Inr (v_frozen (view (st_world s))), s1)"
    using frozen_seen [of s] by (metis surj_pair)
  note d1 = driftsD [OF drifts_status(2) ice]
  note run = kill_group_run [OF ice, of sig]
  show ?thesis
  proof (cases "v_frozen (view (st_world s))")
    case True
    with assms run have "signal_group os (con_cgroup c) sig s1 = (r, s')" by simp
    from driftsD [OF drifts_group this] d1 show ?thesis by (blast intro: drift_trans)
  next
    case False
    obtain q s2 where fr: "freeze os (con_cgroup c) True s1 = (q, s2)" by fastforce
    note fr' = freeze_effect [OF fr]
    show ?thesis
    proof (cases q)
      case (Inl e)
      with False fr assms run have r: "r = Inl e" "s' = s2" by auto
      from fr' Inl r d1 have "drift (view (st_world s)) (view (st_world s')) \<or>
          (\<exists>f. drift ((view (st_world s))\<lparr>v_frozen := f, v_wanted := True\<rparr>) (view (st_world s')))"
        by (auto simp: drift_def)
      with r show ?thesis by blast
    next
      case (Inr u)
      obtain q3 s3 where sg: "signal_group os (con_cgroup c) sig s2 = (q3, s3)" by fastforce
      obtain q4 s4 where th: "freeze os (con_cgroup c) False s3 = (q4, s4)" by fastforce
      have r: "s' = s4" "\<And>e. q4 = Inl e \<Longrightarrow> r = Inl e"
        using False fr Inr sg th assms run by (auto split: sum.splits)
      from fr' Inr driftsD [OF drifts_group sg] d1
      have d3: "drift ((view (st_world s))\<lparr>v_frozen := True, v_wanted := True\<rparr>) (view (st_world s3))"
        by (auto simp: drift_def)
      show ?thesis
      proof (cases q4)
        case (Inl e)
        with freeze_effect [OF th] d3 have "\<exists>f b. drift ((view (st_world s))\<lparr>v_frozen := f, v_wanted := b\<rparr>) (view (st_world s4))"
          by (auto simp: drift_def)
        with r Inl show ?thesis by blast
      next
        case (Inr u)
        with freeze_effect [OF th] d3 r False show ?thesis by (auto simp: drift_def thawed_def)
      qed
    qed
  qed
qed

lemma load_own:
  assumes "container_load os cd (con_layout c) (con_id c) s = (Inr c', s')"
  shows "c' = c"
proof -
  from assms obtain s1 t s2 st where rd: "io_text os (Read_File (state_file (con_layout c) (con_id c))) s1 = (Inr t, s2)"
    and dec: "dec_state cd t = Some st" and c': "c' = \<lparr>con_layout = con_layout c, con_state = st\<rparr>"
    by (auto simp: container_load_def Let_def bind_Inr json_def ret_Inr throw_def split: if_splits option.splits)
  from rd have "fst (os_text os (Fs (Read_File (state_file (con_layout c) (con_id c)))) (st_world s1)) = Inr t"
    by (rule checked_run) (auto split: sum.splits)
  from state_shows [OF this dec] c' show ?thesis by simp
qed

text \<open>The parts of a start after the release.\<close>

lemma start_effect: "effect view (\<lambda>v r v'. drift (v\<lparr>v_waiting := False\<rparr>) v' \<or> r \<noteq> Inr () \<and> drift v v') (start_body os h c)"
  unfolding effect_def
proof (intro allI impI)
  fix s r s' assume run: "start_body os h c s = (r, s')"
  obtain q s1 where rel: "fifo_release os (con_exec_fifo c) s = (q, s1)" by fastforce
  note d = effectD [OF release_effect rel]
  show "drift ((view (st_world s))\<lparr>v_waiting := False\<rparr>) (view (st_world s')) \<or> r \<noteq> Inr () \<and> drift (view (st_world s)) (view (st_world s'))"
  proof (cases q)
    case (Inl e)
    with run rel d show ?thesis by (auto simp: start_body_def bind_def)
  next
    case (Inr u)
    let ?rest = "bind (container_hooks os (h_codec h) c) (\<lambda>hks. bind (oci_state_of os c) (\<lambda>st.
      hooks_run os (h_codec h) (h_fuel h) hks Poststart st))"
    have "drifts view ?rest" by (auto intro!: drifting)
    moreover from run rel Inr have "?rest s1 = (r, s')" by (simp add: start_body_def bind_def)
    ultimately have "drift (view (st_world s1)) (view (st_world s'))" by (rule driftsD)
    with d Inr show ?thesis by (auto intro: drift_trans)
  qed
qed

lemma freeze_step:
  assumes "freeze os (con_cgroup c) b s = (r, s')" "drift v (view (st_world s))"
  shows "(r = Inr () \<longrightarrow> drift (v\<lparr>v_frozen := b, v_wanted := b\<rparr>) (view (st_world s')))
    \<and> (\<forall>e. r = Inl e \<longrightarrow> drift v (view (st_world s')) \<or> (\<exists>f. drift (v\<lparr>v_frozen := f, v_wanted := b\<rparr>) (view (st_world s'))))"
  using freeze_effect [OF assms(1)] assms(2) by (auto simp: drift_def)

lemma act_step:
  assumes run: "act_on os h q c s = (r, s')" and tame: "tame q" and st: "st \<in> set (permits q)"
    and seen: "drift v (view (st_world s))" "v_alive v" "st = Paused \<Longrightarrow> freezing v" "st = Created \<or> st = Running \<Longrightarrow> thawed v"
      "st = Created \<Longrightarrow> v_waiting v"
  shows "oci_step q (r = Inr ()) v (view (st_world s'))"
proof (cases q)
  case Ask_Start
  then have v: "v_waiting v" "thawed v" using st seen by auto
  from effectD [OF start_effect] run Ask_Start have
    "drift ((view (st_world s))\<lparr>v_waiting := False\<rparr>) (view (st_world s')) \<or> r \<noteq> Inr () \<and> drift (view (st_world s)) (view (st_world s'))"
    by force
  with seen(1) have "drift (v\<lparr>v_waiting := False\<rparr>) (view (st_world s')) \<or> r \<noteq> Inr () \<and> drift v (view (st_world s'))"
    by (auto simp: drift_def)
  with Ask_Start v seen(2) show ?thesis by (auto intro: oci_step.intros)
next
  case (Ask_Kill sig all)
  show ?thesis
  proof (cases all)
    case False
    with run Ask_Kill have "send_signal os sig (con_pid c) s = (r, s')" by (simp add: kill_body_def)
    from driftsD [OF drifts_signals this] seen(1) have "drift v (view (st_world s'))" by (rule drift_trans [rotated])
    with Ask_Kill seen(2) show ?thesis by (cases r) (auto intro: oci_step.intros)
  next
    case True
    with run Ask_Kill have "kill_group os (con_cgroup c) sig s = (r, s')" by (simp add: kill_body_def)
    from kill_group_effect [OF this] seen(1) have "drift v (view (st_world s'))
      \<or> thawed v \<and> drift (v\<lparr>v_frozen := False, v_wanted := False\<rparr>) (view (st_world s'))
      \<or> (\<exists>e f b. r = Inl e \<and> drift (v\<lparr>v_frozen := f, v_wanted := b\<rparr>) (view (st_world s')))"
      by (auto simp: drift_def thawed_def)
    with Ask_Kill True seen(2) show ?thesis by (cases r) (auto intro: oci_step.intros)
  qed
next
  case Ask_Pause
  with run have fr: "freeze os (con_cgroup c) True s = (r, s')" by simp
  have "thawed v" using Ask_Pause st seen by auto
  with freeze_step [OF fr seen(1)] seen(2) Ask_Pause show ?thesis
    by (cases r) (auto intro: oci_step.intros)
next
  case Ask_Resume
  with run have fr: "freeze os (con_cgroup c) False s = (r, s')" by simp
  have "freezing v" using Ask_Resume st seen by auto
  with freeze_step [OF fr seen(1)] seen(2) Ask_Resume show ?thesis
    by (cases r) (auto intro: oci_step.intros)
next
  case (Ask_Update res)
  with tame run driftsD [OF drifts_apply, of res s r s'] seen(1) have "drift v (view (st_world s'))"
    by (auto intro: drift_trans)
  with Ask_Update seen(2) show ?thesis by (cases r) (auto intro: oci_step.intros)
next
  case (Ask_Ps args)
  with run driftsD [OF drifts_ps, of h args c s r s'] seen(1) have "drift v (view (st_world s'))"
    by (auto intro: drift_trans)
  with Ask_Ps seen(2) show ?thesis by (cases r) (auto intro: oci_step.intros)
next
  case (Ask_Events args)
  with run driftsD [OF drifts_events, of h args c s r s'] seen(1) have "drift v (view (st_world s'))"
    by (auto intro: drift_trans)
  with Ask_Events seen(2) show ?thesis by (cases r) (auto intro: oci_step.intros)
qed

lemma serve_step:
  assumes run: "serve os h (con_layout c) (con_id c) q s = (r, s')" and "h_codec h = cd" "tame q"
  shows "oci_step q (r = Inr ()) (view (st_world s)) (view (st_world s'))"
proof -
  let ?load = "container_load os cd (con_layout c) (con_id c)"
  obtain q1 s1 where ld: "?load s = (q1, s1)" by fastforce
  note d1 = driftsD [OF drifts_loads(1) ld]
  show ?thesis
  proof (cases q1)
    case (Inl e)
    with run ld assms(2) served.unknown [of os h "con_layout c" "con_id c" s e s1 q] d1 show ?thesis
      by (auto intro: refused)
  next
    case (Inr c')
    with ld load_own have ld: "?load s = (Inr c, s1)" by blast
    obtain st s2 where st: "container_status os c s1 = (Inr st, s2)" using container_status_run by blast
    note d2 = driftsD [OF drifts_status(3) st]
    note sees = status_seen [OF st]
    show ?thesis
    proof (cases "st \<in> set (permits q)")
      case False
      with run served.refused [OF ld [folded assms(2)] st] drift_trans [OF d1 d2] show ?thesis by (auto intro: refused)
    next
      case True
      with run served.accepted [OF ld [folded assms(2)] st] have act: "act_on os h q c s2 = (r, s')" by simp
      have "st \<noteq> Stopped" using True by (cases q) auto
      with sees d1 have "v_alive (view (st_world s))" "st = Paused \<Longrightarrow> freezing (view (st_world s))"
        "st = Created \<or> st = Running \<Longrightarrow> thawed (view (st_world s))" "st = Created \<Longrightarrow> v_waiting (view (st_world s))"
        by (auto simp: drift_def thawed_def freezing_def)
      from act_step [OF act assms(3) True drift_trans [OF d1 d2] this] show ?thesis .
    qed
  qed
qed

lemma serve_all_steps:
  assumes "serve_all os h (con_layout c) (con_id c) qs s = (Inr rs, s')" "h_codec h = cd" "list_all tame qs"
  shows "oci_steps qs (map (\<lambda>r. r = Inr ()) rs) (view (st_world s)) (view (st_world s'))"
  using assms
proof (induction qs arbitrary: s rs)
  case (Cons q qs)
  then obtain r s1 rs' where one: "serve os h (con_layout c) (con_id c) q s = (r, s1)"
    and rest: "serve_all os h (con_layout c) (con_id c) qs s1 = (Inr rs', s')" "rs = r # rs'"
    by (auto simp: bind_Inr attempt_run ret_Inr)
  from serve_step [OF one Cons.prems(2)] Cons.IH [OF rest(1) Cons.prems(2)] Cons.prems(3) rest(2)
  show ?case by (auto intro: next_request)
qed (auto simp: ret_Inr intro: idle)

end

subsection \<open>A container alone in its kernel\<close>

text \<open>A world that is what a client sees of one container: it answers from the view, settles the group when the
  runtime sleeps, and ends the init when it is killed.\<close>

definition box_stat :: "container \<Rightarrow> string" where
  "box_stat c = show_int (con_pid c) @ '' ('' @ ''sh'' @ '') '' @ join_with '' '' (replicate 19 ''S'' @ [show_u64 (per_start_time (con_state c))])"

definition box_read :: "container \<Rightarrow> path \<Rightarrow> view \<Rightarrow> errno + string" where
  "box_read c p v =
     (if p = stat_path (con_pid c) then if v_alive v then Inr (box_stat c) else Inl ENOENT
      else if p = events_file c then Inr (flat_text [(''frozen'', if v_frozen v then 1 else 0)])
      else if p = state_file (con_layout c) (con_id c) then Inr ''{}''
      else Inl ENOENT)"

fun box_text :: "container \<Rightarrow> call \<Rightarrow> view \<Rightarrow> (errno + string) \<times> view" where
  "box_text c (Fs (Read_File p)) v = (box_read c p v, v)"
| "box_text c (Fd (Fd_Read f n)) v = (Inr [HANDSHAKE], v)"
| "box_text c x v = (Inl ENOSYS, v)"

fun box_kind :: "container \<Rightarrow> call \<Rightarrow> view \<Rightarrow> (errno + file_kind) \<times> view" where
  "box_kind c (Fs (Stat p)) v =
     (if p = con_exec_fifo c then if v_waiting v then Inr Kind_Fifo else Inl ENOENT
      else if p = state_file (con_layout c) (con_id c) then Inr Kind_File else Inl ENOENT, v)"
| "box_kind c x v = (Inl ENOSYS, v)"

fun box_unit :: "container \<Rightarrow> call \<Rightarrow> view \<Rightarrow> (errno + unit) \<times> view" where
  "box_unit c (Fs (Write_File p t)) v =
     (Inr (), if p = join_path (cg_path (con_cgroup c)) ''cgroup.freeze'' then v\<lparr>v_wanted := t = ''1''\<rparr> else v)"
| "box_unit c (Fs (Remove_File p)) v = (Inr (), if p = con_exec_fifo c then v\<lparr>v_waiting := False\<rparr> else v)"
| "box_unit c (Proc (Kill p sig)) v = (Inr (), if p = con_pid c \<and> sig = SIGKILL then v\<lparr>v_alive := False\<rparr> else v)"
| "box_unit c (Proc (Sleep_Ms n)) v = (Inr (), v\<lparr>v_frozen := v_wanted v\<rparr>)"
| "box_unit c x v = (Inr (), v)"

definition box_os :: "container \<Rightarrow> view os" where
  "box_os c =
     \<lparr>os_unit = box_unit c, os_kind = box_kind c, os_text = box_text c,
      os_num = (\<lambda>x v. (Inr 3, v)), os_names = (\<lambda>x v. (Inr [], v)), os_wait = (\<lambda>x v. (Inr (Exited 0 0), v)),
      os_pair = (\<lambda>x v. (Inr (0, 1), v)), os_caps = (\<lambda>x v. (Inr [], v))\<rparr>"

definition sample_container :: container where
  "sample_container = \<lparr>con_layout = run_root, con_state = sample_state\<rparr>"

lemma sample_paths:
  "events_file sample_container = ''/sys/fs/cgroup/mars/a/cgroup.events''"
  "stat_path (con_pid sample_container) = ''/proc/7/stat''"
  "state_file (con_layout sample_container) (con_id sample_container) = ''/run/a/state.json''"
  "con_exec_fifo sample_container = ''/run/a/exec.fifo''"
  by code_simp+

lemma box_stat_parses: "parse_start_time (box_stat sample_container) = Some 9"
proof -
  let ?fs = "replicate 19 ''S'' @ [show_u64 9]"
  have "key_text w \<and> CHR '')'' \<notin> set w" if "w \<in> set ?fs" for w
  proof -
    have "key_text (show_u64 9) \<and> CHR '')'' \<notin> set (show_u64 9)" "key_text ''S'' \<and> CHR '')'' \<notin> set ''S''" by code_simp+
    moreover from that have "w = ''S'' \<or> w = show_u64 9" by auto
    ultimately show ?thesis by blast
  qed
  then show ?thesis
    unfolding box_stat_def by (rule parse_start_time_fields) (simp_all add: nth_append sample_container_def sample_state_def)
qed

lemma box_events: "frozen_in (flat_text [(''frozen'', if b then 1 else 0)]) = b"
proof -
  have "key_text ''frozen''" by (simp add: key_text_def is_ws_def char_code_def)
  then show ?thesis
    using parse_flat_keyed_text [of "[(''frozen'', if b then 1 else 0)]"] by (auto simp: frozen_in_def count_of_def)
qed

lemma box_calm:
  assumes "calm c x"
  shows "drift v (snd (box_unit c x v))"
  using assms
proof (cases "(c, x, v)" rule: box_unit.cases)
  case (1 c' p t v')
  moreover have "\<not> other_file c (join_path (cg_path (con_cgroup c)) ''cgroup.freeze'')"
    by (simp add: other_file_plain plain_name_def)
  ultimately show ?thesis using assms by (auto simp: drift_def)
qed (auto simp: drift_def)

interpretation box: container_kernel "box_os sample_container" sample_codec sample_container id
proof
  fix w w' :: view and x t st b e
  show "(\<exists>t. fst (os_text (box_os sample_container) (Fs (Read_File (stat_path (con_pid sample_container)))) w) = Inr t
      \<and> parse_start_time t = Some (per_start_time (con_state sample_container))) \<longleftrightarrow> v_alive (id w)"
    using box_stat_parses by (simp add: box_os_def box_read_def sample_container_def sample_state_def)
  show "(\<exists>t. fst (os_text (box_os sample_container) (Fs (Read_File (events_file sample_container))) w) = Inr t \<and> frozen_in t)
      \<longleftrightarrow> v_frozen (id w)"
    by (simp add: box_os_def box_read_def sample_paths box_events)
  show "dec_state sample_codec t = Some st \<Longrightarrow> st = con_state sample_container"
    by (simp add: sample_codec_def sample_container_def)
  show "calm sample_container x \<Longrightarrow> drift (id w) (id (snd (os_unit (box_os sample_container) x w)))"
    using box_calm by (simp add: box_os_def)
  show "drift (id w) (id (snd (os_kind (box_os sample_container) x w)))"
    by (cases "(sample_container, x, w)" rule: box_kind.cases) (auto simp: box_os_def)
  show "drift (id w) (id (snd (os_text (box_os sample_container) x w)))"
    by (cases "(sample_container, x, w)" rule: box_text.cases) (auto simp: box_os_def)
qed (auto simp: box_os_def freeze_write_def drift_def)

subsection \<open>The refinement\<close>

lemma serve_all_total: "\<exists>rs s'. serve_all os h l cid qs s = (Inr rs, s') \<and> length rs = length qs"
proof (induction qs arbitrary: s)
  case (Cons q qs)
  obtain r s1 where one: "serve os h l cid q s = (r, s1)" by fastforce
  from Cons.IH [of s1] obtain rs s' where "serve_all os h l cid qs s1 = (Inr rs, s')" "length rs = length qs" by blast
  with one show ?case by (auto simp: bind_def attempt_def ret_def)
qed (simp add: ret_def)

definition box_start :: "view st" where
  "box_start = \<lparr>st_world = \<lparr>v_alive = True, v_frozen = False, v_wanted = False, v_waiting = True\<rparr>, st_trace = [],
     st_clock = \<lparr>rec_phases = [], rec_open = None, rec_wall_origin = 0\<rparr>\<rparr>"

lemma box_kernel: "container_kernel (box_os sample_container) (h_codec sample_host) sample_container id"
  using box.container_kernel_axioms by (simp add: sample_host_def)

text \<open>In the box a waiting container really starts.\<close>

lemma box_load:
  "\<exists>s'. container_load (box_os sample_container) sample_codec (con_layout sample_container) (con_id sample_container) s
      = (Inr sample_container, s') \<and> st_world s' = st_world s"
  by (simp add: container_load_def Let_def io_simps json_def sample_codec_def box_os_def box_read_def sample_paths)
    (simp add: sample_container_def)

lemma box_created:
  assumes "v_alive (st_world s)" "\<not> v_frozen (st_world s)" "v_waiting (st_world s)"
  shows "\<exists>s'. container_status (box_os sample_container) sample_container s = (Inr Created, s') \<and> st_world s' = st_world s"
proof -
  have events: "join_path (cg_path (con_cgroup sample_container)) ''cgroup.events'' = events_file sample_container"
    by (simp add: events_file_def)
  have start: "per_start_time (con_state sample_container) = 9" by (simp add: sample_container_def sample_state_def)
  show ?thesis
    using assms
    by (simp add: container_status_def alive_def start_time_def is_frozen_def cg_read_def io_simps box_os_def box_read_def
      box_stat_parses events sample_paths start box_events [of False, simplified])
qed

lemma box_starts:
  assumes "v_alive (st_world s)" "\<not> v_frozen (st_world s)" "v_waiting (st_world s)"
  shows "\<exists>s'. serve (box_os sample_container) sample_host (con_layout sample_container) (con_id sample_container) Ask_Start s
    = (Inr (), s')"
proof -
  let ?os = "box_os sample_container" and ?c = sample_container
  have host: "h_codec sample_host = sample_codec" by (simp add: sample_host_def)
  obtain s1 where ld: "container_load ?os sample_codec (con_layout ?c) (con_id ?c) s = (Inr ?c, s1)" "st_world s1 = st_world s"
    using box_load by blast
  obtain s2 where st: "container_status ?os ?c s1 = (Inr Created, s2)" "st_world s2 = st_world s"
    using box_created [of s1] assms ld(2) by auto
  have "v_waiting (st_world s2)" using st(2) assms(3) by simp
  then obtain s3 where rel: "fifo_release ?os (con_exec_fifo ?c) s2 = (Inr (), s3)"
    by (simp add: fifo_release_def io_simps box_os_def)
  obtain s4 where hooks: "container_hooks ?os sample_codec ?c s3 = (Inr None, s4)"
    by (simp add: container_hooks_def bundle_load_def io_simps box_os_def)
  obtain o' s5 where oci: "oci_state_of ?os ?c s4 = (Inr o', s5)"
    using emits_trace [OF oci_state_reads, of ?os ?c s4] by (cases "oci_state_of ?os ?c s4") auto
  have "start_body ?os sample_host ?c s2 = (Inr (), s5)"
    using rel hooks oci by (simp add: start_body_def bind_def host hooks_run_def ret_def)
  with served.accepted [of ?os sample_host "con_layout ?c" "con_id ?c" s ?c s1 Created s2 Ask_Start] ld st
  show ?thesis by (simp add: host)
qed



text \<open>C4: a container is started at most once, and never after its init has died: in every history of requests at most
  one \<open>start\<close> succeeds, none does when the container no longer waits, and once its init is dead every
  request is refused.\<close>

theorem container_starts_once:
  assumes "container_kernel os (h_codec h) c view" "list_all tame qs"
    and "serve_all os h (con_layout c) (con_id c) qs s = (Inr rs, s')"
  shows "count_list (zip qs rs) (Ask_Start, Inr ()) \<le> (if v_waiting (view (st_world s)) then 1 else 0)
    \<and> (\<not> v_alive (view (st_world s)) \<longrightarrow> Inr () \<notin> set rs)"
proof -
  note steps = container_kernel.serve_all_steps [OF assms(1,3) refl assms(2)]
  have "count_list (zip qs rs) (Ask_Start, Inr ()) = starts qs (map (\<lambda>r. r = Inr ()) rs)"
    unfolding starts_def by (induction qs rs rule: list_induct2') auto
  with steps_start_once [OF steps] steps_dead [OF steps] show ?thesis by auto
qed

lemma container_starts_once_witness:
  "\<exists>r s'. serve_all (box_os sample_container) sample_host (con_layout sample_container) (con_id sample_container)
       [Ask_Start, Ask_Start] box_start = (Inr [Inr (), r], s') \<and> r \<noteq> Inr ()"
proof -
  let ?serve = "serve (box_os sample_container) sample_host (con_layout sample_container) (con_id sample_container)"
  obtain s1 where one: "?serve Ask_Start box_start = (Inr (), s1)"
    using box_starts [of box_start] by (auto simp: box_start_def)
  obtain r s' where two: "?serve Ask_Start s1 = (r, s')" by fastforce
  have run: "serve_all (box_os sample_container) sample_host (con_layout sample_container) (con_id sample_container)
      [Ask_Start, Ask_Start] box_start = (Inr [Inr (), r], s')"
    using one two by (simp add: bind_def attempt_def ret_def)
  with container_starts_once [OF box_kernel _ run] show ?thesis by (auto simp: box_start_def)
qed

end
