(* ===== verification/Spec2Isabelle.thy ===== *)
theory Spec2Isabelle
  imports Whole_Program State_Store Oci_Machine
begin

text \<open>
  The mars container runtime, modelled and verified.

  The program (sources under \<^verbatim>\<open>src/src\<close>) is an OCI runtime. A command (\<^verbatim>\<open>commands/\<close>) finds a container by
  its identifier in the state directory (\<^verbatim>\<open>paths.rs\<close>, \<^verbatim>\<open>state.rs\<close>) or creates one from a bundle
  (\<^verbatim>\<open>bundle/\<close>). Creating (\<^verbatim>\<open>container/mod.rs\<close>) plans the namespaces, prepares the overlay root file
  system and the control group, and forks an intermediate process which unshares, has its user
  mapping written by the parent, and forks the init. Parent, intermediate and init talk over one
  socket pair (\<^verbatim>\<open>sync.rs\<close>). The init (\<^verbatim>\<open>container/init.rs\<close>) mounts, pivots, masks, limits and drops its
  privileges, reports itself ready, and waits on a fifo (\<^verbatim>\<open>fifo.rs\<close>) until \<^verbatim>\<open>start\<close> releases it.

  What the model is. Every function that makes system calls is a function on a process state: the
  world, the trace of the calls made, and the telemetry recorder (\<^verbatim>\<open>Effects\<close>). The operating system
  is a parameter, a record of reply functions from a call and a world to a reply and the next world;
  so are the serialisation formats (\<^verbatim>\<open>codec\<close>), the names of capabilities, signals and system calls,
  and the default specification of oci-spec (\<^verbatim>\<open>host\<close>). A theorem about all runs therefore covers
  every failure of every call. \<open>Inl\<close> carries the variant of the source's \<^verbatim>\<open>Error\<close>, with the reason as a
  constructor in place of the text of its message.

  The theories, in the order of the code.
  \<^item> \<open>Prelude\<close>, \<open>Rust_Strings\<close>, \<open>Rust_Path\<close>: sums, options, the string and path functions of the standard
    library the sources call (\<^verbatim>\<open>split\<close>, \<^verbatim>\<open>parse\<close>, \<^verbatim>\<open>Path::join\<close>, \<^verbatim>\<open>components\<close>, \<^verbatim>\<open>starts_with\<close>, \<^verbatim>\<open>strip_prefix\<close>).
  \<^item> \<open>Oci_Spec\<close>, \<open>Runtime_Types\<close>: the configuration's data, the calls, the errors (\<^verbatim>\<open>error.rs\<close>).
  \<^item> \<open>Effects\<close>, \<open>Ordering\<close>: programs with effects, and the rules by which the components prove what a run
    appends to the trace: \<open>only\<close> (which calls), \<open>staged\<close> (in which order), \<open>does\<close> and \<open>ensures\<close> (what a
    successful run has done), \<open>guarded\<close> (what came before a call, in failed runs too).
  \<^item> \<open>Codec\<close>, \<open>Civil_Time\<close>, \<open>Paths\<close>, \<open>File_Store\<close>, \<open>State\<close>: \<^verbatim>\<open>paths.rs\<close> and \<^verbatim>\<open>state.rs\<close>. \<open>File_Store\<close> states what
    the state file needs of a file system as a locale, with an interpretation on a tree of files.
  \<^item> \<open>Cgroup\<close>: \<^verbatim>\<open>cgroup/v2.rs\<close>, \<^verbatim>\<open>cgroup/events.rs\<close>.
  \<^item> \<open>Namespace\<close>, \<open>Validate\<close>, \<open>Bundle\<close>: \<^verbatim>\<open>namespace.rs\<close>, \<^verbatim>\<open>bundle/\<close>.
  \<^item> \<open>Overlay\<close>, \<open>Mounts\<close>, \<open>Rootfs\<close>: \<^verbatim>\<open>rootfs/\<close>.
  \<^item> \<open>Telemetry\<close>, \<open>Sync\<close>, \<open>Signal\<close>, \<open>Fifo\<close>, \<open>Hooks\<close>, \<open>Userns\<close>, \<open>Credentials\<close>, \<open>Seccomp\<close>, \<open>Console\<close>: the file of
    that name under \<^verbatim>\<open>container/\<close> (\<open>Credentials\<close>: \<^verbatim>\<open>process.rs\<close> and \<^verbatim>\<open>capabilities.rs\<close>), \<^verbatim>\<open>telemetry.rs\<close>
    and \<^verbatim>\<open>sync.rs\<close>.
  \<^item> \<open>Host\<close>, \<open>Init\<close>, \<open>Exec\<close>, \<open>Container\<close>: \<^verbatim>\<open>container/init.rs\<close>, \<^verbatim>\<open>exec.rs\<close>, \<^verbatim>\<open>mod.rs\<close>.
  \<^item> \<open>Commands\<close>: \<^verbatim>\<open>commands/\<close> and the argument types of \<^verbatim>\<open>cli.rs\<close>.
  \<^item> \<open>Protocol\<close>, \<open>Handshake\<close>: creation as three automata that exchange the messages of \<^verbatim>\<open>sync.rs\<close>, run interleaved
    with the failures a process can have, and the proof that the code of each process follows its automaton.
  \<^item> \<open>State_Store\<close>: the state directory as a refinement of a map from identifiers to states; the locale
    \<open>file_tree\<close> extends \<open>file_store\<close> by the removal of directories and is interpreted on the same tree.
  \<^item> \<open>Isolation\<close>: which parts of a creation can change the host's mounts or names, and what comes before them.
  \<^item> \<open>Entry\<close>: \<^verbatim>\<open>main.rs\<close> and \<^verbatim>\<open>logging.rs\<close>. \<open>Whole_Program\<close>: the properties of every run of \<open>main_run\<close>.
  \<^item> \<open>Lifecycle\<close>: the properties of the operations on a container, over the locale \<open>lifecycle_operation\<close> that
    start, kill, pause, update, ps and events instantiate.
  \<^item> \<open>Oci_Machine\<close>: the life cycle of a container as a state machine, the specification of those requests. The
    locale \<open>container_kernel\<close> says what the kernel shows of a container (\<^verbatim>\<open>/proc/<pid>/stat\<close>, \<^verbatim>\<open>cgroup.events\<close>, the
    fifo) and which calls change it; its model \<open>box_os\<close> is a kernel with that container.

  What the properties show. The protocol: every interleaving agrees on the init that was made, ends after fewer
  than fifteen steps, and is never stuck while failing children report (\<open>silent_death_hangs\<close> shows that
  an intermediate process killed after its fork does hang the creation); the code refines it. The order of
  calls: the init's restrictions, the parent's hooks after the control group, \<^verbatim>\<open>exec\<close>'s joins, the
  credentials, each in every run, failed ones included. The state: identifiers name disjoint
  directories, saves, loads and removals reply as a map would, a failed save or creation leaves nothing
  behind, and a run removes what it created, whatever its supervision gave.
  The life cycle: every history of requests is one of the state machine, a container starts at most once, and a
  dead one refuses everything. The guards: each operation acts in its statuses only, a bad identifier reaches nothing. Containment:
  mounts, devices, sysctls and control groups stay below their roots, and in every run of the whole program,
  through each process it forks, no mount is made and no name is set before the process has left the
  host's namespace. Translation: the seccomp filter,
  capability sets, overlay options, mount options and resource limits are those of the configuration.

  Bounds. Loops the source bounds keep their bound: 500 polls of a freeze, 250 polls of an emptying
  group, 500 polls of a dying one. Loops it does not bound (supervising, draining children, polling a
  hook, watching events) take fuel and end in the error \<open>Out_Of_Fuel\<close>, which no source function
  raises: a theorem that excludes it, or speaks of every result, covers every finite run.

  Not modelled. The parsing of the command line by clap, what the tracing subscriber and \<^verbatim>\<open>eprintln!\<close> print,
  the texts of error messages, \<^verbatim>\<open>rlimit_names\<close> (a list of debug names that nothing calls), the sources'
  unit tests, memory safety and file descriptors closed by \<^verbatim>\<open>Drop\<close>.
\<close>

end
